(* ===== verification/Prelude.thy ===== *)
theory Prelude
  imports Main "HOL-Library.AList" "HOL-Library.Multiset" "HOL-Library.List_Lexorder"
    "HOL-Library.Char_ord" "HOL-Library.Word"
begin

text \<open>
  Shared vocabulary of the development: Go errors and results, 64-bit wrap-around, Go maps as
  association lists, \<^verbatim>\<open>sort.Slice\<close>, the invariant rule for step relations, and the
  generic lemmas the component theories use.
\<close>

section \<open>Collections of facts\<close>

named_theorems store_defs "definitions of the storage operations, for unfolding one call"
named_theorems frame_simps "what an operation leaves unchanged"

section \<open>Errors and results\<close>

text \<open>
  A Go \<^verbatim>\<open>error\<close>: the sentinels the program compares with \<^verbatim>\<open>errors.Is\<close>, a plain
  message (\<^verbatim>\<open>errors.New\<close>, \<^verbatim>\<open>fmt.Errorf\<close> without a cause), and a message that wraps
  a cause (\<^verbatim>\<open>fmt.Errorf\<close> with \<^verbatim>\<open>%w\<close>). Operands that are only formatted into the text
  of a message are left out of it.
\<close>

datatype goerr =
    ErrNoRows
  | ErrDuplicateEvent
  | ErrDuplicateWithdrawal
  | ErrDuplicateFunding
  | ErrDuplicateAudit
  | ErrWalletRetired
  | ErrNoSolanaRPC
  | ErrText string
  | ErrWrap string goerr

fun errors_Is :: "goerr \<Rightarrow> goerr \<Rightarrow> bool" where
  "errors_Is (ErrWrap m e) t = (ErrWrap m e = t \<or> errors_Is e t)"
| "errors_Is e t = (e = t)"

type_synonym 'a res = "goerr + 'a"

definition is_ok :: "'a res \<Rightarrow> bool" where
  "is_ok r = (case r of Inl _ \<Rightarrow> False | Inr _ \<Rightarrow> True)"

lemma is_ok_simps [simp]: "is_ok (Inl e) = False" "is_ok (Inr x) = True"
  by (simp_all add: is_ok_def)

lemma is_okE: "is_ok r \<Longrightarrow> (\<And>x. r = Inr x \<Longrightarrow> P) \<Longrightarrow> P"
  by (cases r) simp_all

section \<open>Signed 64-bit arithmetic\<close>

text \<open>
  Go's \<^verbatim>\<open>int\<close>, \<^verbatim>\<open>int64\<close> and \<^verbatim>\<open>time.Duration\<close> are two's-complement 64-bit integers.
  They are kept as \<open>int\<close>, and every addition or multiplication that can overflow goes through
  \<open>wrap64\<close>.
\<close>

definition wrap64 :: "int \<Rightarrow> int" where
  "wrap64 x = (x + 2 ^ 63) mod 2 ^ 64 - 2 ^ 63"

definition int64_range :: "int \<Rightarrow> bool" where
  "int64_range x = (- (2 ^ 63) \<le> x \<and> x < 2 ^ 63)"

lemma wrap64_id [simp]: "- (2 ^ 63) \<le> x \<Longrightarrow> x < 2 ^ 63 \<Longrightarrow> wrap64 x = x"
  by (simp add: wrap64_def)

lemma wrap64_range: "int64_range (wrap64 x)"
  using pos_mod_sign [of "2 ^ 64" "x + 2 ^ 63"] pos_mod_bound [of "2 ^ 64" "x + 2 ^ 63"]
  by (simp add: wrap64_def int64_range_def)

lemma wrap64_overflow: "wrap64 (2 ^ 63) = - (2 ^ 63)"
  by (simp add: wrap64_def)

section \<open>Time\<close>

text \<open>
  \<^verbatim>\<open>time.Time\<close> is the number of nanoseconds since the zero time, so \<^verbatim>\<open>IsZero\<close> is a test
  for 0; durations are nanoseconds too.
\<close>

type_synonym time = int

definition IsZero :: "time \<Rightarrow> bool" where
  "IsZero t = (t = 0)"

text \<open>\<^verbatim>\<open>UnixNano\<close> counts from 1970 instead of year 1.\<close>

definition UnixNano :: "time \<Rightarrow> int" where
  "UnixNano t = wrap64 (t - 62135596800 * 10 ^ 9)"

section \<open>Go maps\<close>

text \<open>
  A Go map is an association list with distinct keys: \<open>map_of\<close> looks a key up,
  \<open>AList.update\<close> assigns, \<open>AList.delete\<close> is \<^verbatim>\<open>delete\<close>, and \<open>AList.map_entry\<close> is a
  write through the pointer a lookup returned. \<open>vals\<close> are the values in the order one
  \<^verbatim>\<open>range\<close> loop visits them.
\<close>

type_synonym ('k, 'v) gomap = "('k \<times> 'v) list"

abbreviation vals :: "('k, 'v) gomap \<Rightarrow> 'v list" where
  "vals m \<equiv> map snd m"

definition map_ok :: "('k, 'v) gomap \<Rightarrow> bool" where
  "map_ok m = distinct (map fst m)"

lemma map_ok_Nil [simp, intro]: "map_ok []"
  by (simp add: map_ok_def)

lemma map_ok_update [simp, intro]: "map_ok m \<Longrightarrow> map_ok (AList.update k v m)"
  by (simp add: map_ok_def distinct_update)

lemma map_ok_delete [simp, intro]: "map_ok m \<Longrightarrow> map_ok (AList.delete k m)"
  by (simp add: map_ok_def distinct_delete)

lemma keys_map_entry [simp]: "map fst (AList.map_entry k f m) = map fst m"
  by (induction m) auto

lemma map_ok_map_entry [simp, intro]: "map_ok m \<Longrightarrow> map_ok (AList.map_entry k f m)"
  by (simp add: map_ok_def)

lemma map_of_update [simp]: "map_of (AList.update k v m) = (map_of m)(k \<mapsto> v)"
  by (rule update_conv')

lemma map_of_delete [simp]: "map_of (AList.delete k m) = (map_of m)(k := None)"
  by (rule delete_conv')

lemma map_of_entry [simp]:
  "map_of (AList.map_entry k f m) = (map_of m)(k := map_option f (map_of m k))"
  by (induction m) (auto simp: fun_eq_iff)

lemma vals_iff: "map_ok m \<Longrightarrow> v \<in> set (vals m) \<longleftrightarrow> (\<exists>k. map_of m k = Some v)"
  by (force simp: map_ok_def)

lemma vals_updateD:
  "map_ok m \<Longrightarrow> u \<in> set (vals (AList.update k v m)) \<Longrightarrow> u = v \<or> u \<in> set (vals m)"
  by (auto simp: vals_iff simp del: set_map split: if_splits)

lemma vals_deleteD:
  "map_ok m \<Longrightarrow> u \<in> set (vals (AList.delete k m)) \<Longrightarrow> u \<in> set (vals m)"
  by (auto simp: vals_iff simp del: set_map split: if_splits)

lemma find_SomeD: "find P xs = Some x \<Longrightarrow> P x \<and> x \<in> set xs"
  by (auto simp: find_Some_iff)

text \<open>Writing through several pointers, one after the other.\<close>

definition entries_upd :: "'k list \<Rightarrow> ('v \<Rightarrow> 'v) \<Rightarrow> ('k, 'v) gomap \<Rightarrow> ('k, 'v) gomap" where
  "entries_upd ks f m = fold (\<lambda>k. AList.map_entry k f) ks m"

lemma entries_upd_Nil [simp]: "entries_upd [] f m = m"
  by (simp add: entries_upd_def)

lemma entries_upd_Cons [simp]:
  "entries_upd (k # ks) f m = entries_upd ks f (AList.map_entry k f m)"
  by (simp add: entries_upd_def)

lemma keys_entries_upd [simp]: "map fst (entries_upd ks f m) = map fst m"
  by (induction ks arbitrary: m) auto

lemma map_ok_entries_upd [simp, intro]: "map_ok m \<Longrightarrow> map_ok (entries_upd ks f m)"
  by (simp add: map_ok_def)

lemma map_of_entries_upd_other: "k \<notin> set ks \<Longrightarrow> map_of (entries_upd ks f m) k = map_of m k"
  by (induction ks arbitrary: m) auto

lemma map_of_entries_upd:
  assumes "\<And>v. f (f v) = f v"
  shows "map_of (entries_upd ks f m) k =
    (if k \<in> set ks then map_option f (map_of m k) else map_of m k)"
  using assms by (induction ks arbitrary: m) (auto simp: option.map_comp comp_def)

text \<open>A map whose rows all satisfy a predicate on key and value.\<close>

definition rows_ok :: "('k \<Rightarrow> 'v \<Rightarrow> bool) \<Rightarrow> ('k, 'v) gomap \<Rightarrow> bool" where
  "rows_ok P m = (map_ok m \<and> (\<forall>(k, v) \<in> set m. P k v))"

lemma set_update_sub: "set (AList.update k v m) \<subseteq> insert (k, v) (set m)"
  by (induction m) auto

lemma set_delete_sub: "set (AList.delete k m) \<subseteq> set m"
  by (auto simp: AList.delete_eq)

lemma in_map_entryD:
  "(a, v) \<in> set (AList.map_entry k f m) \<Longrightarrow> (a, v) \<in> set m \<or> a = k \<and> (\<exists>v0. (a, v0) \<in> set m \<and> v = f v0)"
  by (induction m) (auto split: if_splits)

lemma rows_ok_map_ok: "rows_ok P m \<Longrightarrow> map_ok m"
  by (simp add: rows_ok_def)

lemma rows_ok_Nil [simp, intro]: "rows_ok P []"
  by (simp add: rows_ok_def)

lemma rows_ok_update [intro]: "rows_ok P m \<Longrightarrow> P k v \<Longrightarrow> rows_ok P (AList.update k v m)"
  using set_update_sub [of k v m] by (fastforce simp: rows_ok_def)

lemma rows_ok_delete [intro]: "rows_ok P m \<Longrightarrow> rows_ok P (AList.delete k m)"
  using set_delete_sub [of k m] by (fastforce simp: rows_ok_def)

lemma rows_ok_entry [intro]:
  "rows_ok P m \<Longrightarrow> (\<And>v. P k v \<Longrightarrow> P k (f v)) \<Longrightarrow> rows_ok P (AList.map_entry k f m)"
  by (auto simp: rows_ok_def dest!: in_map_entryD)

lemma rows_ok_entries [intro]:
  "rows_ok P m \<Longrightarrow> (\<And>k v. P k v \<Longrightarrow> P k (f v)) \<Longrightarrow> rows_ok P (entries_upd ks f m)"
  by (induction ks arbitrary: m) (simp_all add: rows_ok_entry)

lemma rows_ok_fold_delete [intro]: "rows_ok P m \<Longrightarrow> rows_ok P (fold AList.delete ks m)"
  by (induction ks arbitrary: m) auto

lemma rows_ok_get: "rows_ok P m \<Longrightarrow> map_of m k = Some v \<Longrightarrow> P k v"
  by (auto simp: rows_ok_def dest: map_of_SomeD)

lemma rows_ok_vals: "rows_ok P m \<Longrightarrow> v \<in> set (vals m) \<Longrightarrow> \<exists>k. map_of m k = Some v \<and> P k v"
  by (force simp: rows_ok_def map_ok_def)

text \<open>A map no two rows of which are related: a uniqueness constraint.\<close>

definition rows_apart :: "('v \<Rightarrow> 'v \<Rightarrow> bool) \<Rightarrow> ('k, 'v) gomap \<Rightarrow> bool" where
  "rows_apart R m = (\<forall>k1 k2 a b. map_of m k1 = Some a \<longrightarrow> map_of m k2 = Some b \<longrightarrow> R a b \<longrightarrow> k1 = k2)"

lemma rows_apartD: "rows_apart R m \<Longrightarrow> map_of m k1 = Some a \<Longrightarrow> map_of m k2 = Some b \<Longrightarrow> R a b \<Longrightarrow> k1 = k2"
  by (auto simp: rows_apart_def)

lemma rows_apart_Nil [simp, intro]: "rows_apart R []"
  by (simp add: rows_apart_def)

lemma rows_apart_update:
  assumes "rows_apart R m" and "\<And>k' b. map_of m k' = Some b \<Longrightarrow> \<not> R v b \<and> \<not> R b v"
  shows "rows_apart R (AList.update k v m)"
  using assms unfolding rows_apart_def by (auto split: if_splits)

lemma rows_apart_entry:
  assumes "rows_apart R m" and "\<And>a b. R (f a) b \<Longrightarrow> R a b" and "\<And>a b. R a (f b) \<Longrightarrow> R a b"
  shows "rows_apart R (AList.map_entry k f m)"
  unfolding rows_apart_def
proof (intro allI impI)
  fix k1 k2 a b
  assume a: "map_of (AList.map_entry k f m) k1 = Some a" and b: "map_of (AList.map_entry k f m) k2 = Some b"
    and R: "R a b"
  obtain a0 where a0: "map_of m k1 = Some a0" "a = a0 \<or> a = f a0" using a by (auto split: if_splits)
  obtain b0 where b0: "map_of m k2 = Some b0" "b = b0 \<or> b = f b0" using b by (auto split: if_splits)
  have "R a0 b0" using R a0(2) b0(2) assms(2,3) by blast
  then show "k1 = k2" using rows_apartD [OF assms(1) a0(1) b0(1)] by simp
qed

section \<open>sort.Slice\<close>

text \<open>
  \<^verbatim>\<open>sort.Slice\<close> orders a slice by a \<^verbatim>\<open>less\<close> function. Go does not fix the order of
  elements that compare equal; this definition keeps them in the order of the input.
\<close>

fun insort_less :: "('a \<Rightarrow> 'a \<Rightarrow> bool) \<Rightarrow> 'a \<Rightarrow> 'a list \<Rightarrow> 'a list" where
  "insort_less lt x [] = [x]"
| "insort_less lt x (y # ys) =
     (if lt y x then y # insort_less lt x ys else x # y # ys)"

definition sort_Slice :: "('a \<Rightarrow> 'a \<Rightarrow> bool) \<Rightarrow> 'a list \<Rightarrow> 'a list" where
  "sort_Slice lt xs = foldr (insort_less lt) xs []"

lemma sort_Slice_simps [simp]:
  "sort_Slice lt [] = []"
  "sort_Slice lt (x # xs) = insort_less lt x (sort_Slice lt xs)"
  by (simp_all add: sort_Slice_def)

lemma mset_insort_less [simp]: "mset (insort_less lt x xs) = add_mset x (mset xs)"
  by (induction xs) auto

lemma mset_sort_Slice [simp]: "mset (sort_Slice lt xs) = mset xs"
  by (induction xs) auto

lemma set_sort_Slice [simp]: "set (sort_Slice lt xs) = set xs"
  by (metis mset_sort_Slice set_mset_mset)

lemma length_sort_Slice [simp]: "length (sort_Slice lt xs) = length xs"
  by (metis mset_sort_Slice size_mset)

lemma sort_Slice_eq_Nil [simp]: "sort_Slice lt xs = [] \<longleftrightarrow> xs = []"
  by (metis length_0_conv length_sort_Slice)

lemma distinct_map_sort_Slice [simp]:
  "distinct (map f (sort_Slice lt xs)) = distinct (map f xs)"
proof -
  have "mset (map f (sort_Slice lt xs)) = mset (map f xs)"
    by simp
  then show ?thesis
    by (rule mset_eq_imp_distinct_iff)
qed

text \<open>
  The contract \<^verbatim>\<open>sort.Slice\<close> documents for its argument: \<^verbatim>\<open>less\<close> is a strict weak order.
  Every comparison function of the program is interpreted against it where it is defined.
\<close>

locale less_order =
  fixes lt :: "'a \<Rightarrow> 'a \<Rightarrow> bool"
  assumes less_asym: "lt x y \<Longrightarrow> \<not> lt y x"
    and less_negtrans: "lt x z \<Longrightarrow> lt x y \<or> lt y z"
begin

lemma not_less_trans: "\<not> lt y x \<Longrightarrow> \<not> lt z y \<Longrightarrow> \<not> lt z x"
  using less_negtrans by blast

lemma sorted_insort_less:
  "sorted_wrt (\<lambda>a b. \<not> lt b a) xs \<Longrightarrow> sorted_wrt (\<lambda>a b. \<not> lt b a) (insort_less lt x xs)"
proof (induction xs)
  case Nil
  then show ?case by simp
next
  case (Cons y ys)
  have eq: "set (insort_less lt x ys) = insert x (set ys)"
    by (metis mset_insort_less set_mset_add_mset_insert set_mset_mset)
  show ?case
  proof (cases "lt y x")
    case True
    then show ?thesis using Cons less_asym [of y x] by (simp add: eq)
  next
    case False
    then have "\<forall>z \<in> set ys. \<not> lt z x"
      using Cons.prems not_less_trans [of y x] by auto
    with False show ?thesis using Cons.prems by simp
  qed
qed

lemma sorted_sort_Slice: "sorted_wrt (\<lambda>a b. \<not> lt b a) (sort_Slice lt xs)"
  by (induction xs) (simp_all add: sorted_insort_less)

lemma sort_Slice_hd_least: "x \<in> set xs \<Longrightarrow> \<not> lt x (hd (sort_Slice lt xs))"
proof -
  assume x: "x \<in> set xs"
  then obtain y ys where s: "sort_Slice lt xs = y # ys"
    by (metis list.exhaust list.set(1) empty_iff set_sort_Slice)
  have "x = y \<or> x \<in> set ys"
    using x s by (metis set_ConsD set_sort_Slice)
  then show ?thesis
    using sorted_sort_Slice [of xs] less_asym s by auto
qed

end

section \<open>Idempotent recording\<close>

text \<open>
  The contract of the store's deduplicating inserts: an item whose key was seen is refused with the
  sentinel and nothing changes; any other item is accepted and its key is seen from then on.
\<close>

fun put_all :: "('e \<Rightarrow> 's \<Rightarrow> unit res \<times> 's) \<Rightarrow> 'e list \<Rightarrow> 's \<Rightarrow> unit res list \<times> 's" where
  "put_all put [] s = ([], s)"
| "put_all put (e # es) s =
     (case put e s of (r, s1) \<Rightarrow> (case put_all put es s1 of (rs, s2) \<Rightarrow> (r # rs, s2)))"

locale dedup_log =
  fixes key :: "'e \<Rightarrow> 'k" and seen :: "'s \<Rightarrow> 'k \<Rightarrow> bool"
    and put :: "'e \<Rightarrow> 's \<Rightarrow> unit res \<times> 's" and dup :: goerr
  assumes put_seen: "seen s (key e) \<Longrightarrow> put e s = (Inl dup, s)"
    and put_new: "\<not> seen s (key e) \<Longrightarrow>
      \<exists>s'. put e s = (Inr (), s') \<and> (\<forall>k. seen s' k \<longleftrightarrow> k = key e \<or> seen s k)"
begin

lemma put_result: "fst (put e s) = (if seen s (key e) then Inl dup else Inr ())"
proof (cases "seen s (key e)")
  case True
  then show ?thesis by (simp add: put_seen)
next
  case False
  then obtain s' where "put e s = (Inr (), s')" using put_new by blast
  with False show ?thesis by simp
qed

lemma put_seen_iff: "seen (snd (put e s)) k \<longleftrightarrow> k = key e \<or> seen s k"
proof (cases "seen s (key e)")
  case True
  then show ?thesis by (auto simp: put_seen)
next
  case False
  then obtain s' where s': "put e s = (Inr (), s')" and iff: "\<forall>k. seen s' k \<longleftrightarrow> k = key e \<or> seen s k"
    using put_new by blast
  show ?thesis unfolding s' snd_conv by (rule iff [rule_format])
qed

lemma put_twice: "put e (snd (put e s)) = (Inl dup, snd (put e s))"
  by (rule put_seen) (simp add: put_seen_iff)

lemma put_all_Cons:
  "fst (put_all put (e # es) s) = fst (put e s) # fst (put_all put es (snd (put e s)))"
  "snd (put_all put (e # es) s) = snd (put_all put es (snd (put e s)))"
  by (simp_all add: case_prod_beta)

lemma put_all_seen: "seen (snd (put_all put es s)) k \<longleftrightarrow> k \<in> key ` set es \<or> seen s k"
proof (induction es arbitrary: s)
  case Nil
  then show ?case by simp
next
  case (Cons e es)
  show ?case
    unfolding put_all_Cons Cons put_seen_iff by auto
qed

text \<open>Over any sequence of deliveries, each new key is accepted exactly once.\<close>

lemma put_all_accepts:
  "length (filter is_ok (fst (put_all put es s))) = card (key ` set es - {k. seen s k})"
proof (induction es arbitrary: s)
  case Nil
  then show ?case by simp
next
  case (Cons e es)
  let ?s1 = "snd (put e s)"
  have unseen: "{k. seen ?s1 k} = insert (key e) {k. seen s k}"
    by (auto simp: put_seen_iff)
  have eq: "length (filter is_ok (fst (put_all put (e # es) s))) =
      (if seen s (key e) then 0 else 1) + card (key ` set es - {k. seen ?s1 k})"
    unfolding put_all_Cons by (simp add: Cons put_result)
  show ?case
  proof (cases "seen s (key e)")
    case True
    then have "insert (key e) {k. seen s k} = {k. seen s k}"
      and "key ` set (e # es) - {k. seen s k} = key ` set es - {k. seen s k}"
      by auto
    then show ?thesis using True by (simp only: eq unseen if_True add_0)
  next
    case False
    then have "key ` set (e # es) - {k. seen s k} =
        insert (key e) (key ` set es - insert (key e) {k. seen s k})"
      by auto
    then show ?thesis using False by (simp only: eq unseen) simp
  qed
qed

end

section \<open>Step relations\<close>

text \<open>
  The states a step relation reaches from the states \<open>init\<close>, and the contract of an inductive
  invariant. Each state machine of the development interprets \<open>inductive_inv\<close>.
\<close>

inductive reaches :: "('s \<Rightarrow> bool) \<Rightarrow> ('s \<Rightarrow> 's \<Rightarrow> bool) \<Rightarrow> 's \<Rightarrow> bool"
  for init :: "'s \<Rightarrow> bool" and step :: "'s \<Rightarrow> 's \<Rightarrow> bool" where
  reaches_init: "init s \<Longrightarrow> reaches init step s"
| reaches_step: "reaches init step s \<Longrightarrow> step s t \<Longrightarrow> reaches init step t"

locale inductive_inv =
  fixes init :: "'s \<Rightarrow> bool" and step :: "'s \<Rightarrow> 's \<Rightarrow> bool" and inv :: "'s \<Rightarrow> bool"
  assumes inv_init: "init s \<Longrightarrow> inv s"
    and inv_step: "inv s \<Longrightarrow> step s t \<Longrightarrow> inv t"
begin

lemma reaches_inv: "reaches init step s \<Longrightarrow> inv s"
  by (induction rule: reaches.induct) (auto intro: inv_init inv_step)

end

text \<open>
  The contract of a refinement: the abstraction \<open>abs\<close> takes every step of the detailed machine to a
  step of the specification. What the specification keeps invariant, the detailed machine keeps.
\<close>

locale simulation =
  fixes init :: "'s \<Rightarrow> bool" and step :: "'s \<Rightarrow> 's \<Rightarrow> bool"
    and ainit :: "'a \<Rightarrow> bool" and astep :: "'a \<Rightarrow> 'a \<Rightarrow> bool" and abs :: "'s \<Rightarrow> 'a"
  assumes sim_init: "init s \<Longrightarrow> ainit (abs s)"
    and sim_step: "step s t \<Longrightarrow> astep (abs s) (abs t)"
begin

lemma reaches_abs: "reaches init step s \<Longrightarrow> reaches ainit astep (abs s)"
  by (induction rule: reaches.induct) (auto intro: reaches.intros sim_init sim_step)

end

locale simulated_inv = simulation init step ainit astep abs + spec: inductive_inv ainit astep ainv
  for init :: "'s \<Rightarrow> bool" and step :: "'s \<Rightarrow> 's \<Rightarrow> bool"
    and ainit :: "'a \<Rightarrow> bool" and astep :: "'a \<Rightarrow> 'a \<Rightarrow> bool" and abs :: "'s \<Rightarrow> 'a" and ainv :: "'a \<Rightarrow> bool"

sublocale simulated_inv \<subseteq> impl: inductive_inv init step "\<lambda>s. ainv (abs s)"
  by unfold_locales (auto intro: sim_init sim_step spec.inv_init spec.inv_step)

end
