(* ===== verification/Domain.thy ===== *)
theory Domain
  imports Prelude
begin

text \<open>
  The data model: \<^verbatim>\<open>internal/domain/domain.go\<close> (wallets, addresses, chains) and the row types
  of \<^verbatim>\<open>internal/storage/store.go\<close>. Go's string enumerations stay strings, because callers can
  and do pass values outside the declared constants; the \<open>Valid\<close> predicates are the code's own.

  A \<^verbatim>\<open>uuid.UUID\<close> is represented by its canonical text, what its \<^verbatim>\<open>String\<close> method returns, so
  keys that the code builds by concatenating ids are the same strings here.
\<close>

section \<open>Identifiers\<close>

type_synonym uuid = string

text \<open>What the keys rely on: the text of an id has no separator character in it.\<close>

definition uuid_wf :: "uuid \<Rightarrow> bool" where
  "uuid_wf u = (CHR ''|'' \<notin> set u)"

definition uuid_Nil :: uuid where
  "uuid_Nil = ''00000000-0000-0000-0000-000000000000''"

section \<open>Chains and wallets\<close>

type_synonym chain = string

abbreviation ChainEthereum :: chain where "ChainEthereum \<equiv> ''ethereum''"
abbreviation ChainPolygon :: chain where "ChainPolygon \<equiv> ''polygon''"
abbreviation ChainArbitrum :: chain where "ChainArbitrum \<equiv> ''arbitrum''"
abbreviation ChainBase :: chain where "ChainBase \<equiv> ''base''"
abbreviation ChainOptimism :: chain where "ChainOptimism \<equiv> ''optimism''"
abbreviation ChainSolana :: chain where "ChainSolana \<equiv> ''solana''"
abbreviation ChainBitcoin :: chain where "ChainBitcoin \<equiv> ''bitcoin''"

definition IsEVM :: "chain \<Rightarrow> bool" where
  "IsEVM c = (c = ChainEthereum \<or> c = ChainPolygon \<or> c = ChainArbitrum \<or> c = ChainBase
     \<or> c = ChainOptimism)"

abbreviation WalletTypeHot :: string where "WalletTypeHot \<equiv> ''HOT''"
abbreviation WalletTypeWarm :: string where "WalletTypeWarm \<equiv> ''WARM''"
abbreviation WalletTypeCold :: string where "WalletTypeCold \<equiv> ''COLD''"

abbreviation WalletStateActive :: string where "WalletStateActive \<equiv> ''ACTIVE''"
abbreviation WalletStatePaused :: string where "WalletStatePaused \<equiv> ''PAUSED''"
abbreviation WalletStateRetired :: string where "WalletStateRetired \<equiv> ''RETIRED''"

abbreviation AddressStateActive :: string where "AddressStateActive \<equiv> ''ACTIVE''"
abbreviation AddressStateDeprecated :: string where "AddressStateDeprecated \<equiv> ''DEPRECATED''"

definition ValidChain :: "chain \<Rightarrow> bool" where
  "ValidChain c = (c = ChainEthereum \<or> c = ChainPolygon \<or> c = ChainArbitrum \<or> c = ChainBase
     \<or> c = ChainOptimism \<or> c = ChainSolana \<or> c = ChainBitcoin)"

definition ValidWalletType :: "string \<Rightarrow> bool" where
  "ValidWalletType t = (t = WalletTypeHot \<or> t = WalletTypeWarm \<or> t = WalletTypeCold)"

definition ValidWalletState :: "string \<Rightarrow> bool" where
  "ValidWalletState s = (s = WalletStateActive \<or> s = WalletStatePaused \<or> s = WalletStateRetired)"

record Wallet =
  wID :: uuid
  wChain :: chain
  wType :: string
  wLabel :: string
  wState :: string
  wKeyID :: string
  wCustodianRef :: string
  wRotationDays :: "int option"
  wRotationAfterReceives :: "int option"
  wCreatedAt :: time
  wUpdatedAt :: time

record Address =
  aID :: uuid
  aWalletID :: uuid
  aChain :: chain
  aAddress :: string
  aDerivationPath :: string
  aIndex :: int
  aChange :: int
  aState :: string
  aReceiveCount :: int
  aCreatedAt :: time

record CreateRequest =
  crChain :: chain
  crType :: string
  crLabel :: string
  crKeyID :: string

section \<open>Rows of the store\<close>

abbreviation WithdrawalStatePending :: string where "WithdrawalStatePending \<equiv> ''PENDING''"
abbreviation WithdrawalStateWhitelisted :: string where
  "WithdrawalStateWhitelisted \<equiv> ''WHITELISTED''"
abbreviation WithdrawalStateSigned :: string where "WithdrawalStateSigned \<equiv> ''SIGNED''"
abbreviation WithdrawalStateBroadcast :: string where "WithdrawalStateBroadcast \<equiv> ''BROADCAST''"
abbreviation WithdrawalStateConfirmed :: string where "WithdrawalStateConfirmed \<equiv> ''CONFIRMED''"
abbreviation WithdrawalStateFailed :: string where "WithdrawalStateFailed \<equiv> ''FAILED''"

abbreviation FundingStateRequested :: string where "FundingStateRequested \<equiv> ''REQUESTED''"
abbreviation FundingStateApproved :: string where "FundingStateApproved \<equiv> ''APPROVED''"
abbreviation FundingStateSettled :: string where "FundingStateSettled \<equiv> ''SETTLED''"
abbreviation FundingStateRejected :: string where "FundingStateRejected \<equiv> ''REJECTED''"

abbreviation RotationStateCurrent :: string where "RotationStateCurrent \<equiv> ''CURRENT''"
abbreviation RotationStateCooling :: string where "RotationStateCooling \<equiv> ''COOLING''"
abbreviation RotationStateRetired :: string where "RotationStateRetired \<equiv> ''RETIRED''"

abbreviation UTXOLockStateFree :: string where "UTXOLockStateFree \<equiv> ''FREE''"
abbreviation UTXOLockStateLocked :: string where "UTXOLockStateLocked \<equiv> ''LOCKED''"
abbreviation UTXOLockStateSpent :: string where "UTXOLockStateSpent \<equiv> ''SPENT''"

record Balance =
  bWalletID :: uuid
  bAsset :: string
  bConfirmed :: string
  bPending :: string
  bLocked :: string
  bLastBlockSeen :: int
  bUpdatedAt :: time

record UTXO =
  uOutpoint :: string
  uWalletID :: uuid
  uValue :: string
  uScriptType :: string
  uConfirmations :: int
  uLockState :: string
  uLockedAt :: "time option"
  uSpentAt :: "time option"
  uTxHash :: string
  uUpdatedAt :: time

record Nonce =
  nWalletID :: uuid
  nChain :: string
  nPendingNonce :: int
  nBroadcastNonce :: int
  nVersion :: int
  nUpdatedAt :: time

type_synonym byte = "8 word"

record WithdrawalRequest =
  wrID :: uuid
  wrWalletID :: uuid
  wrToAddress :: string
  wrAsset :: string
  wrAmount :: string
  wrState :: string
  wrPolicyDecisionID :: string
  wrFailureReason :: string
  wrTxHash :: string
  wrNonceValue :: "int option"
  wrReservedOutpoints :: "string list"
  wrSignedTxBytes :: "byte list"
  wrCreatedAt :: time
  wrUpdatedAt :: time

record KeyMapping =
  kWalletID :: uuid
  kKeyID :: string
  kActiveFrom :: time
  kActiveTo :: "time option"
  kRotationState :: string
  kCreatedAt :: time

record FundingRequest =
  fID :: uuid
  fWalletID :: uuid
  fAsset :: string
  fAmount :: string
  fState :: string
  fTreasuryBatchID :: string
  fReason :: string
  fCreatedAt :: time
  fUpdatedAt :: time

text \<open>
  The payload of an audit event is a \<^verbatim>\<open>map[string]any\<close>; its values are strings, integers, lists
  of strings and booleans.
\<close>

datatype pval = PStr string | PInt int | PStrs "string list" | PBool bool

type_synonym payload = "(string \<times> pval) list"

record AuditOutboxEvent =
  eID :: uuid
  eEventID :: uuid
  eWalletID :: "uuid option"
  eEventType :: string
  ePayload :: payload
  eSeq :: int
  eDelivered :: bool
  eAttempts :: int
  eCreatedAt :: time
  eDeliveredAt :: "time option"

record BalanceEvent =
  beID :: uuid
  beWalletID :: uuid
  beAsset :: string
  beBlockHeight :: int
  beEventID :: string

section \<open>Facts about the enumerations\<close>

lemma IsEVM_ValidChain: "IsEVM c \<Longrightarrow> ValidChain c"
  by (auto simp: IsEVM_def ValidChain_def)

lemma ValidChain_cases:
  "ValidChain c \<Longrightarrow> IsEVM c \<or> c = ChainSolana \<or> c = ChainBitcoin"
  by (auto simp: IsEVM_def ValidChain_def)

lemma not_IsEVM [simp]: "\<not> IsEVM ChainSolana" "\<not> IsEVM ChainBitcoin"
  by (simp_all add: IsEVM_def)

lemma IsEVM_not: "IsEVM c \<Longrightarrow> c \<noteq> ChainSolana \<and> c \<noteq> ChainBitcoin"
  by (auto simp: IsEVM_def)

end
