(* ===== verification/GoLib.thy ===== *)
theory GoLib
  imports Prelude
begin

text \<open>
  What the program uses of Go's standard library on strings and numbers: decimal printing and the
  parsers of \<^verbatim>\<open>strconv\<close> and \<^verbatim>\<open>math/big\<close>, and the \<^verbatim>\<open>strings\<close> helpers. A Go string is its
  sequence of bytes, here a \<open>char list\<close>.
\<close>

section \<open>Decimal numerals\<close>

definition digit_char :: "nat \<Rightarrow> char" where
  "digit_char d = char_of (48 + d)"

definition char_digit :: "char \<Rightarrow> nat option" where
  "char_digit c = (let n = of_char c in if 48 \<le> n \<and> n \<le> (57::nat) then Some (n - 48) else None)"

fun show_nat :: "nat \<Rightarrow> string" where
  "show_nat n = (if n < 10 then [digit_char n] else show_nat (n div 10) @ [digit_char (n mod 10)])"

declare show_nat.simps [simp del]

definition show_int :: "int \<Rightarrow> string" where
  "show_int i = (if i < 0 then CHR ''-'' # show_nat (nat (- i)) else show_nat (nat i))"

fun digits_val :: "nat \<Rightarrow> string \<Rightarrow> nat option" where
  "digits_val acc [] = Some acc"
| "digits_val acc (c # cs) =
     (case char_digit c of None \<Rightarrow> None | Some d \<Rightarrow> digits_val (10 * acc + d) cs)"

definition parse_nat :: "string \<Rightarrow> nat option" where
  "parse_nat s = (if s = [] then None else digits_val 0 s)"

text \<open>\<^verbatim>\<open>strconv.ParseUint(s, 10, bits)\<close>: digits only, no sign, in range.\<close>

definition ParseUint :: "string \<Rightarrow> nat \<Rightarrow> nat res" where
  "ParseUint s bits = (case parse_nat s of
     None \<Rightarrow> Inl (ErrText ''invalid syntax'')
   | Some n \<Rightarrow> if n < 2 ^ bits then Inr n else Inl (ErrText ''value out of range''))"

text \<open>An optional sign and digits: the syntax of \<^verbatim>\<open>strconv.Atoi\<close> and of
  \<^verbatim>\<open>big.Int.SetString(s, 10)\<close>.\<close>

fun parse_int :: "string \<Rightarrow> int option" where
  "parse_int [] = None"
| "parse_int (c # cs) =
     (if c = CHR ''-'' then map_option (\<lambda>n. - int n) (parse_nat cs)
      else if c = CHR ''+'' then map_option int (parse_nat cs)
      else map_option int (parse_nat (c # cs)))"

definition Atoi :: "string \<Rightarrow> int res" where
  "Atoi s = (case parse_int s of
     None \<Rightarrow> Inl (ErrText ''invalid syntax'')
   | Some i \<Rightarrow> if int64_range i then Inr i else Inl (ErrText ''value out of range''))"

definition big_SetString :: "string \<Rightarrow> int option" where
  "big_SetString s = parse_int s"

section \<open>strings\<close>

definition HasPrefix :: "string \<Rightarrow> string \<Rightarrow> bool" where
  "HasPrefix s p = (take (length p) s = p)"

definition TrimPrefix :: "string \<Rightarrow> string \<Rightarrow> string" where
  "TrimPrefix s p = (if HasPrefix s p then drop (length p) s else s)"

text \<open>The UTF-8 encodings of the characters \<^verbatim>\<open>unicode.IsSpace\<close> accepts.\<close>

definition space_seqs :: "string list" where
  "space_seqs = map (map char_of) ([[9], [10], [11], [12], [13], [32], [194, 133], [194, 160],
     [225, 154, 128], [226, 128, 168], [226, 128, 169], [226, 128, 175], [226, 129, 159],
     [227, 128, 128]] @ map (\<lambda>k. [226, 128, k]) [128 ..< 139] :: nat list list)"

definition space_at :: "string list \<Rightarrow> string \<Rightarrow> nat" where
  "space_at seqs s = (case find (HasPrefix s) seqs of None \<Rightarrow> 0 | Some p \<Rightarrow> length p)"

fun trim_left :: "string list \<Rightarrow> string \<Rightarrow> string" where
  "trim_left seqs s = (let n = space_at seqs s in
     if n = 0 \<or> s = [] then s else trim_left seqs (drop n s))"

declare trim_left.simps [simp del]

definition TrimSpace :: "string \<Rightarrow> string" where
  "TrimSpace s = rev (trim_left (map rev space_seqs) (rev (trim_left space_seqs s)))"

text \<open>\<^verbatim>\<open>strings.Split(s, sep)\<close> and \<^verbatim>\<open>strings.SplitN(s, sep, 2)\<close> for a one-character separator.\<close>

fun Split :: "char \<Rightarrow> string \<Rightarrow> string list" where
  "Split sep [] = [[]]"
| "Split sep (c # cs) =
     (if c = sep then [] # Split sep cs
      else (case Split sep cs of [] \<Rightarrow> [[c]] | p # ps \<Rightarrow> (c # p) # ps))"

fun SplitN2 :: "char \<Rightarrow> string \<Rightarrow> string list" where
  "SplitN2 sep [] = [[]]"
| "SplitN2 sep (c # cs) =
     (if c = sep then [[], cs]
      else (case SplitN2 sep cs of [] \<Rightarrow> [[c]] | p # ps \<Rightarrow> (c # p) # ps))"

text \<open>The order of strings, bytewise.\<close>

fun string_less :: "string \<Rightarrow> string \<Rightarrow> bool" where
  "string_less xs [] = False"
| "string_less [] (y # ys) = True"
| "string_less (x # xs) (y # ys) = ((of_char x :: nat) < of_char y \<or> x = y \<and> string_less xs ys)"

section \<open>time.Duration\<close>

text \<open>\<^verbatim>\<open>Duration.String\<close>: hours, minutes and seconds with a fraction, or a smaller unit below a second.\<close>

definition fmtFrac :: "nat \<Rightarrow> nat \<Rightarrow> string" where
  "fmtFrac v prec =
     (let f = v mod 10 ^ prec;
          ds = show_nat f;
          padded = replicate (prec - length ds) CHR ''0'' @ ds
      in show_nat (v div 10 ^ prec) @
         (if f = 0 then [] else CHR ''.'' # rev (dropWhile (\<lambda>c. c = CHR ''0'') (rev padded))))"

definition Duration_String :: "int \<Rightarrow> string" where
  "Duration_String d =
     (let u = nat \<bar>d\<bar>;
          body =
            (if u = 0 then ''0s''
             else if u < 1000 then show_nat u @ ''ns''
             else if u < 1000000 then fmtFrac u 3 @ [char_of (194::nat), char_of (181::nat), CHR ''s'']
             else if u < 1000000000 then fmtFrac u 6 @ ''ms''
             else (let mins = u div 60000000000;
                       secs = fmtFrac (u mod 60000000000) 9 @ ''s''
                   in if mins = 0 then secs
                      else if mins < 60 then show_nat mins @ ''m'' @ secs
                      else show_nat (mins div 60) @ ''h'' @ show_nat (mins mod 60) @ ''m'' @ secs))
      in if d < 0 then CHR ''-'' # body else body)"

section \<open>Lemmas\<close>

lemma char_digit_digit_char [simp]: "d < 10 \<Longrightarrow> char_digit (digit_char d) = Some d"
  by (simp add: char_digit_def digit_char_def Let_def)

lemma digits_val_append:
  "digits_val acc (xs @ ys) = (case digits_val acc xs of None \<Rightarrow> None | Some a \<Rightarrow> digits_val a ys)"
  by (induction xs arbitrary: acc) (auto split: option.splits)

lemma show_nat_nonempty [simp]: "show_nat n \<noteq> []"
  by (subst show_nat.simps) simp

lemma digits_val_show_nat [simp]: "digits_val 0 (show_nat n) = Some n"
proof (induction n rule: show_nat.induct)
  case (1 n)
  show ?case
  proof (cases "n < 10")
    case True
    then show ?thesis by (simp add: show_nat.simps)
  next
    case False
    with 1 show ?thesis
      by (simp add: show_nat.simps [of n] digits_val_append)
  qed
qed

lemma parse_nat_show_nat [simp]: "parse_nat (show_nat n) = Some n"
  by (simp add: parse_nat_def)

lemma show_nat_inject [simp]: "show_nat m = show_nat n \<longleftrightarrow> m = n"
  by (metis digits_val_show_nat option.inject)

lemma parse_int_digits: "s \<noteq> [] \<Longrightarrow> digits_val 0 s = Some n \<Longrightarrow> parse_int s = Some (int n)"
  by (cases s) (auto simp: parse_nat_def char_digit_def)

lemma parse_int_show_int [simp]: "parse_int (show_int i) = Some i"
proof (cases "i < 0")
  case True
  then show ?thesis by (simp add: show_int_def)
next
  case False
  then show ?thesis
    using parse_int_digits [of "show_nat (nat i)" "nat i"] by (simp add: show_int_def)
qed

lemma show_int_inject [simp]: "show_int i = show_int j \<longleftrightarrow> i = j"
  by (metis option.inject parse_int_show_int)

lemma set_show_nat: "set (show_nat n) \<subseteq> digit_char ` {..<10}"
proof (induction n rule: show_nat.induct)
  case (1 n)
  show ?case
    using 1 by (subst show_nat.simps) auto
qed

lemma digit_char_ne: "d < 10 \<Longrightarrow> of_char (digit_char d) = 48 + d"
  by (simp add: digit_char_def)

lemma Split_no_sep: "sep \<notin> set s \<Longrightarrow> Split sep s = [s]"
  by (induction s) auto

lemma Split_append: "sep \<notin> set s \<Longrightarrow> Split sep (s @ sep # t) = s # Split sep t"
  by (induction s) auto

lemma SplitN2_append: "sep \<notin> set s \<Longrightarrow> SplitN2 sep (s @ sep # t) = [s, t]"
  by (induction s) auto

interpretation string_ord: less_order string_less
proof unfold_locales
  show "string_less x y \<Longrightarrow> \<not> string_less y x" for x y
    by (induction x y rule: string_less.induct) auto
  show "string_less x z \<Longrightarrow> string_less x y \<or> string_less y z" for x y z
  proof (induction x z arbitrary: y rule: string_less.induct)
    case (2 b bs)
    then show ?case by (cases y) auto
  next
    case (3 a as b bs)
    then show ?case by (cases y) (auto simp: linorder_neq_iff)
  qed simp
qed

text \<open>A separator that does not occur in the first parts makes a composite key injective.\<close>

lemma sep_inject:
  fixes c :: char
  assumes "c \<notin> set u" and "c \<notin> set v"
  shows "u @ c # x = v @ c # y \<longleftrightarrow> u = v \<and> x = y"
proof
  assume "u @ c # x = v @ c # y"
  then have "SplitN2 c (u @ c # x) = SplitN2 c (v @ c # y)" by simp
  then show "u = v \<and> x = y" by (simp add: SplitN2_append assms)
qed simp

lemma show_nat_char: "c \<in> set (show_nat n) \<Longrightarrow> 48 \<le> (of_char c :: nat) \<and> (of_char c :: nat) \<le> 57"
  using set_show_nat [of n] by (auto simp: digit_char_ne)

lemma show_int_char: "c \<in> set (show_int i) \<Longrightarrow> c = CHR ''-'' \<or> 48 \<le> (of_char c :: nat) \<and> (of_char c :: nat) \<le> 57"
  using show_nat_char by (auto simp: show_int_def split: if_splits)

lemma show_int_no_bar [simp]: "CHR ''|'' \<notin> set (show_int i)" "CHR ''/'' \<notin> set (show_int i)"
  using show_int_char [of "CHR ''|''" i] show_int_char [of "CHR ''/''" i] by auto

text \<open>A string that starts and ends with a printable ASCII character has nothing to trim.\<close>

definition graphic :: "char \<Rightarrow> bool" where
  "graphic c = (33 \<le> (of_char c :: nat) \<and> (of_char c :: nat) \<le> 126)"

lemma space_at_0:
  assumes "s \<noteq> []" and "\<forall>p \<in> set seqs. p \<noteq> [] \<and> hd p \<noteq> hd s"
  shows "space_at seqs s = 0"
proof -
  have "\<not> HasPrefix s p" if "p \<in> set seqs" for p
  proof -
    have ne: "p \<noteq> []" "hd p \<noteq> hd s" using assms(2) that by blast+
    obtain c cs where p: "p = c # cs" using ne(1) by (cases p) auto
    obtain d ds where s: "s = d # ds" using assms(1) by (cases s) auto
    have "c \<noteq> d" using ne(2) p s by simp
    then show ?thesis by (simp add: HasPrefix_def p s)
  qed
  then have "find (HasPrefix s) seqs = None" by (auto simp: find_None_iff)
  then show ?thesis by (simp add: space_at_def)
qed

lemma space_seqs_not_graphic: "\<forall>p \<in> set space_seqs. p \<noteq> [] \<and> \<not> graphic (hd p) \<and> \<not> graphic (last p)"
  by (simp add: space_seqs_def graphic_def upt_rec)

lemma TrimSpace_graphic:
  assumes "s \<noteq> []" "graphic (hd s)" "graphic (last s)"
  shows "TrimSpace s = s"
proof -
  have 1: "space_at space_seqs s = 0"
    using assms space_seqs_not_graphic by (intro space_at_0) auto
  have 2: "space_at (map rev space_seqs) (rev s) = 0"
    using assms space_seqs_not_graphic by (intro space_at_0) (auto simp: hd_rev)
  show ?thesis
    using trim_left.simps [of space_seqs s] trim_left.simps [of "map rev space_seqs" "rev s"] 1 2
    by (simp add: TrimSpace_def)
qed

end
