(* ===== verification/Decimal.thy ===== *)
theory Decimal
  imports Complex_Main Domain GoLib
begin

text \<open>
  Money amounts. The program computes with \<^verbatim>\<open>shopspring/decimal\<close>, exact arbitrary-precision
  decimals: a value is a \<open>rat\<close>, and the library's parser and printer are the fields of a record
  \<open>declib\<close> that the operations take as an argument. \<open>dec_repr\<close> are the values the library can
  represent, and \<open>declib_ok\<close> states what the library documents of them.
\<close>

record declib =
  NewFromString :: "string \<Rightarrow> rat option"
  dec_String :: "rat \<Rightarrow> string"
  dec_repr :: "rat \<Rightarrow> bool"

definition declib_ok :: "declib \<Rightarrow> bool" where
  "declib_ok D =
     (dec_repr D 0 \<and> (\<forall>x y. dec_repr D x \<longrightarrow> dec_repr D y \<longrightarrow> dec_repr D (x + y) \<and> dec_repr D (x - y))
      \<and> (\<forall>s x. NewFromString D s = Some x \<longrightarrow> dec_repr D x)
      \<and> (\<forall>x. dec_repr D x \<longrightarrow> NewFromString D (dec_String D x) = Some x \<and> dec_String D x \<noteq> []))"

definition parseDec :: "declib \<Rightarrow> string \<Rightarrow> rat" where
  "parseDec D s = (if s = [] then 0
     else (case NewFromString D s of None \<Rightarrow> 0 | Some d \<Rightarrow> d))"

definition formatDec :: "declib \<Rightarrow> rat \<Rightarrow> string" where
  "formatDec D n = dec_String D n"

lemma parseDec_Nil [simp]: "parseDec D [] = 0"
  by (simp add: parseDec_def)

lemma parseDec_repr: "declib_ok D \<Longrightarrow> dec_repr D (parseDec D s)"
  by (auto simp: declib_ok_def parseDec_def split: option.splits)

lemma repr_add: "declib_ok D \<Longrightarrow> dec_repr D x \<Longrightarrow> dec_repr D y \<Longrightarrow> dec_repr D (x + y)"
  by (simp add: declib_ok_def)

lemma repr_diff: "declib_ok D \<Longrightarrow> dec_repr D x \<Longrightarrow> dec_repr D y \<Longrightarrow> dec_repr D (x - y)"
  by (simp add: declib_ok_def)

lemma repr_zero: "declib_ok D \<Longrightarrow> dec_repr D 0"
  by (simp add: declib_ok_def)

lemmas repr_intros = parseDec_repr repr_add repr_diff repr_zero

lemma parse_format: "declib_ok D \<Longrightarrow> dec_repr D x \<Longrightarrow> parseDec D (formatDec D x) = x"
  by (simp add: declib_ok_def parseDec_def formatDec_def)

section \<open>A concrete parser and printer\<close>

text \<open>Integers in decimal notation, other values as a fraction.\<close>

definition frac_String :: "rat \<Rightarrow> string" where
  "frac_String r = (case quotient_of r of (n, d) \<Rightarrow>
     if d = 1 then show_int n else show_int n @ CHR ''/'' # show_int d)"

definition frac_parse :: "string \<Rightarrow> rat option" where
  "frac_parse s = (case Split CHR ''/'' s of
     [a] \<Rightarrow> map_option of_int (parse_int a)
   | [a, b] \<Rightarrow> (case (parse_int a, parse_int b) of (Some n, Some d) \<Rightarrow> Some (of_int n / of_int d) | _ \<Rightarrow> None)
   | _ \<Rightarrow> None)"

definition frac_lib :: declib where
  "frac_lib = \<lparr>NewFromString = frac_parse, dec_String = frac_String, dec_repr = (\<lambda>_. True)\<rparr>"

lemma frac_lib_simps [simp]:
  "NewFromString frac_lib = frac_parse" "dec_String frac_lib = frac_String" "dec_repr frac_lib x"
  by (simp_all add: frac_lib_def)

lemma show_int_nonempty [simp]: "show_int i \<noteq> []"
  by (simp add: show_int_def)

lemma frac_lib_ok: "declib_ok frac_lib"
proof -
  have "frac_parse (frac_String x) = Some x \<and> frac_String x \<noteq> []" for x
  proof -
    obtain n d where q: "quotient_of x = (n, d)" by fastforce
    then have x: "x = of_int n / of_int d" by (rule quotient_of_div)
    show ?thesis
      using q x by (simp add: frac_String_def frac_parse_def Split_no_sep Split_append)
  qed
  then show ?thesis by (simp add: declib_ok_def)
qed

end
