(* ===== verification/Memstore.thy ===== *)
theory Memstore
  imports Domain GoLib
begin

text \<open>
  The in-memory store, \<^verbatim>\<open>internal/storage/memstore/memstore.go\<close>: its state as the record
  \<open>store\<close> and one definition per method of the \<^verbatim>\<open>storage.Store\<close> interface, in the order of the
  source. A method that only reads returns its result; a method that writes returns the result and
  the new store. The instant \<^verbatim>\<open>time.Now()\<close> returns is the argument \<open>now\<close>.

  The mutex that serialises the methods is not part of this state: a method is one step.
\<close>

section \<open>State\<close>

record store =
  wallets :: "(uuid, Wallet) gomap"
  addresses :: "(uuid, Address) gomap"
  balances :: "(string, Balance) gomap"
  balanceEvents :: "(string, bool) gomap"
  utxos :: "(string, UTXO) gomap"
  nonces :: "(string, Nonce) gomap"
  withdrawals :: "(uuid, WithdrawalRequest) gomap"
  keyMappings :: "(uuid, KeyMapping list) gomap"
  fundingReq :: "(uuid, FundingRequest) gomap"
  auditOutbox :: "AuditOutboxEvent list"
  auditSeqCounters :: "(uuid, int) gomap"
  inflightWithdrawals :: "(string, bool) gomap"

definition New :: store where
  "New = \<lparr>wallets = [], addresses = [], balances = [], balanceEvents = [], utxos = [],
     nonces = [], withdrawals = [], keyMappings = [], fundingReq = [], auditOutbox = [],
     auditSeqCounters = [], inflightWithdrawals = []\<rparr>"

text \<open>A lookup in a \<^verbatim>\<open>map[string]bool\<close>, a \<^verbatim>\<open>map[K]int64\<close> and a \<^verbatim>\<open>map[K][]T\<close>: the zero value for a
  missing key.\<close>

definition get_bool :: "(string, bool) gomap \<Rightarrow> string \<Rightarrow> bool" where
  "get_bool m k = (case map_of m k of None \<Rightarrow> False | Some b \<Rightarrow> b)"

definition get_int :: "('k, int) gomap \<Rightarrow> 'k \<Rightarrow> int" where
  "get_int m k = (case map_of m k of None \<Rightarrow> 0 | Some i \<Rightarrow> i)"

definition get_list :: "('k, 'v list) gomap \<Rightarrow> 'k \<Rightarrow> 'v list" where
  "get_list m k = (case map_of m k of None \<Rightarrow> [] | Some l \<Rightarrow> l)"

section \<open>Keys\<close>

definition balanceKey :: "uuid \<Rightarrow> string \<Rightarrow> string" where
  "balanceKey w asset = w @ ''|'' @ asset"

definition nonceKey :: "uuid \<Rightarrow> string \<Rightarrow> string" where
  "nonceKey w ch = w @ ''|'' @ ch"

definition balanceEventKey :: "BalanceEvent \<Rightarrow> string" where
  "balanceEventKey e = beWalletID e @ ''|'' @ beAsset e @ ''|'' @ show_int (beBlockHeight e)
     @ ''|'' @ beEventID e"

definition withdrawalDedupKey :: "uuid \<Rightarrow> string \<Rightarrow> string \<Rightarrow> string \<Rightarrow> string" where
  "withdrawalDedupKey w to amount asset = w @ ''|'' @ to @ ''|'' @ amount @ ''|'' @ asset"

section \<open>Wallets\<close>

definition CreateWallet :: "time \<Rightarrow> Wallet \<Rightarrow> store \<Rightarrow> unit res \<times> store" where
  "CreateWallet now w s =
     (case map_of (wallets s) (wID w) of
        Some _ \<Rightarrow> (Inl (ErrText ''wallet already exists''), s)
      | None \<Rightarrow>
          let cp = (if IsZero (wCreatedAt w) then w\<lparr>wCreatedAt := now\<rparr> else w);
              cp = cp\<lparr>wUpdatedAt := wCreatedAt cp\<rparr>
          in (Inr (), s\<lparr>wallets := AList.update (wID w) cp (wallets s)\<rparr>))"

definition GetWallet :: "uuid \<Rightarrow> store \<Rightarrow> Wallet res" where
  "GetWallet i s =
     (case map_of (wallets s) i of
        None \<Rightarrow> Inl (ErrWrap ''wallet not found'' ErrNoRows)
      | Some w \<Rightarrow> Inr w)"

definition UpdateWalletState :: "time \<Rightarrow> uuid \<Rightarrow> string \<Rightarrow> store \<Rightarrow> unit res \<times> store" where
  "UpdateWalletState now i st s =
     (case map_of (wallets s) i of
        None \<Rightarrow> (Inl (ErrWrap ''wallet not found'' ErrNoRows), s)
      | Some _ \<Rightarrow>
          (Inr (), s\<lparr>wallets :=
             AList.map_entry i (\<lambda>w. w\<lparr>wState := st, wUpdatedAt := now\<rparr>) (wallets s)\<rparr>))"

definition wallet_lt :: "Wallet \<Rightarrow> Wallet \<Rightarrow> bool" where
  "wallet_lt a b = (wID a < wID b)"

definition ListWallets :: "string \<Rightarrow> string \<Rightarrow> string \<Rightarrow> store \<Rightarrow> Wallet list" where
  "ListWallets chainF typeF stateF s =
     sort_Slice wallet_lt
       (filter (\<lambda>w. \<not> (chainF \<noteq> [] \<and> wChain w \<noteq> chainF) \<and> \<not> (typeF \<noteq> [] \<and> wType w \<noteq> typeF)
          \<and> \<not> (stateF \<noteq> [] \<and> wState w \<noteq> stateF)) (vals (wallets s)))"

section \<open>Addresses\<close>

definition InsertAddress :: "time \<Rightarrow> Address \<Rightarrow> store \<Rightarrow> unit res \<times> store" where
  "InsertAddress now a s =
     (case map_of (addresses s) (aID a) of
        Some _ \<Rightarrow> (Inl (ErrText ''address exists''), s)
      | None \<Rightarrow>
          if aState a = AddressStateActive
             \<and> (\<exists>ex \<in> set (vals (addresses s)).
                  aWalletID ex = aWalletID a \<and> aState ex = AddressStateActive)
          then (Inl (ErrText ''active address already exists for wallet''), s)
          else (let cp = (if IsZero (aCreatedAt a) then a\<lparr>aCreatedAt := now\<rparr> else a)
                in (Inr (), s\<lparr>addresses := AList.update (aID a) cp (addresses s)\<rparr>)))"

definition GetActiveAddress :: "uuid \<Rightarrow> store \<Rightarrow> Address res" where
  "GetActiveAddress wid s =
     (case find (\<lambda>a. aWalletID a = wid \<and> aState a = AddressStateActive) (vals (addresses s)) of
        None \<Rightarrow> Inl (ErrWrap ''no active address'' ErrNoRows)
      | Some a \<Rightarrow> Inr a)"

definition address_lt :: "Address \<Rightarrow> Address \<Rightarrow> bool" where
  "address_lt a b =
     (if aChange a \<noteq> aChange b then aChange a < aChange b else aIndex a < aIndex b)"

definition ListAddresses :: "uuid \<Rightarrow> store \<Rightarrow> Address list" where
  "ListAddresses wid s =
     sort_Slice address_lt (filter (\<lambda>a. aWalletID a = wid) (vals (addresses s)))"

definition DeprecateAddress :: "uuid \<Rightarrow> store \<Rightarrow> unit res \<times> store" where
  "DeprecateAddress i s =
     (case map_of (addresses s) i of
        None \<Rightarrow> (Inl (ErrWrap ''address not found'' ErrNoRows), s)
      | Some _ \<Rightarrow>
          (Inr (), s\<lparr>addresses :=
             AList.map_entry i (\<lambda>a. a\<lparr>aState := AddressStateDeprecated\<rparr>) (addresses s)\<rparr>))"

definition GetAddress :: "uuid \<Rightarrow> store \<Rightarrow> Address res" where
  "GetAddress i s =
     (case map_of (addresses s) i of
        None \<Rightarrow> Inl (ErrWrap ''address not found'' ErrNoRows)
      | Some a \<Rightarrow> Inr a)"

fun max_index :: "string \<Rightarrow> int \<Rightarrow> int \<Rightarrow> Address list \<Rightarrow> int" where
  "max_index ch change maxIdx [] = maxIdx"
| "max_index ch change maxIdx (a # as) =
     max_index ch change
       (if aChain a = ch \<and> aChange a = change \<and> maxIdx < aIndex a then aIndex a else maxIdx) as"

definition NextAddressIndex :: "string \<Rightarrow> int \<Rightarrow> store \<Rightarrow> int" where
  "NextAddressIndex ch change s = wrap64 (max_index ch change (- 1) (vals (addresses s)) + 1)"

definition IncrementReceiveCount :: "uuid \<Rightarrow> store \<Rightarrow> unit res \<times> store" where
  "IncrementReceiveCount i s =
     (case map_of (addresses s) i of
        None \<Rightarrow> (Inl (ErrWrap ''address not found'' ErrNoRows), s)
      | Some _ \<Rightarrow>
          (Inr (), s\<lparr>addresses :=
             AList.map_entry i (\<lambda>a. a\<lparr>aReceiveCount := wrap64 (aReceiveCount a + 1)\<rparr>)
               (addresses s)\<rparr>))"

section \<open>Balances\<close>

definition UpsertBalance :: "time \<Rightarrow> Balance \<Rightarrow> store \<Rightarrow> unit res \<times> store" where
  "UpsertBalance now b s =
     (Inr (), s\<lparr>balances :=
        AList.update (balanceKey (bWalletID b) (bAsset b)) (b\<lparr>bUpdatedAt := now\<rparr>) (balances s)\<rparr>)"

definition GetBalance :: "uuid \<Rightarrow> string \<Rightarrow> store \<Rightarrow> Balance res" where
  "GetBalance wid asset s =
     (case map_of (balances s) (balanceKey wid asset) of
        None \<Rightarrow> Inl (ErrWrap ''balance not found'' ErrNoRows)
      | Some b \<Rightarrow> Inr b)"

definition balance_lt :: "Balance \<Rightarrow> Balance \<Rightarrow> bool" where
  "balance_lt a b = (bAsset a < bAsset b)"

definition ListBalances :: "uuid \<Rightarrow> store \<Rightarrow> Balance list" where
  "ListBalances wid s =
     sort_Slice balance_lt
       (map snd (filter (\<lambda>(k, b). HasPrefix k (wid @ ''|'')) (balances s)))"

definition RecordBalanceEvent :: "BalanceEvent \<Rightarrow> store \<Rightarrow> unit res \<times> store" where
  "RecordBalanceEvent e s =
     (let key = balanceEventKey e
      in if get_bool (balanceEvents s) key then (Inl ErrDuplicateEvent, s)
         else (Inr (), s\<lparr>balanceEvents := AList.update key True (balanceEvents s)\<rparr>))"

section \<open>UTXOs\<close>

definition InsertUTXO :: "time \<Rightarrow> UTXO \<Rightarrow> store \<Rightarrow> unit res \<times> store" where
  "InsertUTXO now u s =
     (case map_of (utxos s) (uOutpoint u) of
        Some _ \<Rightarrow> (Inl (ErrText ''utxo exists''), s)
      | None \<Rightarrow>
          (Inr (), s\<lparr>utxos := AList.update (uOutpoint u) (u\<lparr>uUpdatedAt := now\<rparr>) (utxos s)\<rparr>))"

definition utxo_lt :: "UTXO \<Rightarrow> UTXO \<Rightarrow> bool" where
  "utxo_lt a b = (uOutpoint a < uOutpoint b)"

definition ListFreeUTXOs :: "uuid \<Rightarrow> store \<Rightarrow> UTXO list" where
  "ListFreeUTXOs wid s =
     sort_Slice utxo_lt
       (filter (\<lambda>u. uWalletID u = wid \<and> uLockState u = UTXOLockStateFree) (vals (utxos s)))"

fun check_free :: "string list \<Rightarrow> (string, UTXO) gomap \<Rightarrow> unit res" where
  "check_free [] m = Inr ()"
| "check_free (op # ops) m =
     (case map_of m op of
        None \<Rightarrow> Inl (ErrText ''utxo not found'')
      | Some u \<Rightarrow>
          if uLockState u \<noteq> UTXOLockStateFree then Inl (ErrText ''utxo not free'')
          else check_free ops m)"

definition lock_utxo :: "time \<Rightarrow> UTXO \<Rightarrow> UTXO" where
  "lock_utxo now u = u\<lparr>uLockState := UTXOLockStateLocked, uLockedAt := Some now, uUpdatedAt := now\<rparr>"

definition LockUTXOs :: "time \<Rightarrow> string list \<Rightarrow> store \<Rightarrow> unit res \<times> store" where
  "LockUTXOs now ops s =
     (case check_free ops (utxos s) of
        Inl e \<Rightarrow> (Inl e, s)
      | Inr _ \<Rightarrow> (Inr (), s\<lparr>utxos := entries_upd ops (lock_utxo now) (utxos s)\<rparr>))"

text \<open>\<^verbatim>\<open>MarkUTXOsSpent\<close> and \<^verbatim>\<open>RestoreUTXOs\<close> stop at the first missing outpoint and keep what they
  wrote before it.\<close>

fun upd_until_missing ::
    "('v \<Rightarrow> 'v) \<Rightarrow> string list \<Rightarrow> (string, 'v) gomap \<Rightarrow> unit res \<times> (string, 'v) gomap" where
  "upd_until_missing f [] m = (Inr (), m)"
| "upd_until_missing f (op # ops) m =
     (case map_of m op of
        None \<Rightarrow> (Inl (ErrText ''utxo not found''), m)
      | Some _ \<Rightarrow> upd_until_missing f ops (AList.map_entry op f m))"

definition spend_utxo :: "time \<Rightarrow> string \<Rightarrow> UTXO \<Rightarrow> UTXO" where
  "spend_utxo now txHash u = u\<lparr>uLockState := UTXOLockStateSpent, uSpentAt := Some now,
     uTxHash := txHash, uUpdatedAt := now\<rparr>"

definition MarkUTXOsSpent :: "time \<Rightarrow> string list \<Rightarrow> string \<Rightarrow> store \<Rightarrow> unit res \<times> store" where
  "MarkUTXOsSpent now ops txHash s =
     (case upd_until_missing (spend_utxo now txHash) ops (utxos s) of
        (r, m) \<Rightarrow> (r, s\<lparr>utxos := m\<rparr>))"

definition restore_utxo :: "time \<Rightarrow> UTXO \<Rightarrow> UTXO" where
  "restore_utxo now u = u\<lparr>uLockState := UTXOLockStateFree, uSpentAt := None, uLockedAt := None,
     uTxHash := [], uUpdatedAt := now\<rparr>"

definition RestoreUTXOs :: "time \<Rightarrow> string list \<Rightarrow> store \<Rightarrow> unit res \<times> store" where
  "RestoreUTXOs now ops s =
     (case upd_until_missing (restore_utxo now) ops (utxos s) of
        (r, m) \<Rightarrow> (r, s\<lparr>utxos := m\<rparr>))"

definition PruneUTXOs :: "string list \<Rightarrow> store \<Rightarrow> unit res \<times> store" where
  "PruneUTXOs ops s = (Inr (), s\<lparr>utxos := fold AList.delete ops (utxos s)\<rparr>)"

section \<open>Nonces\<close>

definition zero_nonce :: "uuid \<Rightarrow> string \<Rightarrow> Nonce" where
  "zero_nonce wid ch = \<lparr>nWalletID = wid, nChain = ch, nPendingNonce = 0, nBroadcastNonce = 0,
     nVersion = 0, nUpdatedAt = 0\<rparr>"

definition GetNonce :: "uuid \<Rightarrow> string \<Rightarrow> store \<Rightarrow> Nonce" where
  "GetNonce wid ch s =
     (case map_of (nonces s) (nonceKey wid ch) of None \<Rightarrow> zero_nonce wid ch | Some n \<Rightarrow> n)"

definition UpsertNonce :: "time \<Rightarrow> Nonce \<Rightarrow> store \<Rightarrow> unit res \<times> store" where
  "UpsertNonce now n s =
     (Inr (), s\<lparr>nonces :=
        AList.update (nonceKey (nWalletID n) (nChain n)) (n\<lparr>nUpdatedAt := now\<rparr>) (nonces s)\<rparr>)"

definition IncrementPendingNonce ::
    "time \<Rightarrow> uuid \<Rightarrow> string \<Rightarrow> store \<Rightarrow> (int \<times> int) res \<times> store" where
  "IncrementPendingNonce now wid ch s =
     (let n = GetNonce wid ch s;
          val = nPendingNonce n;
          n' = n\<lparr>nPendingNonce := wrap64 (val + 1), nVersion := wrap64 (nVersion n + 1),
                 nUpdatedAt := now\<rparr>
      in (Inr (val, nVersion n'), s\<lparr>nonces := AList.update (nonceKey wid ch) n' (nonces s)\<rparr>))"

definition AdvanceBroadcastNonce ::
    "time \<Rightarrow> uuid \<Rightarrow> string \<Rightarrow> int \<Rightarrow> store \<Rightarrow> unit res \<times> store" where
  "AdvanceBroadcastNonce now wid ch nonce s =
     (let n = GetNonce wid ch s;
          n' = (if wrap64 (nonce + 1) > nBroadcastNonce n
                then n\<lparr>nBroadcastNonce := wrap64 (nonce + 1)\<rparr> else n)
      in (Inr (), s\<lparr>nonces :=
            AList.update (nonceKey wid ch) (n'\<lparr>nUpdatedAt := now\<rparr>) (nonces s)\<rparr>))"

definition RollbackPendingNonce ::
    "time \<Rightarrow> uuid \<Rightarrow> string \<Rightarrow> int \<Rightarrow> store \<Rightarrow> int res \<times> store" where
  "RollbackPendingNonce now wid ch to s =
     (case map_of (nonces s) (nonceKey wid ch) of
        None \<Rightarrow> (Inr 0, s)
      | Some n \<Rightarrow>
          if nPendingNonce n = wrap64 (to + 1)
          then (Inr 1, s\<lparr>nonces := AList.map_entry (nonceKey wid ch)
                  (\<lambda>n. n\<lparr>nPendingNonce := to, nVersion := wrap64 (nVersion n + 1),
                        nUpdatedAt := now\<rparr>) (nonces s)\<rparr>)
          else (Inr 0, s))"

section \<open>Withdrawals\<close>

definition CreateWithdrawal :: "time \<Rightarrow> WithdrawalRequest \<Rightarrow> store \<Rightarrow> unit res \<times> store" where
  "CreateWithdrawal now w s =
     (case map_of (withdrawals s) (wrID w) of
        Some _ \<Rightarrow> (Inl (ErrText ''withdrawal exists''), s)
      | None \<Rightarrow>
          let key = withdrawalDedupKey (wrWalletID w) (wrToAddress w) (wrAmount w) (wrAsset w)
          in if get_bool (inflightWithdrawals s) key then (Inl ErrDuplicateWithdrawal, s)
             else (let cp = (if IsZero (wrCreatedAt w) then w\<lparr>wrCreatedAt := now\<rparr> else w);
                       cp = cp\<lparr>wrUpdatedAt := wrCreatedAt cp\<rparr>
                   in (Inr (), s\<lparr>inflightWithdrawals :=
                                   AList.update key True (inflightWithdrawals s),
                                 withdrawals := AList.update (wrID w) cp (withdrawals s)\<rparr>)))"

definition GetWithdrawal :: "uuid \<Rightarrow> store \<Rightarrow> WithdrawalRequest res" where
  "GetWithdrawal i s =
     (case map_of (withdrawals s) i of
        None \<Rightarrow> Inl (ErrWrap ''withdrawal not found'' ErrNoRows)
      | Some w \<Rightarrow> Inr w)"

definition withdrawal_lt :: "WithdrawalRequest \<Rightarrow> WithdrawalRequest \<Rightarrow> bool" where
  "withdrawal_lt a b = (wrCreatedAt a < wrCreatedAt b)"

definition ListWithdrawals :: "uuid \<Rightarrow> string \<Rightarrow> store \<Rightarrow> WithdrawalRequest list" where
  "ListWithdrawals wid stateF s =
     sort_Slice withdrawal_lt
       (filter (\<lambda>w. \<not> (wid \<noteq> uuid_Nil \<and> wrWalletID w \<noteq> wid) \<and> \<not> (stateF \<noteq> [] \<and> wrState w \<noteq> stateF))
          (vals (withdrawals s)))"

definition set_withdrawal_state ::
    "time \<Rightarrow> string \<Rightarrow> string \<Rightarrow> string \<Rightarrow> string \<Rightarrow> WithdrawalRequest \<Rightarrow> WithdrawalRequest" where
  "set_withdrawal_state now st reason txHash policyDecisionID w =
     w\<lparr>wrState := st,
       wrFailureReason := (if reason \<noteq> [] then reason else wrFailureReason w),
       wrTxHash := (if txHash \<noteq> [] then txHash else wrTxHash w),
       wrPolicyDecisionID := (if policyDecisionID \<noteq> [] then policyDecisionID
                              else wrPolicyDecisionID w),
       wrUpdatedAt := now\<rparr>"

definition UpdateWithdrawalState ::
    "time \<Rightarrow> uuid \<Rightarrow> string \<Rightarrow> string \<Rightarrow> string \<Rightarrow> string \<Rightarrow> store \<Rightarrow> unit res \<times> store" where
  "UpdateWithdrawalState now i st reason txHash policyDecisionID s =
     (case map_of (withdrawals s) i of
        None \<Rightarrow> (Inl (ErrWrap ''withdrawal not found'' ErrNoRows), s)
      | Some w \<Rightarrow>
          let s = (if st = WithdrawalStateConfirmed \<or> st = WithdrawalStateFailed
                   then s\<lparr>inflightWithdrawals :=
                          AList.delete (withdrawalDedupKey (wrWalletID w) (wrToAddress w)
                              (wrAmount w) (wrAsset w)) (inflightWithdrawals s)\<rparr>
                   else s)
          in (Inr (), s\<lparr>withdrawals := AList.map_entry i
                          (set_withdrawal_state now st reason txHash policyDecisionID)
                          (withdrawals s)\<rparr>))"

definition UpdateWithdrawalNonce :: "time \<Rightarrow> uuid \<Rightarrow> int \<Rightarrow> store \<Rightarrow> unit res \<times> store" where
  "UpdateWithdrawalNonce now i nonce s =
     (case map_of (withdrawals s) i of
        None \<Rightarrow> (Inl (ErrWrap ''withdrawal not found'' ErrNoRows), s)
      | Some _ \<Rightarrow>
          (Inr (), s\<lparr>withdrawals := AList.map_entry i
             (\<lambda>w. w\<lparr>wrNonceValue := Some nonce, wrUpdatedAt := now\<rparr>) (withdrawals s)\<rparr>))"

definition UpdateWithdrawalOutpoints ::
    "time \<Rightarrow> uuid \<Rightarrow> string list \<Rightarrow> store \<Rightarrow> unit res \<times> store" where
  "UpdateWithdrawalOutpoints now i ops s =
     (case map_of (withdrawals s) i of
        None \<Rightarrow> (Inl (ErrWrap ''withdrawal not found'' ErrNoRows), s)
      | Some _ \<Rightarrow>
          (Inr (), s\<lparr>withdrawals := AList.map_entry i
             (\<lambda>w. w\<lparr>wrReservedOutpoints := ops, wrUpdatedAt := now\<rparr>) (withdrawals s)\<rparr>))"

definition UpdateWithdrawalSignedTx ::
    "time \<Rightarrow> uuid \<Rightarrow> byte list \<Rightarrow> store \<Rightarrow> unit res \<times> store" where
  "UpdateWithdrawalSignedTx now i txBytes s =
     (case map_of (withdrawals s) i of
        None \<Rightarrow> (Inl (ErrWrap ''withdrawal not found'' ErrNoRows), s)
      | Some _ \<Rightarrow>
          (Inr (), s\<lparr>withdrawals := AList.map_entry i
             (\<lambda>w. w\<lparr>wrSignedTxBytes := txBytes, wrUpdatedAt := now\<rparr>) (withdrawals s)\<rparr>))"

section \<open>Key mappings\<close>

definition BindKeyMapping :: "time \<Rightarrow> KeyMapping \<Rightarrow> store \<Rightarrow> unit res \<times> store" where
  "BindKeyMapping now m s =
     (if \<exists>ex \<in> set (get_list (keyMappings s) (kWalletID m)).
           kRotationState ex = RotationStateCurrent \<and> kRotationState m = RotationStateCurrent
      then (Inl (ErrText ''current key mapping already exists''), s)
      else (let cp = (if IsZero (kCreatedAt m) then m\<lparr>kCreatedAt := now\<rparr> else m);
                cp = (if IsZero (kActiveFrom cp) then cp\<lparr>kActiveFrom := now\<rparr> else cp)
            in (Inr (), s\<lparr>keyMappings := AList.update (kWalletID m)
                  (get_list (keyMappings s) (kWalletID m) @ [cp]) (keyMappings s)\<rparr>)))"

definition key_lt :: "KeyMapping \<Rightarrow> KeyMapping \<Rightarrow> bool" where
  "key_lt a b = (kActiveFrom a < kActiveFrom b)"

definition ResolveActiveKey :: "uuid \<Rightarrow> store \<Rightarrow> KeyMapping list res" where
  "ResolveActiveKey wid s =
     (let out = filter (\<lambda>m. kRotationState m = RotationStateCurrent
                  \<or> kRotationState m = RotationStateCooling) (get_list (keyMappings s) wid)
      in if out = [] then Inl (ErrWrap ''no active key mapping'' ErrNoRows)
         else Inr (sort_Slice key_lt out))"

definition cool_current :: "time \<Rightarrow> KeyMapping \<Rightarrow> KeyMapping" where
  "cool_current activeTo m =
     (if kRotationState m = RotationStateCurrent
      then m\<lparr>kRotationState := RotationStateCooling, kActiveTo := Some activeTo\<rparr> else m)"

fun revive_key :: "time \<Rightarrow> string \<Rightarrow> KeyMapping list \<Rightarrow> KeyMapping list option" where
  "revive_key now newKeyID [] = None"
| "revive_key now newKeyID (m # ms) =
     (if kKeyID m = newKeyID
      then Some (m\<lparr>kRotationState := RotationStateCurrent, kActiveTo := None,
                   kActiveFrom := now\<rparr> # ms)
      else map_option ((#) m) (revive_key now newKeyID ms))"

definition RotateKeyMapping ::
    "time \<Rightarrow> uuid \<Rightarrow> string \<Rightarrow> int \<Rightarrow> store \<Rightarrow> unit res \<times> store" where
  "RotateKeyMapping now wid newKeyID cooling s =
     (let ms = map (cool_current (now + cooling)) (get_list (keyMappings s) wid);
          ms' = (case revive_key now newKeyID ms of
                   Some l \<Rightarrow> l
                 | None \<Rightarrow> ms @ [\<lparr>kWalletID = wid, kKeyID = newKeyID, kActiveFrom = now,
                     kActiveTo = None, kRotationState = RotationStateCurrent, kCreatedAt = now\<rparr>])
      in (Inr (), s\<lparr>keyMappings := AList.update wid ms' (keyMappings s)\<rparr>))"

definition expire_cooling :: "time \<Rightarrow> KeyMapping \<Rightarrow> KeyMapping" where
  "expire_cooling now m =
     (if kRotationState m = RotationStateCooling
         \<and> (case kActiveTo m of None \<Rightarrow> False | Some t \<Rightarrow> t < now)
      then m\<lparr>kRotationState := RotationStateRetired\<rparr> else m)"

definition ExpireCooling :: "time \<Rightarrow> store \<Rightarrow> unit res \<times> store" where
  "ExpireCooling now s =
     (Inr (), s\<lparr>keyMappings := map (\<lambda>(w, ms). (w, map (expire_cooling now) ms)) (keyMappings s)\<rparr>)"

section \<open>Funding requests\<close>

definition CreateFundingRequest :: "time \<Rightarrow> FundingRequest \<Rightarrow> store \<Rightarrow> unit res \<times> store" where
  "CreateFundingRequest now f s =
     (if \<exists>ex \<in> set (vals (fundingReq s)). fWalletID ex = fWalletID f \<and> fAsset ex = fAsset f
           \<and> fState ex = FundingStateRequested
      then (Inl ErrDuplicateFunding, s)
      else (let cp = (if IsZero (fCreatedAt f) then f\<lparr>fCreatedAt := now\<rparr> else f);
                cp = cp\<lparr>fUpdatedAt := fCreatedAt cp\<rparr>
            in (Inr (), s\<lparr>fundingReq := AList.update (fID f) cp (fundingReq s)\<rparr>)))"

definition GetOpenFundingRequest :: "uuid \<Rightarrow> string \<Rightarrow> store \<Rightarrow> FundingRequest res" where
  "GetOpenFundingRequest wid asset s =
     (case find (\<lambda>f. fWalletID f = wid \<and> fAsset f = asset \<and> fState f = FundingStateRequested)
             (vals (fundingReq s)) of
        None \<Rightarrow> Inl (ErrWrap ''no open funding request'' ErrNoRows)
      | Some f \<Rightarrow> Inr f)"

definition funding_lt :: "FundingRequest \<Rightarrow> FundingRequest \<Rightarrow> bool" where
  "funding_lt a b = (fCreatedAt a < fCreatedAt b)"

definition ListFundingRequests :: "uuid \<Rightarrow> string \<Rightarrow> store \<Rightarrow> FundingRequest list" where
  "ListFundingRequests wid stateF s =
     sort_Slice funding_lt
       (filter (\<lambda>f. \<not> (wid \<noteq> uuid_Nil \<and> fWalletID f \<noteq> wid) \<and> \<not> (stateF \<noteq> [] \<and> fState f \<noteq> stateF))
          (vals (fundingReq s)))"

definition UpdateFundingState ::
    "time \<Rightarrow> uuid \<Rightarrow> string \<Rightarrow> string \<Rightarrow> store \<Rightarrow> unit res \<times> store" where
  "UpdateFundingState now i st treasuryBatchID s =
     (case map_of (fundingReq s) i of
        None \<Rightarrow> (Inl (ErrWrap ''funding request not found'' ErrNoRows), s)
      | Some _ \<Rightarrow>
          (Inr (), s\<lparr>fundingReq := AList.map_entry i
             (\<lambda>f. f\<lparr>fState := st,
                    fTreasuryBatchID := (if treasuryBatchID \<noteq> [] then treasuryBatchID
                                         else fTreasuryBatchID f),
                    fUpdatedAt := now\<rparr>) (fundingReq s)\<rparr>))"

section \<open>Audit outbox\<close>

definition AppendAuditEvent :: "time \<Rightarrow> AuditOutboxEvent \<Rightarrow> store \<Rightarrow> unit res \<times> store" where
  "AppendAuditEvent now e s =
     (if \<exists>ex \<in> set (auditOutbox s). eEventID ex = eEventID e
      then (Inl ErrDuplicateAudit, s)
      else (let cp = (if IsZero (eCreatedAt e) then e\<lparr>eCreatedAt := now\<rparr> else e)
            in (Inr (), s\<lparr>auditOutbox := auditOutbox s @ [cp]\<rparr>)))"

definition audit_lt :: "AuditOutboxEvent \<Rightarrow> AuditOutboxEvent \<Rightarrow> bool" where
  "audit_lt a b = (eSeq a < eSeq b)"

definition ListUndeliveredAuditEvents :: "int \<Rightarrow> store \<Rightarrow> AuditOutboxEvent list" where
  "ListUndeliveredAuditEvents limit s =
     (let out = sort_Slice audit_lt (filter (\<lambda>e. \<not> eDelivered e) (auditOutbox s))
      in if limit > 0 \<and> int (length out) > limit then take (nat limit) out else out)"

fun mark_first :: "time \<Rightarrow> uuid \<Rightarrow> AuditOutboxEvent list \<Rightarrow> AuditOutboxEvent list option" where
  "mark_first now i [] = None"
| "mark_first now i (e # es) =
     (if eID e = i
      then Some (e\<lparr>eDelivered := True, eAttempts := wrap64 (eAttempts e + 1),
                   eDeliveredAt := Some now\<rparr> # es)
      else map_option ((#) e) (mark_first now i es))"

definition MarkAuditDelivered :: "time \<Rightarrow> uuid \<Rightarrow> store \<Rightarrow> unit res \<times> store" where
  "MarkAuditDelivered now i s =
     (case mark_first now i (auditOutbox s) of
        Some es \<Rightarrow> (Inr (), s\<lparr>auditOutbox := es\<rparr>)
      | None \<Rightarrow> (Inl (ErrWrap ''audit event not found'' ErrNoRows), s))"

definition NextAuditSeq :: "uuid \<Rightarrow> store \<Rightarrow> int res \<times> store" where
  "NextAuditSeq wid s =
     (let v = wrap64 (get_int (auditSeqCounters s) wid + 1)
      in (Inr v, s\<lparr>auditSeqCounters := AList.update wid v (auditSeqCounters s)\<rparr>))"

section \<open>Facts about the keys\<close>

lemma balanceKey_inject:
  "uuid_wf u \<Longrightarrow> uuid_wf v \<Longrightarrow> balanceKey u a = balanceKey v b \<longleftrightarrow> u = v \<and> a = b"
  by (simp add: balanceKey_def uuid_wf_def sep_inject)

lemma nonceKey_inject:
  "uuid_wf u \<Longrightarrow> uuid_wf v \<Longrightarrow> nonceKey u a = nonceKey v b \<longleftrightarrow> u = v \<and> a = b"
  by (simp add: nonceKey_def uuid_wf_def sep_inject)

lemma balanceEventKey_inject:
  assumes "uuid_wf (beWalletID e)" "uuid_wf (beWalletID f)" "CHR ''|'' \<notin> set (beAsset e)"
    "CHR ''|'' \<notin> set (beAsset f)"
  shows "balanceEventKey e = balanceEventKey f \<longleftrightarrow>
    beWalletID e = beWalletID f \<and> beAsset e = beAsset f \<and> beBlockHeight e = beBlockHeight f
    \<and> beEventID e = beEventID f"
  using assms by (simp add: balanceEventKey_def uuid_wf_def sep_inject)

lemma withdrawalDedupKey_inject:
  assumes "uuid_wf u" "uuid_wf v" "CHR ''|'' \<notin> set to" "CHR ''|'' \<notin> set to'"
    "CHR ''|'' \<notin> set amt" "CHR ''|'' \<notin> set amt'"
  shows "withdrawalDedupKey u to amt a = withdrawalDedupKey v to' amt' b \<longleftrightarrow>
    u = v \<and> to = to' \<and> amt = amt' \<and> a = b"
  using assms by (simp add: withdrawalDedupKey_def uuid_wf_def sep_inject)

section \<open>Orders of the listings\<close>

interpretation wallet_ord: less_order wallet_lt
  by unfold_locales (auto simp: wallet_lt_def)

interpretation address_ord: less_order address_lt
  by unfold_locales (auto simp: address_lt_def split: if_splits)

interpretation balance_ord: less_order balance_lt
  by unfold_locales (auto simp: balance_lt_def)

interpretation withdrawal_ord: less_order withdrawal_lt
  by unfold_locales (auto simp: withdrawal_lt_def)

interpretation key_ord: less_order key_lt
  by unfold_locales (auto simp: key_lt_def)

interpretation funding_ord: less_order funding_lt
  by unfold_locales (auto simp: funding_lt_def)

end
