(* ===== verification/Utxo.thy ===== *)
theory Utxo
  imports Decimal Memstore
begin

text \<open>
  The BTC UTXO set, \<^verbatim>\<open>internal/utxo/utxo.go\<close> over the UTXO methods of the store: greedy selection
  with locking, unlock, spend, reorg restoration and pruning.

  Selection reads the free set and locks its choice in two store calls. The argument \<open>others\<close> of
  \<open>SelectForAmount\<close> is what the rest of the system does to the store between them.
\<close>

section \<open>Operations\<close>

definition value_gt :: "declib \<Rightarrow> UTXO \<Rightarrow> UTXO \<Rightarrow> bool" where
  "value_gt D a b = (parseDec D (uValue a) > parseDec D (uValue b))"

fun select_loop :: "declib \<Rightarrow> rat \<Rightarrow> UTXO list \<Rightarrow> string list \<Rightarrow> rat \<Rightarrow> string list \<times> rat" where
  "select_loop D amount [] selected tot = (selected, tot)"
| "select_loop D amount (u # us) selected tot =
     (if tot \<ge> amount then (selected, tot)
      else select_loop D amount us (selected @ [uOutpoint u]) (tot + parseDec D (uValue u)))"

definition SelectForAmount ::
    "declib \<Rightarrow> (store \<Rightarrow> store) \<Rightarrow> time \<Rightarrow> uuid \<Rightarrow> rat \<Rightarrow> store \<Rightarrow> (string list \<times> rat) res \<times> store" where
  "SelectForAmount D others t wid amount s =
     (let free = sort_Slice (value_gt D) (ListFreeUTXOs wid s)
      in case select_loop D amount free [] 0 of
           (selected, tot) \<Rightarrow>
             if tot < amount then (Inl (ErrText ''insufficient funds''), s)
             else (case LockUTXOs t selected (others s) of
                     (Inl e, s) \<Rightarrow> (Inl (ErrWrap ''lock utxos'' e), s)
                   | (Inr _, s) \<Rightarrow> (Inr (selected, tot), s)))"

definition Unlock :: "time \<Rightarrow> string list \<Rightarrow> store \<Rightarrow> unit res \<times> store" where
  "Unlock t outpoints s = RestoreUTXOs t outpoints s"

definition MarkSpent :: "time \<Rightarrow> string list \<Rightarrow> string \<Rightarrow> store \<Rightarrow> unit res \<times> store" where
  "MarkSpent t outpoints txHash s = MarkUTXOsSpent t outpoints txHash s"

definition RestoreOnReorg :: "time \<Rightarrow> string list \<Rightarrow> store \<Rightarrow> unit res \<times> store" where
  "RestoreOnReorg t outpoints s = RestoreUTXOs t outpoints s"

definition PruneFinalized :: "string list \<Rightarrow> store \<Rightarrow> unit res \<times> store" where
  "PruneFinalized outpoints s = PruneUTXOs outpoints s"

definition TrackUTXO :: "time \<Rightarrow> UTXO \<Rightarrow> store \<Rightarrow> unit res \<times> store" where
  "TrackUTXO t u s = InsertUTXO t u s"

section \<open>The ledger contract\<close>

text \<open>
  What selection needs of a UTXO ledger: an outpoint has a lock state, \<open>lock\<close> takes all of its
  outpoints from FREE to LOCKED or none of them, and \<open>restore\<close> puts outpoints back to FREE.
\<close>

locale utxo_ledger =
  fixes ustate :: "'s \<Rightarrow> string \<Rightarrow> string option"
    and lock :: "string list \<Rightarrow> 's \<Rightarrow> unit res \<times> 's"
    and restore :: "string list \<Rightarrow> 's \<Rightarrow> unit res \<times> 's"
  assumes lock_ok: "\<forall>op \<in> set ops. ustate s op = Some UTXOLockStateFree \<Longrightarrow>
      is_ok (fst (lock ops s)) \<and> ustate (snd (lock ops s)) =
        (\<lambda>op. if op \<in> set ops then Some UTXOLockStateLocked else ustate s op)"
    and lock_err: "op \<in> set ops \<Longrightarrow> ustate s op \<noteq> Some UTXOLockStateFree \<Longrightarrow>
      \<not> is_ok (fst (lock ops s)) \<and> snd (lock ops s) = s"
    and restore_ok: "\<forall>op \<in> set ops. ustate s op \<noteq> None \<Longrightarrow>
      is_ok (fst (restore ops s)) \<and> ustate (snd (restore ops s)) =
        (\<lambda>op. if op \<in> set ops then Some UTXOLockStateFree else ustate s op)"
begin

lemma lock_free: "is_ok (fst (lock ops s)) \<longleftrightarrow> (\<forall>op \<in> set ops. ustate s op = Some UTXOLockStateFree)"
  using lock_ok lock_err by blast

lemma lock_frame: "\<not> is_ok (fst (lock ops s)) \<Longrightarrow> snd (lock ops s) = s"
  using lock_free lock_err by blast

lemma lock_excludes:
  assumes "is_ok (fst (lock ops s))" and "op \<in> set ops" and "op \<in> set ops'"
  shows "\<not> is_ok (fst (lock ops' (snd (lock ops s))))"
proof -
  have "ustate (snd (lock ops s)) op = Some UTXOLockStateLocked"
    using assms lock_free lock_ok by simp
  then have "ustate (snd (lock ops s)) op \<noteq> Some UTXOLockStateFree" by simp
  with assms(3) show ?thesis using lock_free by blast
qed

lemma lock_restore:
  assumes "is_ok (fst (lock ops s))"
  shows "is_ok (fst (restore ops (snd (lock ops s))))
    \<and> ustate (snd (restore ops (snd (lock ops s)))) = ustate s"
proof -
  have free: "\<forall>op \<in> set ops. ustate s op = Some UTXOLockStateFree" using assms by (simp add: lock_free)
  have l: "ustate (snd (lock ops s)) = (\<lambda>op. if op \<in> set ops then Some UTXOLockStateLocked else ustate s op)"
    using lock_ok [OF free] by blast
  have "\<forall>op \<in> set ops. ustate (snd (lock ops s)) op \<noteq> None" by (simp add: l)
  from restore_ok [OF this] show ?thesis using free by (auto simp: l)
qed

end

text \<open>
  A ledger that may also refuse to lock a list that names an outpoint twice, as a database does that locks one
  outpoint after the other. Exclusion and restoring still hold.
\<close>

locale coin_ledger =
  fixes ready :: "'s \<Rightarrow> bool" and ustate :: "'s \<Rightarrow> string \<Rightarrow> string option"
    and lock :: "'k \<Rightarrow> string list \<Rightarrow> 's \<Rightarrow> unit res \<times> 's"
    and restore :: "'k \<Rightarrow> string list \<Rightarrow> 's \<Rightarrow> unit res \<times> 's"
  assumes lock_effect: "ready s \<Longrightarrow> lock k ops s = (Inr (), s') \<Longrightarrow> ready s' \<and> (\<forall>op \<in> set ops. ustate s op = Some UTXOLockStateFree)
      \<and> ustate s' = (\<lambda>op. if op \<in> set ops then Some UTXOLockStateLocked else ustate s op)"
    and lock_refused: "lock k ops s = (Inl e, s') \<Longrightarrow> s' = s"
    and restore_effect: "ready s \<Longrightarrow> \<forall>op \<in> set ops. ustate s op \<noteq> None \<Longrightarrow> restore k ops s = (Inr (), s') \<Longrightarrow>
      ustate s' = (\<lambda>op. if op \<in> set ops then Some UTXOLockStateFree else ustate s op)"
begin

lemma locks_exclude:
  assumes "ready s" and "lock k ops s = (Inr (), s')" and "lock k' ops' s' = (r, s'')" and "set ops \<inter> set ops' \<noteq> {}"
  shows "\<not> is_ok r \<and> s'' = s'"
proof (cases r)
  case (Inl e)
  then show ?thesis using lock_refused assms(3) by simp
next
  case (Inr u)
  then show ?thesis using lock_effect [OF assms(1,2)] lock_effect [of s' k' ops' s''] assms(3,4) by auto
qed

lemma lock_then_restore:
  assumes "ready s" and "lock k ops s = (Inr (), s')" and "restore k' ops s' = (Inr (), s'')"
  shows "ustate s'' = ustate s"
  using lock_effect [OF assms(1,2)] restore_effect [OF _ _ assms(3)] by (auto simp: fun_eq_iff)

end

sublocale utxo_ledger \<subseteq> coins: coin_ledger "\<lambda>_. True" ustate "\<lambda>_ :: unit. lock" "\<lambda>_ :: unit. restore"
proof unfold_locales
  fix ops s s'
  show "lock ops s = (Inr (), s') \<Longrightarrow> True \<and> (\<forall>op \<in> set ops. ustate s op = Some UTXOLockStateFree)
      \<and> ustate s' = (\<lambda>op. if op \<in> set ops then Some UTXOLockStateLocked else ustate s op)"
    using lock_free [of ops s] lock_ok [of ops s] by simp
  show "lock ops s = (Inl e, s') \<Longrightarrow> s' = s" for e using lock_frame [of ops s] by simp
  show "\<forall>op \<in> set ops. ustate s op \<noteq> None \<Longrightarrow> restore ops s = (Inr (), s') \<Longrightarrow>
      ustate s' = (\<lambda>op. if op \<in> set ops then Some UTXOLockStateFree else ustate s op)"
    using restore_ok [of ops s] by simp
qed

section \<open>The store as a ledger\<close>

definition lock_state :: "store \<Rightarrow> string \<Rightarrow> string option" where
  "lock_state s op = map_option uLockState (map_of (utxos s) op)"

lemma check_free_iff:
  "is_ok (check_free ops m) \<longleftrightarrow>
   (\<forall>op \<in> set ops. map_option uLockState (map_of m op) = Some UTXOLockStateFree)"
  by (induction ops) (auto split: option.splits)

lemma upd_until_missing_ok:
  "\<forall>op \<in> set ops. map_of m op \<noteq> None \<Longrightarrow>
   upd_until_missing f ops m = (Inr (), entries_upd ops f m)"
  by (induction ops arbitrary: m) (auto split: option.splits)

lemma lock_utxo_idem: "lock_utxo t (lock_utxo t u) = lock_utxo t u"
  by (simp add: lock_utxo_def)

lemma restore_utxo_idem: "restore_utxo t (restore_utxo t u) = restore_utxo t u"
  by (simp add: restore_utxo_def)

lemma spend_utxo_idem: "spend_utxo t h (spend_utxo t h u) = spend_utxo t h u"
  by (simp add: spend_utxo_def)

lemma LockUTXOs_ok:
  assumes "\<forall>op \<in> set ops. lock_state s op = Some UTXOLockStateFree"
  shows "LockUTXOs t ops s = (Inr (), s\<lparr>utxos := entries_upd ops (lock_utxo t) (utxos s)\<rparr>)"
  using assms check_free_iff [of ops "utxos s"]
  by (auto simp: LockUTXOs_def lock_state_def elim!: is_okE)

lemma LockUTXOs_err:
  "op \<in> set ops \<Longrightarrow> lock_state s op \<noteq> Some UTXOLockStateFree \<Longrightarrow>
   \<exists>e. LockUTXOs t ops s = (Inl e, s)"
  using check_free_iff [of ops "utxos s"]
  by (cases "check_free ops (utxos s)") (auto simp: LockUTXOs_def lock_state_def)

lemma RestoreUTXOs_ok:
  "\<forall>op \<in> set ops. map_of (utxos s) op \<noteq> None \<Longrightarrow>
   RestoreUTXOs t ops s = (Inr (), s\<lparr>utxos := entries_upd ops (restore_utxo t) (utxos s)\<rparr>)"
  by (simp add: RestoreUTXOs_def upd_until_missing_ok)

lemma MarkUTXOsSpent_ok:
  "\<forall>op \<in> set ops. map_of (utxos s) op \<noteq> None \<Longrightarrow>
   MarkUTXOsSpent t ops h s = (Inr (), s\<lparr>utxos := entries_upd ops (spend_utxo t h) (utxos s)\<rparr>)"
  by (simp add: MarkUTXOsSpent_def upd_until_missing_ok)

interpretation memledger: utxo_ledger lock_state "LockUTXOs t" "RestoreUTXOs t" for t
proof unfold_locales
  fix ops s
  assume free: "\<forall>op \<in> set ops. lock_state s op = Some UTXOLockStateFree"
  have "lock_state (s\<lparr>utxos := entries_upd ops (lock_utxo t) (utxos s)\<rparr>) op =
      (if op \<in> set ops then Some UTXOLockStateLocked else lock_state s op)" for op
    using free by (auto simp: lock_state_def map_of_entries_upd lock_utxo_idem lock_utxo_def)
  then show "is_ok (fst (LockUTXOs t ops s)) \<and> lock_state (snd (LockUTXOs t ops s)) =
      (\<lambda>op. if op \<in> set ops then Some UTXOLockStateLocked else lock_state s op)"
    using LockUTXOs_ok [OF free, of t] by auto
next
  fix op ops s
  assume "op \<in> set ops" "lock_state s op \<noteq> Some UTXOLockStateFree"
  then show "\<not> is_ok (fst (LockUTXOs t ops s)) \<and> snd (LockUTXOs t ops s) = s"
    using LockUTXOs_err [of op ops s t] by auto
next
  fix ops s
  assume ex: "\<forall>op \<in> set ops. lock_state s op \<noteq> None"
  then have ex': "\<forall>op \<in> set ops. map_of (utxos s) op \<noteq> None" by (simp add: lock_state_def)
  then show "is_ok (fst (RestoreUTXOs t ops s)) \<and> lock_state (snd (RestoreUTXOs t ops s)) =
      (\<lambda>op. if op \<in> set ops then Some UTXOLockStateFree else lock_state s op)"
    by (auto simp: RestoreUTXOs_ok lock_state_def map_of_entries_upd restore_utxo_idem
        restore_utxo_def option.map_comp comp_def)
qed

section \<open>Selection\<close>

interpretation value_ord: less_order "value_gt D" for D
  by unfold_locales (auto simp: value_gt_def)

interpretation utxo_ord: less_order utxo_lt
  by unfold_locales (auto simp: utxo_lt_def)

text \<open>
  A row sits under its outpoint, its lock state is one of the declared ones, and the time stamps
  and the spending hash agree with it.
\<close>

definition utxo_row :: "string \<Rightarrow> UTXO \<Rightarrow> bool" where
  "utxo_row k u = (uOutpoint u = k \<and>
     (uLockState u = UTXOLockStateFree \<and> uLockedAt u = None \<and> uSpentAt u = None \<and> uTxHash u = []
      \<or> uLockState u = UTXOLockStateLocked \<and> uLockedAt u \<noteq> None
      \<or> uLockState u = UTXOLockStateSpent \<and> uSpentAt u \<noteq> None))"

definition utxo_ok :: "store \<Rightarrow> bool" where
  "utxo_ok s = rows_ok utxo_row (utxos s)"

abbreviation utxo_values :: "declib \<Rightarrow> UTXO list \<Rightarrow> rat list" where
  "utxo_values D us \<equiv> map (\<lambda>u. parseDec D (uValue u)) us"

definition selection_order :: "declib \<Rightarrow> uuid \<Rightarrow> store \<Rightarrow> UTXO list" where
  "selection_order D wid s = sort_Slice (value_gt D) (ListFreeUTXOs wid s)"

text \<open>The loop takes the shortest prefix whose value reaches the amount, or everything.\<close>

lemma select_loop_prefix:
  "\<exists>n \<le> length us. select_loop D amount us sel tot =
      (sel @ map uOutpoint (take n us), tot + sum_list (utxo_values D (take n us)))
    \<and> (n = length us \<or> amount \<le> tot + sum_list (utxo_values D (take n us)))
    \<and> (\<forall>m < n. tot + sum_list (utxo_values D (take m us)) < amount)"
proof (induction us arbitrary: sel tot)
  case Nil
  then show ?case by simp
next
  case (Cons u us)
  show ?case
  proof (cases "tot \<ge> amount")
    case True
    then show ?thesis by (intro exI [of _ 0]) simp
  next
    case False
    obtain n where n: "n \<le> length us"
      "select_loop D amount us (sel @ [uOutpoint u]) (tot + parseDec D (uValue u)) =
        (sel @ [uOutpoint u] @ map uOutpoint (take n us),
         tot + parseDec D (uValue u) + sum_list (utxo_values D (take n us)))"
      "n = length us \<or> amount \<le> tot + parseDec D (uValue u) + sum_list (utxo_values D (take n us))"
      "\<forall>m < n. tot + parseDec D (uValue u) + sum_list (utxo_values D (take m us)) < amount"
      using Cons.IH [of "sel @ [uOutpoint u]" "tot + parseDec D (uValue u)"] by auto
    have "\<forall>m < Suc n. tot + sum_list (utxo_values D (take m (u # us))) < amount"
    proof (intro allI impI)
      fix m assume "m < Suc n"
      then show "tot + sum_list (utxo_values D (take m (u # us))) < amount"
        using n(4) False by (cases m) (auto simp: add.assoc)
    qed
    then show ?thesis
      using n False by (intro exI [of _ "Suc n"]) (simp add: add.assoc)
  qed
qed

lemma free_utxo_mem:
  "u \<in> set (ListFreeUTXOs wid s) \<longleftrightarrow>
   u \<in> set (vals (utxos s)) \<and> uWalletID u = wid \<and> uLockState u = UTXOLockStateFree"
  by (auto simp: ListFreeUTXOs_def)

lemma free_utxo_state:
  "utxo_ok s \<Longrightarrow> u \<in> set (ListFreeUTXOs wid s) \<Longrightarrow> map_of (utxos s) (uOutpoint u) = Some u"
  using rows_ok_vals [of utxo_row "utxos s" u] by (auto simp: free_utxo_mem utxo_ok_def utxo_row_def)

lemma selection_order_set: "set (selection_order D wid s) = set (ListFreeUTXOs wid s)"
  by (simp add: selection_order_def)

lemma selection_order_outpoints:
  assumes "utxo_ok s"
  shows "distinct (map uOutpoint (selection_order D wid s))"
proof -
  have "map uOutpoint (vals (utxos s)) = map fst (utxos s)"
    using assms by (auto simp: utxo_ok_def rows_ok_def utxo_row_def)
  then have "distinct (map uOutpoint (vals (utxos s)))"
    using assms by (simp only: utxo_ok_def rows_ok_def map_ok_def)
  then show ?thesis
    by (simp add: selection_order_def ListFreeUTXOs_def distinct_map_filter)
qed

lemma selection_sorted: "sorted_wrt (\<ge>) (utxo_values D (selection_order D wid s))"
  using value_ord.sorted_sort_Slice [of D "ListFreeUTXOs wid s"]
  by (simp add: selection_order_def sorted_wrt_map value_gt_def not_less)

text \<open>No list of as many elements has a larger sum than a prefix of a descending list.\<close>

lemma prefix_sum_max:
  fixes xs :: "rat list"
  shows "sorted_wrt (\<ge>) xs \<Longrightarrow> mset ys \<subseteq># mset xs \<Longrightarrow> sum_list ys \<le> sum_list (take (length ys) xs)"
proof (induction xs arbitrary: ys)
  case Nil
  then show ?case by simp
next
  case (Cons x xs)
  show ?case
  proof (cases ys)
    case Nil
    then show ?thesis by simp
  next
    case (Cons y0 ys0)
    obtain y where y: "y \<in> set ys" "y \<le> x" "mset (remove1 y ys) \<subseteq># mset xs"
    proof (cases "x \<in> set ys")
      case True
      then show ?thesis
        using that [of x] Cons.prems(2) by (simp add: insert_subset_eq_iff subset_eq_diff_conv)
    next
      case False
      then have sub: "mset ys \<subseteq># mset xs"
        using Cons.prems(2)
        by (metis diff_single_trivial set_mset_mset subset_eq_diff_conv add_mset_add_single mset.simps(2))
      have "y0 \<in> set xs" "mset ys0 \<subseteq># mset xs"
        using sub mset_subset_eqD [OF sub, of y0] mset_subset_eq_insertD [of y0 "mset ys0" "mset xs"]
          subset_mset.less_imp_le by (auto simp: Cons)
      then show ?thesis
        using that [of y0] Cons.prems(1) by (simp add: Cons)
    qed
    have "sum_list ys = y + sum_list (remove1 y ys)"
      using y(1) by (simp add: sum_list_map_remove1 [of y ys "\<lambda>x. x", simplified])
    moreover have "sum_list (remove1 y ys) \<le> sum_list (take (length ys - 1) xs)"
      using Cons.IH [OF _ y(3)] Cons.prems(1) y(1) by (simp add: length_remove1)
    moreover have "take (length ys) (x # xs) = x # take (length ys - 1) xs"
      using Cons by simp
    ultimately show ?thesis using y(2) by simp
  qed
qed

lemma SelectForAmount_cases:
  assumes "SelectForAmount D others t wid amount s = (r, s')"
  obtains (insufficient) e where "r = Inl e" "s' = s"
      "\<forall>m \<le> length (selection_order D wid s). sum_list (utxo_values D (take m (selection_order D wid s))) < amount"
    | (contended) u e where "r = Inl e" "s' = others s" "u \<in> set (ListFreeUTXOs wid s)"
      "lock_state (others s) (uOutpoint u) \<noteq> Some UTXOLockStateFree"
    | (selected) n where "n \<le> length (selection_order D wid s)"
      "r = Inr (map uOutpoint (take n (selection_order D wid s)),
         sum_list (utxo_values D (take n (selection_order D wid s))))"
      "amount \<le> sum_list (utxo_values D (take n (selection_order D wid s)))"
      "\<forall>m < n. sum_list (utxo_values D (take m (selection_order D wid s))) < amount"
      "is_ok (fst (LockUTXOs t (map uOutpoint (take n (selection_order D wid s))) (others s)))"
      "s' = snd (LockUTXOs t (map uOutpoint (take n (selection_order D wid s))) (others s))"
proof -
  let ?us = "selection_order D wid s"
  obtain n where n: "n \<le> length ?us" "select_loop D amount ?us [] 0 =
      (map uOutpoint (take n ?us), sum_list (utxo_values D (take n ?us)))"
    "n = length ?us \<or> amount \<le> sum_list (utxo_values D (take n ?us))"
    "\<forall>m < n. sum_list (utxo_values D (take m ?us)) < amount"
    using select_loop_prefix [of ?us D amount "[]" 0] by auto
  let ?l = "LockUTXOs t (map uOutpoint (take n ?us)) (others s)"
  show thesis
  proof (cases "sum_list (utxo_values D (take n ?us)) < amount")
    case True
    then have "\<forall>m \<le> length ?us. sum_list (utxo_values D (take m ?us)) < amount"
      using n(3,4) by (auto simp: le_less)
    then show thesis
      using insufficient assms n(2) True by (auto simp: SelectForAmount_def selection_order_def Let_def)
  next
    case False
    show thesis
    proof (cases "fst ?l")
      case (Inl e)
      then have "snd ?l = others s" using memledger.lock_frame [of t] by simp
      moreover obtain u where "u \<in> set (ListFreeUTXOs wid s)"
        "lock_state (others s) (uOutpoint u) \<noteq> Some UTXOLockStateFree"
        using Inl memledger.lock_free [of t "map uOutpoint (take n ?us)" "others s"]
          set_take_subset [of n ?us] by (auto simp: selection_order_set)
      ultimately show thesis
        using contended assms n(2) False Inl
        by (auto simp: SelectForAmount_def selection_order_def Let_def split: prod.splits)
    next
      case (Inr u)
      then show thesis
        using selected [OF n(1)] assms n(2,4) False
        by (auto simp: SelectForAmount_def selection_order_def Let_def split: prod.splits)
    qed
  qed
qed

section \<open>The invariant\<close>

lemma utxo_row_writes:
  "utxo_row k u \<Longrightarrow> utxo_row k (lock_utxo t u)"
  "utxo_row k u \<Longrightarrow> utxo_row k (spend_utxo t h u)"
  "utxo_row k u \<Longrightarrow> utxo_row k (restore_utxo t u)"
  by (auto simp: utxo_row_def lock_utxo_def spend_utxo_def restore_utxo_def)

lemma rows_ok_until_missing:
  assumes "\<And>k u. P k u \<Longrightarrow> P k (f u)"
  shows "rows_ok P m \<Longrightarrow> rows_ok P (snd (upd_until_missing f ops m))"
proof (induction ops arbitrary: m)
  case (Cons op ops)
  have "rows_ok P (AList.map_entry op f m)" using Cons.prems assms by (rule rows_ok_entry)
  from Cons.IH [OF this] show ?case using Cons.prems by (simp split: option.split)
qed simp

lemma LockUTXOs_inv: "utxo_ok s \<Longrightarrow> utxo_ok (snd (LockUTXOs t ops s))"
  by (auto simp: LockUTXOs_def utxo_ok_def utxo_row_writes split: sum.split)

section \<open>Sample\<close>

definition sample_utxo :: "string \<Rightarrow> string \<Rightarrow> UTXO" where
  "sample_utxo op v = \<lparr>uOutpoint = op, uWalletID = ''w'', uValue = v, uScriptType = ''p2wpkh'',
     uConfirmations = 6, uLockState = UTXOLockStateFree, uLockedAt = None, uSpentAt = None,
     uTxHash = [], uUpdatedAt = 0\<rparr>"

definition sample_ledger :: store where
  "sample_ledger = New\<lparr>utxos := [(''a:0'', sample_utxo ''a:0'' ''5''), (''b:1'', sample_utxo ''b:1'' ''7''),
     (''c:0'', sample_utxo ''c:0'' ''3'')]\<rparr>"

lemma sample_values: "parseDec frac_lib ''5'' = 5" "parseDec frac_lib ''7'' = 7" "parseDec frac_lib ''3'' = 3"
  by (simp_all add: parseDec_def frac_parse_def parse_nat_def char_digit_def Let_def)

lemma sample_order:
  "selection_order frac_lib ''w'' sample_ledger =
    [sample_utxo ''b:1'' ''7'', sample_utxo ''a:0'' ''5'', sample_utxo ''c:0'' ''3'']"
  by (simp add: selection_order_def ListFreeUTXOs_def sample_ledger_def sample_utxo_def New_def utxo_lt_def
      value_gt_def sample_values)

lemma sample_ledger_ok: "utxo_ok sample_ledger"
  by (simp add: utxo_ok_def rows_ok_def map_ok_def sample_ledger_def sample_utxo_def utxo_row_def)

definition sample_locked :: store where
  "sample_locked = snd (LockUTXOs 9 [''b:1'', ''a:0''] sample_ledger)"

lemma sample_locks: "is_ok (fst (LockUTXOs 9 [''b:1'', ''a:0''] sample_ledger))"
  by (simp add: LockUTXOs_def sample_ledger_def sample_utxo_def)

lemma sample_select:
  "SelectForAmount frac_lib id 9 ''w'' 8 sample_ledger = (Inr ([''b:1'', ''a:0''], 12), sample_locked)"
proof -
  have "select_loop frac_lib 8 (selection_order frac_lib ''w'' sample_ledger) [] 0 = ([''b:1'', ''a:0''], 12)"
    by (simp add: sample_order sample_utxo_def sample_values)
  then show ?thesis
    using sample_locks
    by (auto simp: SelectForAmount_def selection_order_def Let_def sample_locked_def
        split: prod.splits elim!: is_okE)
qed

section \<open>Properties\<close>

text \<open>
  C25: a successful selection returns outpoints of the wallet that were free when they were locked,
  whatever happened between listing and locking; they are worth at least the amount, they are all
  locked now, and no other outpoint changed state. A failed selection changes nothing itself.
\<close>

theorem SelectForAmount_sound:
  assumes "utxo_ok s" and "SelectForAmount D others t wid amount s = (r, s')"
  shows "case r of
      Inl _ \<Rightarrow> s' = s \<or> s' = others s
    | Inr (sel, tot) \<Rightarrow>
        amount \<le> tot \<and> distinct sel
        \<and> tot = (\<Sum>op \<leftarrow> sel. parseDec D (uValue (the (map_of (utxos s) op))))
        \<and> (\<forall>op \<in> set sel. map_option uWalletID (map_of (utxos s) op) = Some wid
             \<and> lock_state (others s) op = Some UTXOLockStateFree)
        \<and> (\<forall>op. lock_state s' op =
             (if op \<in> set sel then Some UTXOLockStateLocked else lock_state (others s) op))"
  using assms(2)
proof (cases rule: SelectForAmount_cases)
  case (selected n)
  let ?us = "take n (selection_order D wid s)"
  have mem: "u \<in> set (ListFreeUTXOs wid s)" if "u \<in> set ?us" for u
    using that set_take_subset [of n "selection_order D wid s"] by (auto simp: selection_order_set)
  have get: "map_of (utxos s) (uOutpoint u) = Some u" if "u \<in> set ?us" for u
    using free_utxo_state [OF assms(1) mem [OF that]] .
  have "distinct (map uOutpoint ?us)"
    using selection_order_outpoints [OF assms(1), of D wid] by (simp add: take_map [symmetric])
  moreover have "sum_list (utxo_values D ?us) =
      (\<Sum>op \<leftarrow> map uOutpoint ?us. parseDec D (uValue (the (map_of (utxos s) op))))"
    using get by (simp add: comp_def cong: map_cong)
  moreover have free: "\<forall>op \<in> set (map uOutpoint ?us). lock_state (others s) op = Some UTXOLockStateFree"
    using selected(5) by (simp add: memledger.lock_free)
  moreover have "uWalletID u = wid" if "u \<in> set ?us" for u
    using mem [OF that] by (simp add: free_utxo_mem)
  ultimately show ?thesis
    using selected(2,3,6) get memledger.lock_ok [OF free, of t] by auto
qed simp_all

theorem SelectForAmount_sound_witness:
  "lock_state sample_locked ''a:0'' = Some UTXOLockStateLocked
   \<and> lock_state sample_locked ''c:0'' = lock_state sample_ledger ''c:0''"
  using SelectForAmount_sound [OF sample_ledger_ok sample_select] by simp

text \<open>
  C26: selection succeeds whenever some set of free UTXOs of the wallet reaches the amount, and the
  largest-first order uses no more inputs than any such set.
\<close>

theorem SelectForAmount_complete:
  assumes "utxo_ok s" and "mset us \<subseteq># mset (ListFreeUTXOs wid s)" and "amount \<le> sum_list (utxo_values D us)"
  shows "\<exists>sel tot s'. SelectForAmount D id t wid amount s = (Inr (sel, tot), s') \<and> length sel \<le> length us"
proof -
  let ?l = "selection_order D wid s"
  have "mset us \<subseteq># mset ?l" using assms(2) by (simp add: selection_order_def)
  then have "mset (utxo_values D us) \<subseteq># mset (utxo_values D ?l)"
    by (simp add: image_mset_subseteq_mono)
  from prefix_sum_max [OF selection_sorted this]
  have reach: "amount \<le> sum_list (utxo_values D (take (length us) ?l))"
    using assms(3) by (simp add: take_map)
  obtain r s' where res: "SelectForAmount D id t wid amount s = (r, s')" by fastforce
  from res show ?thesis
  proof (cases rule: SelectForAmount_cases)
    case (selected n)
    have "n \<le> length us" using selected(4) reach by (meson not_le)
    then show ?thesis using res selected(2) by simp
  next
    case (insufficient e)
    moreover have "length us \<le> length ?l"
      using size_mset_mono [OF \<open>mset us \<subseteq># mset ?l\<close>] by simp
    ultimately show ?thesis using reach by (meson not_le)
  next
    case (contended u e)
    then show ?thesis
      using free_utxo_state [OF assms(1) contended(3)] by (simp add: lock_state_def free_utxo_mem)
  qed
qed

theorem SelectForAmount_complete_witness:
  "\<exists>sel tot s'. SelectForAmount frac_lib id 9 ''w'' 8 sample_ledger = (Inr (sel, tot), s') \<and> length sel \<le> 2"
  using SelectForAmount_complete [OF sample_ledger_ok,
      of "[sample_utxo ''a:0'' ''5'', sample_utxo ''c:0'' ''3'']" "''w''" 8 frac_lib 9]
  by (simp add: ListFreeUTXOs_def sample_ledger_def sample_utxo_def New_def utxo_lt_def sample_values
      numeral_2_eq_2)

text \<open>
  C3: no UTXO is given to two selections. However stale the free list that a second selection works
  from, if the outpoints of the first are still locked when the second locks its choice, the two
  choices are disjoint.
\<close>

theorem selections_disjoint:
  assumes "SelectForAmount D others t wid amount s = (Inr (sel, tot), s1)"
    and "SelectForAmount D' others' t' wid' amount' r = (Inr (sel', tot'), s2)"
    and "\<forall>op \<in> set sel. lock_state (others' r) op = lock_state s1 op"
  shows "set sel \<inter> set sel' = {}"
proof -
  have "is_ok (fst (LockUTXOs t sel (others s)))" "s1 = snd (LockUTXOs t sel (others s))"
    using assms(1) by (cases rule: SelectForAmount_cases; simp)+
  then have "\<forall>op \<in> set sel. lock_state (others' r) op = Some UTXOLockStateLocked"
    using assms(3) memledger.lock_ok [of sel "others s" t] by (simp add: memledger.lock_free)
  moreover have "is_ok (fst (LockUTXOs t' sel' (others' r)))"
    using assms(2) by (cases rule: SelectForAmount_cases; simp)
  then have "\<forall>op \<in> set sel'. lock_state (others' r) op = Some UTXOLockStateFree"
    by (simp add: memledger.lock_free)
  ultimately show ?thesis by auto
qed

theorem selections_disjoint_witness:
  "\<exists>sel' tot' s2. SelectForAmount frac_lib id 10 ''w'' 2 sample_locked = (Inr (sel', tot'), s2)
     \<and> {''b:1'', ''a:0''} \<inter> set sel' = {}"
proof -
  have free: "ListFreeUTXOs ''w'' sample_locked = [sample_utxo ''c:0'' ''3'']"
    by (simp add: ListFreeUTXOs_def sample_locked_def LockUTXOs_def sample_ledger_def sample_utxo_def
        lock_utxo_def)
  have "is_ok (fst (LockUTXOs 10 [''c:0''] sample_locked))"
    by (simp add: LockUTXOs_def sample_locked_def sample_ledger_def sample_utxo_def lock_utxo_def)
  then have "\<exists>s2. SelectForAmount frac_lib id 10 ''w'' 2 sample_locked = (Inr ([''c:0''], 3), s2)"
    by (auto simp: SelectForAmount_def Let_def free sample_utxo_def sample_values split: prod.splits elim!: is_okE)
  then obtain sel' tot' s2 where "SelectForAmount frac_lib id 10 ''w'' 2 sample_locked = (Inr (sel', tot'), s2)"
    by blast
  then show ?thesis using selections_disjoint [OF sample_select, of frac_lib id 10] by fastforce
qed

text \<open>
  Releasing a selection undoes it: \<open>Unlock\<close> of the selected outpoints succeeds and every
  outpoint has the lock state it had when the selection locked its choice.
\<close>

lemma Unlock_undoes_selection:
  assumes "SelectForAmount D others t wid amount s = (Inr (sel, tot), s')"
  shows "is_ok (fst (Unlock t sel s')) \<and> lock_state (snd (Unlock t sel s')) = lock_state (others s)"
proof -
  have "is_ok (fst (LockUTXOs t sel (others s)))" "s' = snd (LockUTXOs t sel (others s))"
    using assms by (cases rule: SelectForAmount_cases; simp)+
  then show ?thesis
    using memledger.lock_restore [of t sel "others s"] by (simp add: Unlock_def)
qed

text \<open>
  Every operation of the UTXO service keeps the ledger well formed: rows under their outpoints,
  a declared lock state, and time stamps that agree with it.
\<close>

lemma utxo_service_inv:
  assumes "utxo_ok s" and "utxo_row (uOutpoint u) u"
  shows "utxo_ok (snd (TrackUTXO t u s)) \<and> utxo_ok (snd (SelectForAmount D id t wid amount s))
    \<and> utxo_ok (snd (Unlock t ops s)) \<and> utxo_ok (snd (MarkSpent t ops h s))
    \<and> utxo_ok (snd (RestoreOnReorg t ops s)) \<and> utxo_ok (snd (PruneFinalized ops s))"
proof (intro conjI)
  have until: "rows_ok utxo_row (snd (upd_until_missing (spend_utxo t h) ops (utxos s)))"
    "rows_ok utxo_row (snd (upd_until_missing (restore_utxo t) ops (utxos s)))"
    using assms by (simp_all add: utxo_ok_def rows_ok_until_missing utxo_row_writes)
  show "utxo_ok (snd (TrackUTXO t u s))"
    using assms rows_ok_update [of utxo_row "utxos s" "uOutpoint u" "u\<lparr>uUpdatedAt := t\<rparr>"]
    by (auto simp: TrackUTXO_def InsertUTXO_def utxo_ok_def utxo_row_def split: option.split)
  obtain r s' where res: "SelectForAmount D id t wid amount s = (r, s')" by fastforce
  then have "utxo_ok s'"
    using assms by (cases rule: SelectForAmount_cases) (simp_all add: LockUTXOs_inv)
  then show "utxo_ok (snd (SelectForAmount D id t wid amount s))" by (simp add: res)
  show "utxo_ok (snd (Unlock t ops s))" "utxo_ok (snd (RestoreOnReorg t ops s))"
    using until(2) by (simp_all add: Unlock_def RestoreOnReorg_def RestoreUTXOs_def utxo_ok_def case_prod_beta)
  show "utxo_ok (snd (MarkSpent t ops h s))"
    using until(1) by (simp add: MarkSpent_def MarkUTXOsSpent_def utxo_ok_def case_prod_beta)
  show "utxo_ok (snd (PruneFinalized ops s))"
    using assms by (auto simp: PruneFinalized_def PruneUTXOs_def utxo_ok_def)
qed

end
