(* ===== verification/Cache.thy ===== *)
theory Cache
  imports Prelude
begin

text \<open>
  The process-local derivation cache, \<^verbatim>\<open>MemCache\<close> of \<^verbatim>\<open>internal/cache/cache.go\<close>: entries expire, and an
  expired entry is removed when it is looked up. (The Redis cache behind the same interface is an
  external service.)
\<close>

record memEntry =
  meValue :: string
  meExp :: time

type_synonym mem_cache = "(string, memEntry) gomap"

definition NewMem :: mem_cache where
  "NewMem = []"

definition cache_Get :: "time \<Rightarrow> string \<Rightarrow> mem_cache \<Rightarrow> (string \<times> bool) res \<times> mem_cache" where
  "cache_Get now key m =
     (case map_of m key of
        None \<Rightarrow> (Inr ([], False), AList.delete key m)
      | Some e \<Rightarrow> if now > meExp e then (Inr ([], False), AList.delete key m)
                  else (Inr (meValue e, True), m))"

definition cache_Set :: "time \<Rightarrow> string \<Rightarrow> string \<Rightarrow> int \<Rightarrow> mem_cache \<Rightarrow> unit res \<times> mem_cache" where
  "cache_Set now key v ttl m =
     (Inr (), AList.update key \<lparr>meValue = v, meExp = now + ttl\<rparr> m)"

definition cache_Del :: "string list \<Rightarrow> mem_cache \<Rightarrow> unit res \<times> mem_cache" where
  "cache_Del keys m = (Inr (), fold AList.delete keys m)"

section \<open>The cache contract\<close>

text \<open>
  What memoisation needs: every value in the cache satisfies a predicate of its key, a hit returns
  such a value, and setting one keeps the predicate. \<open>memoise\<close> is the call pattern of the derivers.
\<close>

definition cache_ok :: "(string \<Rightarrow> string \<Rightarrow> bool) \<Rightarrow> mem_cache \<Rightarrow> bool" where
  "cache_ok P m = (\<forall>k e. map_of m k = Some e \<longrightarrow> P k (meValue e))"

definition memoise :: "time \<Rightarrow> int \<Rightarrow> string \<Rightarrow> string res \<Rightarrow> mem_cache \<Rightarrow> string res \<times> mem_cache" where
  "memoise now ttl key compute m =
     (case cache_Get now key m of
        (Inr (v, True), m) \<Rightarrow> (Inr v, m)
      | (_, m) \<Rightarrow> (case compute of
                     Inl e \<Rightarrow> (Inl e, m)
                   | Inr v \<Rightarrow> (Inr v, snd (cache_Set now key v ttl m))))"

locale memo_cache =
  fixes ok :: "'c \<Rightarrow> bool" and valid :: "string \<Rightarrow> string \<Rightarrow> bool"
    and get :: "string \<Rightarrow> 'c \<Rightarrow> (string \<times> bool) res \<times> 'c" and put :: "string \<Rightarrow> string \<Rightarrow> 'c \<Rightarrow> 'c"
  assumes get_valid: "ok c \<Longrightarrow> get k c = (Inr (v, True), c') \<Longrightarrow> valid k v"
    and get_ok: "ok c \<Longrightarrow> ok (snd (get k c))"
    and put_ok: "ok c \<Longrightarrow> valid k v \<Longrightarrow> ok (put k v c)"
begin

lemma hit_or_compute:
  assumes "ok c" and "\<And>v. valid k v \<longleftrightarrow> compute = Inr v" and "get k c = (r, c')"
  shows "(case r of Inr (v, True) \<Rightarrow> Inr v | _ \<Rightarrow> compute) = compute"
  using get_valid [OF assms(1), of k _ c'] assms(2,3) by (auto split: sum.splits bool.splits)

end

interpretation memcache: memo_cache "cache_ok P" P "cache_Get t" "\<lambda>k v m. snd (cache_Set t k v ttl m)" for P t ttl
  by unfold_locales
    (auto simp: cache_ok_def cache_Get_def cache_Set_def split: option.splits if_splits)

text \<open>Memoising a computation does not change its result.\<close>

lemma memoise_ok:
  assumes ok: "cache_ok P m" and P: "\<And>v. P key v \<longleftrightarrow> compute = Inr v"
  shows "fst (memoise t ttl key compute m) = compute \<and> cache_ok P (snd (memoise t ttl key compute m))"
proof -
  obtain r m' where g: "cache_Get t key m = (r, m')" by fastforce
  have ok': "cache_ok P m'" using memcache.get_ok [OF ok, of t key] g by simp
  have hit: "(case r of Inr (v, True) \<Rightarrow> Inr v | _ \<Rightarrow> compute) = compute"
    using memcache.hit_or_compute [OF ok P g] .
  show ?thesis
  proof (cases "\<exists>v. r = Inr (v, True)")
    case True
    then show ?thesis using g hit ok' by (auto simp: memoise_def)
  next
    case False
    then have "memoise t ttl key compute m = (case compute of
        Inl e \<Rightarrow> (Inl e, m') | Inr v \<Rightarrow> (Inr v, snd (cache_Set t key v ttl m')))"
      using g by (auto simp: memoise_def split: sum.splits bool.splits)
    then show ?thesis
      using ok' P memcache.put_ok [OF ok', of key _ t ttl] by (auto split: sum.splits)
  qed
qed

end
