(* ===== verification/World.thy ===== *)
theory World
  imports Memstore Cache
begin

text \<open>
  The state the services share: the store, the locks of the process-local locker
  (\<^verbatim>\<open>internal/lock/lock.go\<close>), the derivation cache, the clock, and the sequence of identifiers that
  \<^verbatim>\<open>uuid.NewV7\<close> and \<^verbatim>\<open>uuid.NewString\<close> hand out. The generator is third-party code: the sequence
  \<open>ids\<close> is a free parameter of the state and \<open>nid\<close> counts how many were used. One service call
  reads one instant, \<open>now\<close>; the environment advances the clock between calls.
\<close>

section \<open>State\<close>

record world =
  db :: store
  locks :: "(string, string) gomap"
  dcache :: mem_cache
  now :: time
  ids :: "nat \<Rightarrow> uuid"
  nid :: nat

text \<open>A freshly started process, with decimal numerals as its identifiers: the concrete state on
  which the theorems of the development are applied.\<close>

definition start_world :: world where
  "start_world = \<lparr>db = New, locks = [], dcache = NewMem, now = 1, ids = show_nat, nid = 0\<rparr>"

lemma start_world_simps [simp]:
  "db start_world = New" "locks start_world = []" "dcache start_world = NewMem" "now start_world = 1"
  "ids start_world = show_nat" "nid start_world = 0"
  by (simp_all add: start_world_def)

lemma inj_show_nat: "inj show_nat"
  by (simp add: inj_def)

definition NewUUID :: "world \<Rightarrow> uuid \<times> world" where
  "NewUUID w = (ids w (nid w), w\<lparr>nid := Suc (nid w)\<rparr>)"

definition on_db :: "(store \<Rightarrow> 'a res \<times> store) \<Rightarrow> world \<Rightarrow> 'a res \<times> world" where
  "on_db f w = (case f (db w) of (r, s) \<Rightarrow> (r, w\<lparr>db := s\<rparr>))"

text \<open>
  \<^verbatim>\<open>InTx\<close> of the in-memory store: the outermost call (depth 0) takes a snapshot and restores it when
  the body fails; a nested call leaves the rollback to the outer one. Only the store is restored.
\<close>

definition InTx :: "nat \<Rightarrow> (world \<Rightarrow> 'a res \<times> world) \<Rightarrow> world \<Rightarrow> 'a res \<times> world" where
  "InTx depth fn w =
     (if depth > 0 then fn w
      else (case fn w of
              (Inl e, w') \<Rightarrow> (Inl e, w'\<lparr>db := db w\<rparr>)
            | (Inr x, w') \<Rightarrow> (Inr x, w')))"

section \<open>The process-local locker\<close>

definition NewMemLocker :: "(string, string) gomap" where
  "NewMemLocker = []"

text \<open>\<^verbatim>\<open>Acquire\<close> draws its token only when the lock is free.\<close>

definition Acquire :: "string \<Rightarrow> world \<Rightarrow> (string \<times> bool) res \<times> world" where
  "Acquire name w =
     (case map_of (locks w) name of
        Some _ \<Rightarrow> (Inr ([], False), w)
      | None \<Rightarrow>
          (case NewUUID w of
             (token, w) \<Rightarrow> (Inr (token, True), w\<lparr>locks := AList.update name token (locks w)\<rparr>)))"

definition Release :: "string \<Rightarrow> string \<Rightarrow> world \<Rightarrow> unit res \<times> world" where
  "Release name token w =
     (case map_of (locks w) name of
        Some cur \<Rightarrow> if cur = token then (Inr (), w\<lparr>locks := AList.delete name (locks w)\<rparr>)
                    else (Inr (), w)
      | None \<Rightarrow> (Inr (), w))"

section \<open>The locker contract\<close>

text \<open>
  What the nonce and rotation services rely on: \<open>holder\<close> is who holds a name, \<open>acquire\<close> takes a
  free name under a token and reports whether it did, \<open>release\<close> frees it for the holder only.
\<close>

locale locker =
  fixes holder :: "'s \<Rightarrow> string \<Rightarrow> string option"
    and acquire :: "string \<Rightarrow> 's \<Rightarrow> (string \<times> bool) \<times> 's"
    and release :: "string \<Rightarrow> string \<Rightarrow> 's \<Rightarrow> 's"
  assumes acquire_free:
      "holder s n = None \<Longrightarrow> acquire n s = ((t, b), s') \<Longrightarrow> b \<and> holder s' = (holder s)(n \<mapsto> t)"
    and acquire_held:
      "holder s n = Some t0 \<Longrightarrow> acquire n s = ((t, b), s') \<Longrightarrow> \<not> b \<and> holder s' = holder s"
    and release_holder: "holder s n = Some t \<Longrightarrow> holder (release n t s) = (holder s)(n := None)"
    and release_other: "holder s n \<noteq> Some t \<Longrightarrow> holder (release n t s) = holder s"
begin

lemma acquire_excludes:
  "acquire n s = ((t, True), s') \<Longrightarrow> acquire n s' = ((t', b), s'') \<Longrightarrow> \<not> b"
proof -
  assume a: "acquire n s = ((t, True), s')" and b: "acquire n s' = ((t', b), s'')"
  have "holder s n = None"
    using acquire_held [OF _ a] by (cases "holder s n") auto
  then have "holder s' n = Some t"
    using acquire_free a by fastforce
  then show ?thesis
    using acquire_held b by blast
qed

lemma acquire_release:
  "acquire n s = ((t, True), s') \<Longrightarrow> holder (release n t s') = holder s"
proof -
  assume a: "acquire n s = ((t, True), s')"
  have n: "holder s n = None"
    using acquire_held [OF _ a] by (cases "holder s n") auto
  then have "holder s' = (holder s)(n \<mapsto> t)"
    using acquire_free a by blast
  then show ?thesis
    using n by (auto simp: release_holder fun_upd_idem)
qed

end

definition mem_acquire :: "string \<Rightarrow> world \<Rightarrow> (string \<times> bool) \<times> world" where
  "mem_acquire n w = (case Acquire n w of (Inr r, w') \<Rightarrow> (r, w') | (Inl _, w') \<Rightarrow> (([], False), w'))"

definition mem_release :: "string \<Rightarrow> string \<Rightarrow> world \<Rightarrow> world" where
  "mem_release n t w = snd (Release n t w)"

interpretation memlk: locker "\<lambda>w. map_of (locks w)" mem_acquire mem_release
  by unfold_locales
    (auto simp: mem_acquire_def mem_release_def Acquire_def Release_def NewUUID_def
      split: option.splits)

section \<open>Lemmas\<close>

lemma on_db_simps [simp]:
  "fst (on_db f w) = fst (f (db w))"
  "db (snd (on_db f w)) = snd (f (db w))"
  "locks (snd (on_db f w)) = locks w"
  "dcache (snd (on_db f w)) = dcache w"
  "now (snd (on_db f w)) = now w"
  "ids (snd (on_db f w)) = ids w"
  "nid (snd (on_db f w)) = nid w"
  by (simp_all add: on_db_def split: prod.splits)

lemma Acquire_ok: "\<exists>r. fst (Acquire n w) = Inr r"
  by (cases "map_of (locks w) n") (auto simp: Acquire_def NewUUID_def)

lemma Acquire_free:
  "map_of (locks w) n = None \<Longrightarrow>
   Acquire n w = (Inr (ids w (nid w), True),
     w\<lparr>nid := Suc (nid w), locks := AList.update n (ids w (nid w)) (locks w)\<rparr>)"
  by (simp add: Acquire_def NewUUID_def)

lemma Acquire_held: "map_of (locks w) n = Some t \<Longrightarrow> Acquire n w = (Inr ([], False), w)"
  by (simp add: Acquire_def)

lemma Acquire_db [frame_simps]: "db (snd (Acquire n w)) = db w"
  by (simp add: Acquire_def NewUUID_def split: option.splits)

lemma Release_db [frame_simps]: "db (snd (Release n t w)) = db w"
  by (simp add: Release_def split: option.splits)

lemma Release_locks:
  "map_of (locks (snd (Release n t w))) =
     (if map_of (locks w) n = Some t then (map_of (locks w))(n := None) else map_of (locks w))"
  by (auto simp: Release_def split: option.splits)

lemma InTx_rollback: "fst (InTx 0 fn w) = Inl e \<Longrightarrow> db (snd (InTx 0 fn w)) = db w"
  by (auto simp: InTx_def split: prod.splits sum.splits)

lemma InTx_commit: "fn w = (Inr x, w') \<Longrightarrow> InTx d fn w = (Inr x, w')"
  by (simp add: InTx_def)

lemma InTx_ok: "InTx 0 fn w = (Inr x, w') \<Longrightarrow> fn w = (Inr x, w')"
  by (auto simp: InTx_def split: prod.splits sum.splits)

end
