(* ===== verification/Nonce.thy ===== *)
theory Nonce
  imports World
begin

text \<open>
  EVM nonces, \<^verbatim>\<open>internal/nonce/nonce.go\<close>: a reservation takes a named lock, increments the pending
  nonce and releases the lock, retrying up to 50 times while the lock is held. The argument
  \<open>others\<close> is what the rest of the system does to the shared state during one sleep.
\<close>

section \<open>Operations\<close>

definition nonce_lock :: "uuid \<Rightarrow> chain \<Rightarrow> string" where
  "nonce_lock wid ch = ''nonce:lock:'' @ wid @ '':'' @ ch"

fun reserve_loop ::
    "nat \<Rightarrow> (world \<Rightarrow> world) \<Rightarrow> uuid \<Rightarrow> chain \<Rightarrow> world \<Rightarrow> int res \<times> world" where
  "reserve_loop 0 others wid ch w = (Inl (ErrText ''nonce lock contention''), w)"
| "reserve_loop (Suc i) others wid ch w =
     (case Acquire (nonce_lock wid ch) w of
        (Inl e, w) \<Rightarrow> (Inl (ErrWrap ''acquire nonce lock'' e), w)
      | (Inr (token, ok), w) \<Rightarrow>
          if \<not> ok then reserve_loop i others wid ch (others w)
          else (case on_db (IncrementPendingNonce (now w) wid ch) w of
                  (r, w) \<Rightarrow>
                    let w = snd (Release (nonce_lock wid ch) token w)
                    in (case r of
                          Inl e \<Rightarrow> (Inl (ErrWrap ''increment pending nonce'' e), w)
                        | Inr (val, _) \<Rightarrow> (Inr val, w))))"

definition ReserveNonce :: "(world \<Rightarrow> world) \<Rightarrow> uuid \<Rightarrow> chain \<Rightarrow> world \<Rightarrow> int res \<times> world" where
  "ReserveNonce others wid ch w = reserve_loop 50 others wid ch w"

definition CommitNonce :: "uuid \<Rightarrow> chain \<Rightarrow> int \<Rightarrow> world \<Rightarrow> unit res \<times> world" where
  "CommitNonce wid ch nonce w = on_db (AdvanceBroadcastNonce (now w) wid ch nonce) w"

definition RollbackNonce :: "uuid \<Rightarrow> chain \<Rightarrow> int \<Rightarrow> world \<Rightarrow> unit res \<times> world" where
  "RollbackNonce wid ch nonce w =
     (case on_db (RollbackPendingNonce (now w) wid ch nonce) w of
        (Inl e, w) \<Rightarrow> (Inl e, w)
      | (Inr _, w) \<Rightarrow> (Inr (), w))"

definition nonce_Get :: "uuid \<Rightarrow> chain \<Rightarrow> world \<Rightarrow> Nonce" where
  "nonce_Get wid ch w = GetNonce wid ch (db w)"

section \<open>The allocator contract\<close>

text \<open>
  An allocator of nonces for one account: \<open>pending\<close> is the next nonce to hand out and \<open>broadcast\<close>
  one more than the highest nonce sent. It promises this while it is \<open>ready\<close> (nobody is in the
  middle of a reservation) and the counter is away from the end of its range.
\<close>

abbreviation max_nonce :: int where
  "max_nonce \<equiv> 2 ^ 63 - 1"

text \<open>
  The users of an allocator: each holds the nonces it reserved until it commits or rolls them back.
  \<open>held\<close> and \<open>sent\<close> are the nonces reserved and not returned, and those committed.
\<close>

record 's nonce_sys =
  base :: 's
  held :: "int set"
  sent :: "int set"

inductive nonce_step ::
    "('s \<Rightarrow> int) \<Rightarrow> (time \<Rightarrow> 's \<Rightarrow> int res \<times> 's) \<Rightarrow> (time \<Rightarrow> int \<Rightarrow> 's \<Rightarrow> unit res \<times> 's)
     \<Rightarrow> (time \<Rightarrow> int \<Rightarrow> 's \<Rightarrow> unit res \<times> 's) \<Rightarrow> 's nonce_sys \<Rightarrow> 's nonce_sys \<Rightarrow> bool"
  for pending :: "'s \<Rightarrow> int" and reserve commit rollback where
  step_reserve: "pending (base c) < max_nonce \<Longrightarrow> reserve t (base c) = (Inr v, s) \<Longrightarrow>
    nonce_step pending reserve commit rollback c \<lparr>base = s, held = insert v (held c), sent = sent c\<rparr>"
| step_commit: "v \<in> held c \<Longrightarrow> commit t v (base c) = (Inr (), s) \<Longrightarrow>
    nonce_step pending reserve commit rollback c
      \<lparr>base = s, held = held c - {v}, sent = insert v (sent c)\<rparr>"
| step_rollback: "v \<in> held c \<Longrightarrow> rollback t v (base c) = (Inr (), s) \<Longrightarrow>
    nonce_step pending reserve commit rollback c \<lparr>base = s, held = held c - {v}, sent = sent c\<rparr>"

text \<open>
  Held and sent nonces are below the pending counter and disjoint, the broadcast counter is at most
  the pending counter, and the nonce just below it is not held.
\<close>

definition pool_inv :: "('s \<Rightarrow> bool) \<Rightarrow> ('s \<Rightarrow> int) \<Rightarrow> ('s \<Rightarrow> int) \<Rightarrow> 's nonce_sys \<Rightarrow> bool" where
  "pool_inv ready pending broadcast c =
     (ready (base c) \<and> 0 \<le> broadcast (base c) \<and> broadcast (base c) \<le> pending (base c)
      \<and> pending (base c) \<le> max_nonce
      \<and> held c \<subseteq> {0..<pending (base c)} \<and> sent c \<subseteq> {0..<pending (base c)} \<and> held c \<inter> sent c = {}
      \<and> broadcast (base c) - 1 \<notin> held c)"

definition pool_init :: "('s \<Rightarrow> bool) \<Rightarrow> ('s \<Rightarrow> int) \<Rightarrow> ('s \<Rightarrow> int) \<Rightarrow> 's nonce_sys \<Rightarrow> bool" where
  "pool_init ready pending broadcast c =
     (ready (base c) \<and> 0 \<le> broadcast (base c) \<and> broadcast (base c) \<le> pending (base c)
      \<and> pending (base c) \<le> max_nonce \<and> held c = {} \<and> sent c = {})"

locale nonce_pool =
  fixes ready :: "'s \<Rightarrow> bool" and pending broadcast :: "'s \<Rightarrow> int"
    and reserve :: "time \<Rightarrow> 's \<Rightarrow> int res \<times> 's"
    and commit :: "time \<Rightarrow> int \<Rightarrow> 's \<Rightarrow> unit res \<times> 's"
    and rollback :: "time \<Rightarrow> int \<Rightarrow> 's \<Rightarrow> unit res \<times> 's"
  assumes reserve_spec: "ready s \<Longrightarrow> 0 \<le> pending s \<Longrightarrow> pending s < max_nonce \<Longrightarrow> reserve t s = (Inr v, s') \<Longrightarrow>
      v = pending s \<and> ready s' \<and> pending s' = pending s + 1 \<and> broadcast s' = broadcast s"
    and commit_spec: "ready s \<Longrightarrow> 0 \<le> v \<Longrightarrow> v < pending s \<Longrightarrow> pending s \<le> max_nonce \<Longrightarrow> commit t v s = (Inr (), s') \<Longrightarrow>
      ready s' \<and> pending s' = pending s \<and> broadcast s' = max (broadcast s) (v + 1)"
    and rollback_spec: "ready s \<Longrightarrow> 0 \<le> v \<Longrightarrow> v < pending s \<Longrightarrow> pending s \<le> max_nonce \<Longrightarrow> rollback t v s = (Inr (), s') \<Longrightarrow>
      ready s' \<and> pending s' = (if pending s = v + 1 then v else pending s) \<and> broadcast s' = broadcast s"
begin

lemma pool_inv_step:
  assumes inv: "pool_inv ready pending broadcast c"
    and step: "nonce_step pending reserve commit rollback c c'"
  shows "pool_inv ready pending broadcast c'"
  using step
proof cases
  case (step_reserve t v s)
  then show ?thesis
    using inv reserve_spec [of "base c" t v s] by (auto simp: pool_inv_def)
next
  case (step_commit v t s)
  moreover have "0 \<le> v" "v < pending (base c)" using inv step_commit by (auto simp: pool_inv_def)
  ultimately show ?thesis
    using inv commit_spec [of "base c" v t s] by (auto simp: pool_inv_def max_def)
next
  case (step_rollback v t s)
  have v: "0 \<le> v" "v < pending (base c)" using inv step_rollback by (auto simp: pool_inv_def)
  have s: "ready s" "pending s = (if pending (base c) = v + 1 then v else pending (base c))"
    "broadcast s = broadcast (base c)"
    using rollback_spec [of "base c" v t s] inv step_rollback v by (simp_all add: pool_inv_def)
  have "x < pending s" if "x \<in> held c - {v} \<or> x \<in> sent c" for x
  proof -
    have "x < pending (base c)" "x \<noteq> v" using that inv step_rollback(2) by (auto simp: pool_inv_def)
    then show ?thesis by (simp add: s)
  qed
  moreover have "broadcast (base c) \<noteq> v + 1"
    using inv step_rollback(2) by (auto simp: pool_inv_def)
  then have "broadcast s \<le> pending s"
    using inv by (auto simp: pool_inv_def s)
  ultimately show ?thesis
    using inv step_rollback(1) s v by (auto simp: pool_inv_def)
qed

lemma pool_inv_init: "pool_init ready pending broadcast c \<Longrightarrow> pool_inv ready pending broadcast c"
  by (simp add: pool_init_def pool_inv_def)

end

sublocale nonce_pool \<subseteq> pool: inductive_inv "pool_init ready pending broadcast"
    "nonce_step pending reserve commit rollback" "pool_inv ready pending broadcast"
  by unfold_locales (erule pool_inv_init, erule (1) pool_inv_step)

context nonce_pool
begin

lemma reserve_fresh:
  assumes "reaches (pool_init ready pending broadcast) (nonce_step pending reserve commit rollback) c"
    and "pending (base c) < max_nonce" and "reserve t (base c) = (Inr v, s')"
  shows "v \<notin> held c \<and> v \<notin> sent c \<and> broadcast (base c) \<le> v"
  using pool.reaches_inv [OF assms(1)] assms(2,3) reserve_spec [of "base c" t v s']
  by (auto simp: pool_inv_def)

end

text \<open>An allocator whose reservations succeed as long as the counter does not overflow.\<close>

locale live_nonce_pool = nonce_pool +
  assumes reserve_ok: "ready s \<Longrightarrow> 0 \<le> pending s \<Longrightarrow> pending s < max_nonce \<Longrightarrow> is_ok (fst (reserve t s))"
begin

lemma reserve_live:
  assumes "reaches (pool_init ready pending broadcast) (nonce_step pending reserve commit rollback) c"
    and "pending (base c) < max_nonce"
  shows "\<exists>v. fst (reserve t (base c)) = Inr v \<and> v \<notin> held c \<and> v \<notin> sent c \<and> broadcast (base c) \<le> v"
proof -
  obtain v s' where r: "reserve t (base c) = (Inr v, s')"
    using reserve_ok [of "base c" t] pool.reaches_inv [OF assms(1)] assms(2)
    by (cases "reserve t (base c)") (auto simp: pool_inv_def elim: is_okE)
  then show ?thesis using reserve_fresh [OF assms r] by simp
qed

end

section \<open>The service as an allocator\<close>

definition lock_free :: "uuid \<Rightarrow> chain \<Rightarrow> world \<Rightarrow> bool" where
  "lock_free wid ch w = (map_of (locks w) (nonce_lock wid ch) = None)"

abbreviation pending_of :: "uuid \<Rightarrow> chain \<Rightarrow> world \<Rightarrow> int" where
  "pending_of wid ch w \<equiv> nPendingNonce (nonce_Get wid ch w)"

abbreviation broadcast_of :: "uuid \<Rightarrow> chain \<Rightarrow> world \<Rightarrow> int" where
  "broadcast_of wid ch w \<equiv> nBroadcastNonce (nonce_Get wid ch w)"

text \<open>A reservation with the lock free returns the pending nonce and changes only its row.\<close>

lemma reserve_loop_free:
  assumes "lock_free wid ch w"
  shows "\<exists>L. reserve_loop (Suc i) others wid ch w =
    (Inr (pending_of wid ch w),
     w\<lparr>nid := Suc (nid w), locks := L, db := snd (IncrementPendingNonce (now w) wid ch (db w))\<rparr>)
    \<and> map_of L = map_of (locks w)"
proof -
  have free: "map_of (locks w) (nonce_lock wid ch) = None" using assms by (simp add: lock_free_def)
  show ?thesis
    by (intro exI [of _ "AList.delete (nonce_lock wid ch)
          (AList.update (nonce_lock wid ch) (ids w (nid w)) (locks w))"])
      (simp add: Acquire_free [OF free] on_db_def IncrementPendingNonce_def Let_def Release_def
        nonce_Get_def free fun_upd_idem)
qed

lemma reserve_loop_held:
  assumes "\<not> lock_free wid ch w"
  shows "reserve_loop (Suc i) others wid ch w = reserve_loop i others wid ch (others w)"
  using assms by (auto simp: lock_free_def Acquire_held)

lemmas nonce_op_defs = CommitNonce_def RollbackNonce_def AdvanceBroadcastNonce_def
  RollbackPendingNonce_def IncrementPendingNonce_def GetNonce_def zero_nonce_def nonce_Get_def
  on_db_def Let_def

lemma ReserveNonce_free:
  assumes "lock_free wid ch w" and "0 \<le> pending_of wid ch w" and "pending_of wid ch w < max_nonce"
  shows "fst (ReserveNonce others wid ch w) = Inr (pending_of wid ch w)
    \<and> lock_free wid ch (snd (ReserveNonce others wid ch w))
    \<and> pending_of wid ch (snd (ReserveNonce others wid ch w)) = pending_of wid ch w + 1
    \<and> broadcast_of wid ch (snd (ReserveNonce others wid ch w)) = broadcast_of wid ch w"
proof -
  obtain L where L: "ReserveNonce others wid ch w = (Inr (pending_of wid ch w),
      w\<lparr>nid := Suc (nid w), locks := L, db := snd (IncrementPendingNonce (now w) wid ch (db w))\<rparr>)"
    "map_of L = map_of (locks w)"
    using reserve_loop_free [OF assms(1), of 49 others] by (auto simp: ReserveNonce_def numeral_eq_Suc)
  then show ?thesis
    using assms by (simp add: lock_free_def nonce_op_defs)
qed

lemma CommitNonce_spec:
  assumes "lock_free wid ch w" and "0 \<le> v" and "v < max_nonce"
  shows "fst (CommitNonce wid ch v w) = Inr () \<and> lock_free wid ch (snd (CommitNonce wid ch v w))
    \<and> pending_of wid ch (snd (CommitNonce wid ch v w)) = pending_of wid ch w
    \<and> broadcast_of wid ch (snd (CommitNonce wid ch v w)) = max (broadcast_of wid ch w) (v + 1)"
  using assms by (auto simp: lock_free_def nonce_op_defs max_def)

lemma RollbackNonce_spec:
  assumes "lock_free wid ch w" and "0 \<le> v" and "v < max_nonce"
  shows "fst (RollbackNonce wid ch v w) = Inr () \<and> lock_free wid ch (snd (RollbackNonce wid ch v w))
    \<and> pending_of wid ch (snd (RollbackNonce wid ch v w)) = (if pending_of wid ch w = v + 1 then v else pending_of wid ch w)
    \<and> broadcast_of wid ch (snd (RollbackNonce wid ch v w)) = broadcast_of wid ch w"
  using assms by (auto simp: lock_free_def nonce_op_defs split: option.splits)

lemma account_clock [simp]:
  "lock_free wid ch (w\<lparr>now := t\<rparr>) = lock_free wid ch w" "nonce_Get wid ch (w\<lparr>now := t\<rparr>) = nonce_Get wid ch w"
  by (simp_all add: lock_free_def nonce_Get_def)

interpretation svc_nonce: live_nonce_pool "lock_free wid ch" "pending_of wid ch" "broadcast_of wid ch"
  "\<lambda>t w. ReserveNonce others wid ch (w\<lparr>now := t\<rparr>)" "\<lambda>t v w. CommitNonce wid ch v (w\<lparr>now := t\<rparr>)"
  "\<lambda>t v w. RollbackNonce wid ch v (w\<lparr>now := t\<rparr>)" for wid ch others
proof unfold_locales
  fix t w v w'
  assume "lock_free wid ch w" "0 \<le> pending_of wid ch w" "pending_of wid ch w < max_nonce"
    "ReserveNonce others wid ch (w\<lparr>now := t\<rparr>) = (Inr v, w')"
  then show "v = pending_of wid ch w \<and> lock_free wid ch w' \<and> pending_of wid ch w' = pending_of wid ch w + 1
      \<and> broadcast_of wid ch w' = broadcast_of wid ch w"
    using ReserveNonce_free [of wid ch "w\<lparr>now := t\<rparr>" others] by simp
next
  fix t v w w'
  assume v: "lock_free wid ch w" "0 \<le> v" "v < pending_of wid ch w" "pending_of wid ch w \<le> max_nonce"
  then show "CommitNonce wid ch v (w\<lparr>now := t\<rparr>) = (Inr (), w') \<Longrightarrow> lock_free wid ch w'
      \<and> pending_of wid ch w' = pending_of wid ch w \<and> broadcast_of wid ch w' = max (broadcast_of wid ch w) (v + 1)"
    using CommitNonce_spec [of wid ch "w\<lparr>now := t\<rparr>" v] by simp
  show "RollbackNonce wid ch v (w\<lparr>now := t\<rparr>) = (Inr (), w') \<Longrightarrow> lock_free wid ch w'
      \<and> pending_of wid ch w' = (if pending_of wid ch w = v + 1 then v else pending_of wid ch w)
      \<and> broadcast_of wid ch w' = broadcast_of wid ch w"
    using v RollbackNonce_spec [of wid ch "w\<lparr>now := t\<rparr>" v] by simp
next
  fix t w
  assume "lock_free wid ch w" "0 \<le> pending_of wid ch w" "pending_of wid ch w < max_nonce"
  then show "is_ok (fst (ReserveNonce others wid ch (w\<lparr>now := t\<rparr>)))"
    using ReserveNonce_free [of wid ch "w\<lparr>now := t\<rparr>" others] by simp
qed

section \<open>Properties\<close>

abbreviation account_step :: "(world \<Rightarrow> world) \<Rightarrow> uuid \<Rightarrow> chain \<Rightarrow> world nonce_sys \<Rightarrow> world nonce_sys \<Rightarrow> bool" where
  "account_step others wid ch \<equiv> nonce_step (pending_of wid ch)
     (\<lambda>t w. ReserveNonce others wid ch (w\<lparr>now := t\<rparr>)) (\<lambda>t v w. CommitNonce wid ch v (w\<lparr>now := t\<rparr>))
     (\<lambda>t v w. RollbackNonce wid ch v (w\<lparr>now := t\<rparr>))"

abbreviation account_init :: "uuid \<Rightarrow> chain \<Rightarrow> world nonce_sys \<Rightarrow> bool" where
  "account_init wid ch \<equiv> pool_init (lock_free wid ch) (pending_of wid ch) (broadcast_of wid ch)"


lemma start_account: "account_init wid ch \<lparr>base = start_world, held = {}, sent = {}\<rparr>"
  by (simp add: pool_init_def lock_free_def nonce_Get_def GetNonce_def zero_nonce_def New_def)

lemma start_reserve:
  "account_step id wid ch \<lparr>base = start_world, held = {}, sent = {}\<rparr>
     \<lparr>base = snd (ReserveNonce id wid ch start_world), held = {0}, sent = {}\<rparr>"
proof -
  have p: "pending_of wid ch start_world = 0"
    by (simp add: nonce_Get_def GetNonce_def zero_nonce_def New_def)
  have "ReserveNonce id wid ch (start_world\<lparr>now := 1\<rparr>) = (Inr 0, snd (ReserveNonce id wid ch start_world))"
    using ReserveNonce_free [of wid ch start_world id] p
    by (simp add: lock_free_def prod_eq_iff start_world_def)
  then have "account_step id wid ch \<lparr>base = start_world, held = {}, sent = {}\<rparr>
      \<lparr>base = snd (ReserveNonce id wid ch start_world), held = insert 0 (held (\<lparr>base = start_world, held = {}, sent = {}\<rparr>)),
       sent = sent (\<lparr>base = start_world, held = {}, sent = {}\<rparr>)\<rparr>"
    using p by (intro step_reserve [where t = 1]) simp_all
  then show ?thesis by simp
qed


text \<open>
  A contended reservation waits for the lock. If the rest of the system leaves the lock free
  after fewer than 50 sleeps, the reservation takes the pending nonce it then finds and writes only
  that account's row; if the lock stays held for all 50 attempts it fails and changes nothing.
\<close>

lemma ReserveNonce_contention:
  "(k < 50 \<longrightarrow> (\<forall>j < k. \<not> lock_free wid ch ((others ^^ j) w)) \<longrightarrow> lock_free wid ch ((others ^^ k) w) \<longrightarrow>
      fst (ReserveNonce others wid ch w) = Inr (pending_of wid ch ((others ^^ k) w))
      \<and> db (snd (ReserveNonce others wid ch w)) =
          snd (IncrementPendingNonce (now ((others ^^ k) w)) wid ch (db ((others ^^ k) w)))
      \<and> map_of (locks (snd (ReserveNonce others wid ch w))) = map_of (locks ((others ^^ k) w)))
   \<and> ((\<forall>j < 50. \<not> lock_free wid ch ((others ^^ j) w)) \<longrightarrow>
      ReserveNonce others wid ch w = (Inl (ErrText ''nonce lock contention''), (others ^^ 50) w))"
proof -
  have wait: "\<forall>j < k. \<not> lock_free wid ch ((others ^^ j) w) \<Longrightarrow>
      reserve_loop (k + i) others wid ch w = reserve_loop i others wid ch ((others ^^ k) w)" for k i w
  proof (induction k arbitrary: w)
    case (Suc k)
    have "\<not> lock_free wid ch w" using Suc.prems by fastforce
    moreover have "\<forall>j < k. \<not> lock_free wid ch ((others ^^ j) (others w))"
      using Suc.prems by (metis Suc_less_eq comp_apply funpow_Suc_right)
    ultimately show ?case
      using Suc.IH [of "others w"] reserve_loop_held [of wid ch w "k + i" others]
      by (simp add: funpow_swap1)
  qed simp
  have "fst (ReserveNonce others wid ch w) = Inr (pending_of wid ch ((others ^^ k) w))
      \<and> db (snd (ReserveNonce others wid ch w)) =
          snd (IncrementPendingNonce (now ((others ^^ k) w)) wid ch (db ((others ^^ k) w)))
      \<and> map_of (locks (snd (ReserveNonce others wid ch w))) = map_of (locks ((others ^^ k) w))"
    if k: "k < 50" "\<forall>j < k. \<not> lock_free wid ch ((others ^^ j) w)" "lock_free wid ch ((others ^^ k) w)"
  proof -
    have "ReserveNonce others wid ch w = reserve_loop (Suc (49 - k)) others wid ch ((others ^^ k) w)"
      using wait [OF k(2), of "50 - k"] k(1) by (simp add: ReserveNonce_def Suc_diff_le [symmetric])
    then show ?thesis
      using reserve_loop_free [OF k(3), of "49 - k" others] by auto
  qed
  moreover have "ReserveNonce others wid ch w = (Inl (ErrText ''nonce lock contention''), (others ^^ 50) w)"
    if "\<forall>j < 50. \<not> lock_free wid ch ((others ^^ j) w)"
    using wait [of 50 w 0] that by (simp add: ReserveNonce_def)
  ultimately show ?thesis by blast
qed

text \<open>
  Rollback is gap-safe. It moves the pending counter back only when the returned nonce is the last
  one reserved, so rolling back right after a reservation undoes it, and a rollback after a later
  reservation changes nothing; no other account is affected.
\<close>

lemma RollbackNonce_gap_safe:
  assumes "lock_free wid ch w" and "0 \<le> v" and "v < max_nonce"
  shows "is_ok (fst (RollbackNonce wid ch v w))
    \<and> (pending_of wid ch w = v + 1 \<longrightarrow> pending_of wid ch (snd (RollbackNonce wid ch v w)) = v)
    \<and> (pending_of wid ch w \<noteq> v + 1 \<longrightarrow> snd (RollbackNonce wid ch v w) = w)
    \<and> broadcast_of wid ch (snd (RollbackNonce wid ch v w)) = broadcast_of wid ch w
    \<and> (uuid_wf wid \<longrightarrow> uuid_wf wid' \<longrightarrow> (wid', ch') \<noteq> (wid, ch) \<longrightarrow>
        nonce_Get wid' ch' (snd (RollbackNonce wid ch v w)) = nonce_Get wid' ch' w)"
  using assms by (auto simp: nonce_op_defs nonceKey_inject split: option.splits)

end
