(* ===== verification/Outbox.thy ===== *)
theory Outbox
  imports World
begin

text \<open>
  The audit outbox, \<^verbatim>\<open>internal/audit/audit.go\<close>: events are written to the store by \<open>Emit\<close>, and the
  background drainer delivers them through a sink with \<open>Drain\<close>. The sink (Kafka) is an argument.
\<close>

section \<open>Operations\<close>

record Event =
  evType :: string
  evWalletID :: "uuid option"
  evPayload :: payload

definition Emit :: "Event \<Rightarrow> world \<Rightarrow> unit res \<times> world" where
  "Emit ev w =
     (case (case evWalletID ev of
              Some wid \<Rightarrow> on_db (NextAuditSeq wid) w
            | None \<Rightarrow> (Inr (UnixNano (now w)), w)) of
        (Inl e, w) \<Rightarrow> (Inl (ErrWrap ''next audit seq'' e), w)
      | (Inr sq, w) \<Rightarrow>
          (case NewUUID w of (rowID, w) \<Rightarrow>
           (case NewUUID w of (eventID, w) \<Rightarrow>
              on_db (AppendAuditEvent (now w)
                \<lparr>eID = rowID, eEventID = eventID, eWalletID = evWalletID ev,
                 eEventType = evType ev, ePayload = evPayload ev, eSeq = sq, eDelivered = False,
                 eAttempts = 0, eCreatedAt = now w, eDeliveredAt = None\<rparr>) w)))"

text \<open>
  The emitter a service is wired to: \<^verbatim>\<open>nil\<close>, the \<^verbatim>\<open>NoopEmitter\<close>, or the outbox. \<open>emit\<close> is the call
  pattern of every service: skipped for \<^verbatim>\<open>nil\<close>, its error dropped otherwise.
\<close>

datatype Emitter = NilEmitter | NoopEmitter | EmitterService

definition emit :: "Emitter \<Rightarrow> Event \<Rightarrow> world \<Rightarrow> world" where
  "emit em ev w = (case em of EmitterService \<Rightarrow> snd (Emit ev w) | _ \<Rightarrow> w)"

fun mark_all :: "time \<Rightarrow> AuditOutboxEvent list \<Rightarrow> store \<Rightarrow> unit res \<times> store" where
  "mark_all t [] s = (Inr (), s)"
| "mark_all t (e # es) s =
     (case MarkAuditDelivered t (eID e) s of
        (Inl err, s) \<Rightarrow> (Inl err, s)
      | (Inr _, s) \<Rightarrow> mark_all t es s)"

definition Drain ::
    "(AuditOutboxEvent list \<Rightarrow> unit res) option \<Rightarrow> world \<Rightarrow> unit res \<times> world" where
  "Drain sink w =
     (let events = ListUndeliveredAuditEvents 100 (db w)
      in if events = [] then (Inr (), w)
         else (case (case sink of None \<Rightarrow> Inr () | Some deliver \<Rightarrow> deliver events) of
                 Inl e \<Rightarrow> (Inl e, w)
               | Inr _ \<Rightarrow> on_db (mark_all (now w) events) w))"

section \<open>Invariant\<close>

definition wallet_events :: "uuid \<Rightarrow> store \<Rightarrow> AuditOutboxEvent list" where
  "wallet_events wid s = filter (\<lambda>e. eWalletID e = Some wid) (auditOutbox s)"

text \<open>
  Rows and events carry distinct ids that were all drawn from the generator, and the events of one
  wallet are numbered 1, 2, 3, \<dots> up to its counter, in outbox order.
\<close>

definition ids_used :: "world \<Rightarrow> uuid set" where
  "ids_used w = ids w ` {..<nid w}"

definition audit_ids_ok :: "world \<Rightarrow> bool" where
  "audit_ids_ok w =
     (inj (ids w)
      \<and> distinct (map eID (auditOutbox (db w))) \<and> distinct (map eEventID (auditOutbox (db w)))
      \<and> (\<forall>e \<in> set (auditOutbox (db w)). eID e \<in> ids_used w \<and> eEventID e \<in> ids_used w))"

definition audit_seq_ok :: "store \<Rightarrow> bool" where
  "audit_seq_ok s =
     (\<forall>wid. 0 \<le> get_int (auditSeqCounters s) wid \<and> get_int (auditSeqCounters s) wid < 2 ^ 63
        \<and> map eSeq (wallet_events wid s) = [1..get_int (auditSeqCounters s) wid])"

section \<open>Emitting\<close>

lemma ids_used_Suc [simp]: "ids_used (w\<lparr>nid := Suc (nid w)\<rparr>) = insert (ids w (nid w)) (ids_used w)"
  by (auto simp: ids_used_def lessThan_Suc)

lemma next_id_fresh: "inj (ids w) \<Longrightarrow> ids w (nid w + k) \<notin> ids_used w"
  by (auto simp: ids_used_def inj_def)

lemma emit_frame [frame_simps]:
  "wallets (db (emit em ev w)) = wallets (db w)"
  "addresses (db (emit em ev w)) = addresses (db w)"
  "balances (db (emit em ev w)) = balances (db w)"
  "balanceEvents (db (emit em ev w)) = balanceEvents (db w)"
  "utxos (db (emit em ev w)) = utxos (db w)"
  "nonces (db (emit em ev w)) = nonces (db w)"
  "withdrawals (db (emit em ev w)) = withdrawals (db w)"
  "keyMappings (db (emit em ev w)) = keyMappings (db w)"
  "fundingReq (db (emit em ev w)) = fundingReq (db w)"
  "inflightWithdrawals (db (emit em ev w)) = inflightWithdrawals (db w)"
  "locks (emit em ev w) = locks w" "dcache (emit em ev w) = dcache w" "now (emit em ev w) = now w" "ids (emit em ev w) = ids w"
  by (simp_all add: emit_def Emit_def on_db_def NextAuditSeq_def NewUUID_def AppendAuditEvent_def
      Let_def split: Emitter.split option.split)

interpretation audit_log: dedup_log eEventID "\<lambda>s k. \<exists>e \<in> set (auditOutbox s). eEventID e = k"
  "AppendAuditEvent t" ErrDuplicateAudit for t
  by unfold_locales (auto simp: AppendAuditEvent_def Let_def)

lemma emit_nid: "nid w \<le> nid (emit em ev w)"
  by (simp add: emit_def Emit_def on_db_def NextAuditSeq_def NewUUID_def AppendAuditEvent_def
      Let_def split: Emitter.split option.split)

text \<open>
  With distinct generated ids an emission always reaches the outbox: the row below is appended, and
  the wallet's counter holds its sequence number.
\<close>

definition next_seq :: "uuid \<Rightarrow> world \<Rightarrow> int" where
  "next_seq wid w = wrap64 (get_int (auditSeqCounters (db w)) wid + 1)"

definition emitted_row :: "uuid \<Rightarrow> Event \<Rightarrow> world \<Rightarrow> AuditOutboxEvent" where
  "emitted_row wid ev w =
     \<lparr>eID = ids w (nid w), eEventID = ids w (Suc (nid w)), eWalletID = Some wid,
      eEventType = evType ev, ePayload = evPayload ev, eSeq = next_seq wid w, eDelivered = False,
      eAttempts = 0, eCreatedAt = now w, eDeliveredAt = None\<rparr>"

definition emitted :: "uuid \<Rightarrow> Event \<Rightarrow> world \<Rightarrow> world" where
  "emitted wid ev w = w\<lparr>nid := Suc (Suc (nid w)),
     db := (db w)\<lparr>auditSeqCounters := AList.update wid (next_seq wid w) (auditSeqCounters (db w)),
                 auditOutbox := auditOutbox (db w) @ [emitted_row wid ev w]\<rparr>\<rparr>"

lemma emitted_simps [simp]:
  "auditOutbox (db (emitted wid ev w)) = auditOutbox (db w) @ [emitted_row wid ev w]"
  "auditSeqCounters (db (emitted wid ev w)) =
     AList.update wid (next_seq wid w) (auditSeqCounters (db w))"
  "ids (emitted wid ev w) = ids w" "nid (emitted wid ev w) = Suc (Suc (nid w))"
  by (simp_all add: emitted_def)

lemma fresh_event_id:
  assumes "audit_ids_ok w"
  shows "ids w (nid w + k) \<notin> eEventID ` set (auditOutbox (db w))"
    and "ids w (nid w + k) \<notin> eID ` set (auditOutbox (db w))"
  using assms next_id_fresh [of w k] by (auto simp: audit_ids_ok_def)

lemma Emit_eq:
  assumes ok: "audit_ids_ok w" and ev: "evWalletID ev = Some wid"
  shows "Emit ev w = (Inr (), emitted wid ev w)"
proof -
  have "\<not> (\<exists>ex \<in> set (auditOutbox (db w)). eEventID ex = ids w (Suc (nid w)))"
    using fresh_event_id(1) [OF ok, of 1] by (auto simp: image_iff)
  then show ?thesis
    by (cases "IsZero (now w)")
      (simp_all add: Emit_def ev on_db_def NextAuditSeq_def NewUUID_def AppendAuditEvent_def Let_def
        emitted_def emitted_row_def next_seq_def)
qed

lemma Emit_ids_ok:
  assumes ok: "audit_ids_ok w" and ev: "evWalletID ev = Some wid"
  shows "audit_ids_ok (snd (Emit ev w))"
proof -
  have used: "ids_used (emitted wid ev w) = {ids w (nid w), ids w (Suc (nid w))} \<union> ids_used w"
    by (auto simp: ids_used_def lessThan_Suc)
  show ?thesis
    using ok fresh_event_id(1) [OF ok, of 1] fresh_event_id(2) [OF ok, of 0]
    by (auto simp: Emit_eq [OF ok ev] audit_ids_ok_def used emitted_row_def)
qed

lemma Emit_seq_ok:
  assumes ok: "audit_ids_ok w" and sq: "audit_seq_ok (db w)" and ev: "evWalletID ev = Some wid"
    and bound: "get_int (auditSeqCounters (db w)) wid + 1 < 2 ^ 63"
  shows "audit_seq_ok (db (snd (Emit ev w)))"
proof -
  let ?c = "get_int (auditSeqCounters (db w)) wid"
  have c: "0 \<le> ?c" using sq by (simp add: audit_seq_ok_def)
  then have nxt: "next_seq wid w = ?c + 1" using bound by (simp add: next_seq_def)
  have cnt: "get_int (AList.update wid (next_seq wid w) (auditSeqCounters (db w))) v =
      (if v = wid then ?c + 1 else get_int (auditSeqCounters (db w)) v)" for v
    by (simp add: get_int_def nxt)
  have evs: "map eSeq (wallet_events v (db (emitted wid ev w))) =
      map eSeq (wallet_events v (db w)) @ (if v = wid then [?c + 1] else [])" for v
    by (simp add: wallet_events_def emitted_row_def nxt)
  have "[1..?c + 1] = [1..?c] @ [?c + 1]"
    using c upto_rec2 [of 1 "?c + 1"] by simp
  then show ?thesis
    using sq c bound by (simp add: Emit_eq [OF ok ev] audit_seq_ok_def cnt evs)
qed

section \<open>Draining\<close>

interpretation audit_ord: less_order audit_lt
  by unfold_locales (auto simp: audit_lt_def)

definition mark_row :: "time \<Rightarrow> AuditOutboxEvent \<Rightarrow> AuditOutboxEvent" where
  "mark_row t e = e\<lparr>eDelivered := True, eAttempts := wrap64 (eAttempts e + 1), eDeliveredAt := Some t\<rparr>"

definition undelivered :: "store \<Rightarrow> AuditOutboxEvent list" where
  "undelivered s = filter (\<lambda>e. \<not> eDelivered e) (auditOutbox s)"

abbreviation batch :: "store \<Rightarrow> AuditOutboxEvent list" where
  "batch \<equiv> ListUndeliveredAuditEvents 100"

lemma mark_row_simps [simp]: "eID (mark_row t e) = eID e" "eEventID (mark_row t e) = eEventID e"
  "eDelivered (mark_row t e)"
  by (simp_all add: mark_row_def)

lemma mark_first_eq:
  "distinct (map eID es) \<Longrightarrow> i \<in> eID ` set es \<Longrightarrow>
   mark_first t i es = Some (map (\<lambda>e. if eID e = i then mark_row t e else e) es)"
proof (induction es)
  case Nil
  then show ?case by simp
next
  case (Cons e es)
  show ?case
  proof (cases "eID e = i")
    case True
    then have "map (\<lambda>e. if eID e = i then mark_row t e else e) es = es"
      using Cons.prems by (intro map_idI) (auto simp: image_iff)
    with True show ?thesis by (simp add: mark_row_def)
  next
    case False
    with Cons show ?thesis by auto
  qed
qed

lemma mark_all_eq:
  "distinct (map eID (auditOutbox s)) \<Longrightarrow> distinct (map eID es) \<Longrightarrow>
   eID ` set es \<subseteq> eID ` set (auditOutbox s) \<Longrightarrow>
   mark_all t es s = (Inr (), s\<lparr>auditOutbox :=
     map (\<lambda>e. if eID e \<in> eID ` set es then mark_row t e else e) (auditOutbox s)\<rparr>)"
proof (induction es arbitrary: s)
  case Nil
  then show ?case by simp
next
  case (Cons x es)
  define m where "m = map (\<lambda>e. if eID e = eID x then mark_row t e else e) (auditOutbox s)"
  have ids: "map eID m = map eID (auditOutbox s)" by (simp add: m_def)
  then have idset: "eID ` set m = eID ` set (auditOutbox s)" by (metis set_map)
  have step: "MarkAuditDelivered t (eID x) s = (Inr (), s\<lparr>auditOutbox := m\<rparr>)"
    using Cons.prems mark_first_eq [of "auditOutbox s" "eID x" t]
    by (simp add: MarkAuditDelivered_def m_def)
  have "mark_all t (x # es) s = mark_all t es (s\<lparr>auditOutbox := m\<rparr>)"
    by (simp add: step)
  also have "\<dots> = (Inr (), s\<lparr>auditOutbox :=
      map (\<lambda>e. if eID e \<in> eID ` set es then mark_row t e else e) m\<rparr>)"
    using Cons.IH [of "s\<lparr>auditOutbox := m\<rparr>"] Cons.prems by (simp add: ids idset)
  also have "map (\<lambda>e. if eID e \<in> eID ` set es then mark_row t e else e) m =
      map (\<lambda>e. if eID e \<in> eID ` set (x # es) then mark_row t e else e) (auditOutbox s)"
    using Cons.prems by (auto simp: m_def)
  finally show ?case .
qed

lemma batch_take: "batch s = take 100 (sort_Slice audit_lt (undelivered s))"
  by (simp add: ListUndeliveredAuditEvents_def undelivered_def Let_def)

lemma distinct_undelivered:
  "distinct (map eID (auditOutbox s)) \<Longrightarrow> distinct (map eID (undelivered s))"
  by (simp add: undelivered_def distinct_map_filter)

lemma batch_ids:
  assumes "distinct (map eID (auditOutbox s))"
  shows "distinct (map eID (batch s))" and "set (batch s) \<subseteq> set (undelivered s)"
proof -
  show "distinct (map eID (batch s))"
    unfolding batch_take take_map [symmetric]
    by (rule distinct_take) (simp add: distinct_undelivered [OF assms])
  show "set (batch s) \<subseteq> set (undelivered s)"
    using set_take_subset [of 100 "sort_Slice audit_lt (undelivered s)"] by (simp add: batch_take)
qed

lemma batch_Nil: "batch s = [] \<longleftrightarrow> undelivered s = []"
  by (simp add: batch_take)

lemma undelivered_subset: "set (undelivered s) \<subseteq> set (auditOutbox s)"
  by (auto simp: undelivered_def)

text \<open>A drain whose delivery succeeds marks exactly the rows of its batch.\<close>

lemma Drain_ok:
  assumes ok: "audit_ids_ok w"
    and del: "case sink of None \<Rightarrow> True | Some deliver \<Rightarrow> is_ok (deliver (batch (db w)))"
  shows "Drain sink w = (Inr (), w\<lparr>db := (db w)\<lparr>auditOutbox :=
     map (\<lambda>e. if e \<in> set (batch (db w)) then mark_row (now w) e else e) (auditOutbox (db w))\<rparr>\<rparr>)"
proof -
  have dis: "distinct (map eID (auditOutbox (db w)))" using ok by (simp add: audit_ids_ok_def)
  have sub: "set (batch (db w)) \<subseteq> set (auditOutbox (db w))"
    using batch_ids(2) [OF dis] undelivered_subset by blast
  have "e \<in> set (batch (db w)) \<longleftrightarrow> eID e \<in> eID ` set (batch (db w))"
    if "e \<in> set (auditOutbox (db w))" for e
    using that sub dis by (auto simp: distinct_map inj_on_def image_iff)
  then have same: "map (\<lambda>e. if eID e \<in> eID ` set (batch (db w)) then mark_row (now w) e else e)
      (auditOutbox (db w)) =
      map (\<lambda>e. if e \<in> set (batch (db w)) then mark_row (now w) e else e) (auditOutbox (db w))"
    by simp
  have mark: "mark_all (now w) (batch (db w)) (db w) = (Inr (), (db w)\<lparr>auditOutbox :=
      map (\<lambda>e. if e \<in> set (batch (db w)) then mark_row (now w) e else e) (auditOutbox (db w))\<rparr>)"
    using mark_all_eq [OF dis batch_ids(1) [OF dis], of "now w"] sub same by auto
  show ?thesis
  proof (cases "batch (db w) = []")
    case True
    then show ?thesis by (simp add: Drain_def Let_def)
  next
    case False
    have "(case sink of None \<Rightarrow> Inr () | Some deliver \<Rightarrow> deliver (batch (db w))) = Inr ()"
      using del by (auto split: option.splits elim: is_okE)
    with False mark show ?thesis by (simp add: Drain_def Let_def on_db_def)
  qed
qed

lemma filter_notin_prefix: "distinct (xs @ ys) \<Longrightarrow> filter (\<lambda>x. x \<notin> set xs) (xs @ ys) = ys"
  by (auto simp: filter_empty_conv intro!: filter_True)

lemma filter_notin_take: "distinct xs \<Longrightarrow> filter (\<lambda>x. x \<notin> set (take n xs)) xs = drop n xs"
  using filter_notin_prefix [of "take n xs" "drop n xs"] by simp

lemma Drain_undelivered:
  assumes ok: "audit_ids_ok w"
    and del: "case sink of None \<Rightarrow> True | Some deliver \<Rightarrow> is_ok (deliver (batch (db w)))"
  shows "undelivered (db (snd (Drain sink w))) =
    filter (\<lambda>e. e \<notin> set (batch (db w))) (undelivered (db w))"
proof -
  have "filter (\<lambda>e. \<not> eDelivered e) (map (\<lambda>e. if e \<in> B then mark_row t e else e) es) =
      filter (\<lambda>e. e \<notin> B) (filter (\<lambda>e. \<not> eDelivered e) es)" for B t es
    by (induction es) auto
  then show ?thesis by (simp add: Drain_ok [OF ok del] undelivered_def)
qed

lemma Drain_ids_ok:
  assumes ok: "audit_ids_ok w"
    and del: "case sink of None \<Rightarrow> True | Some deliver \<Rightarrow> is_ok (deliver (batch (db w)))"
  shows "audit_ids_ok (snd (Drain sink w))"
proof -
  define f where "f = (\<lambda>e. if e \<in> set (batch (db w)) then mark_row (now w) e else e)"
  have f: "eID (f e) = eID e" "eEventID (f e) = eEventID e" for e
    by (simp_all add: f_def)
  have m: "map eID (map f es) = map eID es" "map eEventID (map f es) = map eEventID es" for es
    by (simp_all add: f)
  have d: "snd (Drain sink w) = w\<lparr>db := (db w)\<lparr>auditOutbox := map f (auditOutbox (db w))\<rparr>\<rparr>"
    by (simp add: Drain_ok [OF ok del] f_def)
  show ?thesis
    using ok unfolding audit_ids_ok_def d by (simp add: m ids_used_def f del: map_map)
qed

lemma Drain_count:
  assumes ok: "audit_ids_ok w"
    and del: "case sink of None \<Rightarrow> True | Some deliver \<Rightarrow> is_ok (deliver (batch (db w)))"
  shows "length (undelivered (db (snd (Drain sink w)))) = length (undelivered (db w)) - 100"
proof -
  let ?l = "sort_Slice audit_lt (undelivered (db w))"
  have "distinct (map eID ?l)"
    using ok distinct_undelivered by (simp add: audit_ids_ok_def)
  then have "distinct ?l" by (simp add: distinct_map)
  then have "filter (\<lambda>e. e \<notin> set (batch (db w))) ?l = drop 100 ?l"
    unfolding batch_take by (rule filter_notin_take)
  then have "size (filter_mset (\<lambda>e. e \<notin> set (batch (db w))) (mset ?l)) = length (undelivered (db w)) - 100"
    by (metis length_drop length_sort_Slice mset_filter size_mset)
  then show ?thesis
    by (simp add: Drain_undelivered [OF ok del] mset_filter [symmetric] del: mset_filter)
qed

lemma Drain_iterate:
  assumes del: "\<forall>es. is_ok (deliver es)"
  shows "audit_ids_ok w \<Longrightarrow>
    length (undelivered (db (((\<lambda>w. snd (Drain (Some deliver) w)) ^^ k) w))) =
    length (undelivered (db w)) - 100 * k"
proof (induction k arbitrary: w)
  case 0
  then show ?case by simp
next
  case (Suc k)
  have 1: "audit_ids_ok (snd (Drain (Some deliver) w))"
    using Drain_ids_ok [of w "Some deliver"] Suc.prems del by simp
  have 2: "length (undelivered (db (snd (Drain (Some deliver) w)))) = length (undelivered (db w)) - 100"
    using Drain_count [of w "Some deliver"] Suc.prems del by simp
  show ?case
    using Suc.IH [OF 1] 2 by (simp add: funpow_swap1 del: funpow.simps add: funpow_Suc_right)
qed

lemma start_audit_ok: "audit_ids_ok start_world" "audit_seq_ok (db start_world)"
  by (simp_all add: audit_ids_ok_def audit_seq_ok_def wallet_events_def New_def get_int_def
      inj_show_nat)

definition sample_event :: Event where
  "sample_event = \<lparr>evType = ''wallet.created'', evWalletID = Some ''w'', evPayload = []\<rparr>"

definition two_event_world :: world where
  "two_event_world = emitted ''w'' sample_event (emitted ''w'' sample_event start_world)"

lemma two_event_ids_ok: "audit_ids_ok two_event_world"
proof -
  have ev: "evWalletID sample_event = Some ''w''" by (simp add: sample_event_def)
  have 1: "audit_ids_ok (emitted ''w'' sample_event start_world)"
    using Emit_ids_ok [OF start_audit_ok(1) ev] by (simp add: Emit_eq [OF start_audit_ok(1) ev])
  show ?thesis
    using Emit_ids_ok [OF 1 ev] by (simp add: Emit_eq [OF 1 ev] two_event_world_def)
qed

lemma two_event_outbox:
  "map eSeq (undelivered (db two_event_world)) = [1, 2]"
  "map eSeq (batch (db two_event_world)) = [1, 2]"
  by (simp_all add: two_event_world_def undelivered_def New_def emitted_row_def next_seq_def get_int_def
      ListUndeliveredAuditEvents_def audit_lt_def Let_def)

section \<open>Properties\<close>



text \<open>
  When the sink fails nothing is marked; when it accepts, exactly the rows of the batch it was
  given are marked delivered and every other row is as it was. No event is lost or marked without
  having been handed to the sink.
\<close>

lemma Drain_at_least_once:
  assumes "audit_ids_ok w"
  shows "case deliver (batch (db w)) of
      Inl e \<Rightarrow> undelivered (db w) \<noteq> [] \<longrightarrow> Drain (Some deliver) w = (Inl e, w)
    | Inr _ \<Rightarrow> is_ok (fst (Drain (Some deliver) w))
        \<and> auditOutbox (db (snd (Drain (Some deliver) w))) =
            map (\<lambda>e. if e \<in> set (batch (db w)) then mark_row (now w) e else e) (auditOutbox (db w))
        \<and> undelivered (db (snd (Drain (Some deliver) w))) =
            filter (\<lambda>e. e \<notin> set (batch (db w))) (undelivered (db w))"
proof (cases "deliver (batch (db w))")
  case (Inl e)
  then show ?thesis
    using batch_Nil [of "db w"] by (simp add: Drain_def Let_def)
next
  case (Inr u)
  then have del: "case Some deliver of None \<Rightarrow> True | Some deliver \<Rightarrow> is_ok (deliver (batch (db w)))"
    by simp
  show ?thesis
    using Inr Drain_ok [OF assms del] Drain_undelivered [OF assms del] by simp
qed

text \<open>
  A batch respects the numbering: an undelivered event with a smaller sequence number than an
  event of the batch is in the batch too, before it.
\<close>

lemma batch_in_order:
  assumes "i < length (batch s)" and "e \<in> set (undelivered s)" and "eSeq e < eSeq (batch s ! i)"
  shows "\<exists>j < i. batch s ! j = e"
proof -
  let ?l = "sort_Slice audit_lt (undelivered s)"
  have i: "i < length ?l" "i < 100" "batch s ! i = ?l ! i" using assms(1) by (simp_all add: batch_take)
  obtain j where j: "j < length ?l" "?l ! j = e"
    using assms(2) by (metis in_set_conv_nth set_sort_Slice)
  have "\<not> i < j"
    using sorted_wrt_nth_less [OF audit_ord.sorted_sort_Slice, of i j "undelivered s"] j i assms(3)
    by (auto simp: audit_lt_def)
  moreover have "i \<noteq> j" using j i assms(3) by auto
  ultimately show ?thesis using j i by (auto simp: batch_take intro!: exI [of _ j])
qed

text \<open>
  C30: with a sink that accepts every batch, the drainer empties the outbox: each pass delivers up to
  100 events, so an outbox of at most 100 k undelivered events is empty after k passes.
\<close>

theorem Drain_empties:
  assumes "audit_ids_ok w" and "\<forall>es. is_ok (deliver es)" and "length (undelivered (db w)) \<le> 100 * k"
  shows "undelivered (db (((\<lambda>w. snd (Drain (Some deliver) w)) ^^ k) w)) = []"
  using Drain_iterate [OF assms(2,1), of k] assms(3) by simp

theorem Drain_empties_witness:
  "undelivered (db (((\<lambda>w. snd (Drain (Some (\<lambda>_. Inr ())) w)) ^^ 1) two_event_world)) = []"
proof (rule Drain_empties [OF two_event_ids_ok])
  show "length (undelivered (db two_event_world)) \<le> 100 * 1"
    using arg_cong [OF two_event_outbox(1), of length] by simp
qed simp

end
