(* ===== verification/Balance.thy ===== *)
theory Balance
  imports Decimal Config Outbox
begin

text \<open>
  Balances, \<^verbatim>\<open>internal/balance/balance.go\<close>: deposits are recorded once per event and added to the
  confirmed or pending amount of their (wallet, asset) row, reorgs demote confirmed value, and
  withdrawals move a locked portion. The two hooks that the main program wires in
  (\<^verbatim>\<open>UTXORestore\<close>, \<^verbatim>\<open>OnConfirmedDecrease\<close>) are arguments.
\<close>

section \<open>Operations\<close>

record ConfirmationEvent =
  ceWalletID :: uuid
  ceAsset :: string
  ceAmount :: string
  ceConfirmations :: int
  ceBlockHeight :: int
  ceEventID :: string
  ceIsFinalized :: bool
  ceChain :: chain

record ReorgEvent =
  reWalletID :: uuid
  reAsset :: string
  reBlockHeight :: int
  reEventID :: string
  reOutpoints :: "string list"

definition threshold :: "Config \<Rightarrow> chain \<Rightarrow> int" where
  "threshold cfg ch =
     (if ch = ChainBitcoin then cConfirmationsBTC cfg
      else if ch = ChainSolana then 1
      else if IsEVM ch then cConfirmationsEVM cfg
      else cConfirmationsEVM cfg)"

definition isConfirmed :: "Config \<Rightarrow> ConfirmationEvent \<Rightarrow> bool" where
  "isConfirmed cfg ev =
     (if ceChain ev = ChainSolana then ceIsFinalized ev
      else ceConfirmations ev \<ge> threshold cfg (ceChain ev))"

definition max64 :: "int \<Rightarrow> int \<Rightarrow> int" where
  "max64 a b = (if a > b then a else b)"

definition empty_balance :: "uuid \<Rightarrow> string \<Rightarrow> Balance" where
  "empty_balance wid asset = \<lparr>bWalletID = wid, bAsset = asset, bConfirmed = [], bPending = [],
     bLocked = [], bLastBlockSeen = 0, bUpdatedAt = 0\<rparr>"

text \<open>The body of the transaction in \<^verbatim>\<open>ApplyConfirmationEvent\<close>.\<close>

definition confirm_tx ::
    "declib \<Rightarrow> Config \<Rightarrow> Emitter \<Rightarrow> ConfirmationEvent \<Rightarrow> world \<Rightarrow> unit res \<times> world" where
  "confirm_tx D cfg em ev w =
     (case (case GetBalance (ceWalletID ev) (ceAsset ev) (db w) of
              Inl e \<Rightarrow> if errors_Is e ErrNoRows then Inr (empty_balance (ceWalletID ev) (ceAsset ev))
                       else Inl e
            | Inr b \<Rightarrow> Inr b) of
        Inl e \<Rightarrow> (Inl e, w)
      | Inr cur \<Rightarrow>
          (let confirmed = parseDec D (bConfirmed cur);
               pend = parseDec D (bPending cur);
               amount = parseDec D (ceAmount ev);
               confirmed' = (if isConfirmed cfg ev then confirmed + amount else confirmed);
               pend' = (if isConfirmed cfg ev then pend else pend + amount);
               upd = \<lparr>bWalletID = ceWalletID ev, bAsset = ceAsset ev,
                      bConfirmed = formatDec D confirmed', bPending = formatDec D pend',
                      bLocked = bLocked cur,
                      bLastBlockSeen = max64 (bLastBlockSeen cur) (ceBlockHeight ev),
                      bUpdatedAt = now w\<rparr>
           in (case on_db (UpsertBalance (now w) upd) w of
                 (Inl e, w) \<Rightarrow> (Inl e, w)
               | (Inr _, w) \<Rightarrow>
                   (Inr (), emit em \<lparr>evType = ''wallet.balance.updated'',
                      evWalletID = Some (ceWalletID ev),
                      evPayload = [(''asset'', PStr (ceAsset ev)),
                        (''confirmed'', PStr (formatDec D confirmed')),
                        (''pending'', PStr (formatDec D pend')),
                        (''block_height'', PInt (ceBlockHeight ev)),
                        (''confirmations'', PInt (ceConfirmations ev))]\<rparr> w))))"

definition ApplyConfirmationEvent ::
    "declib \<Rightarrow> Config \<Rightarrow> Emitter \<Rightarrow> (uuid \<Rightarrow> string \<Rightarrow> world \<Rightarrow> world) option \<Rightarrow> ConfirmationEvent
     \<Rightarrow> world \<Rightarrow> unit res \<times> world" where
  "ApplyConfirmationEvent D cfg em onDecrease ev w =
     (case NewUUID w of
        (u, w) \<Rightarrow>
          (case on_db (RecordBalanceEvent \<lparr>beID = u, beWalletID = ceWalletID ev,
                  beAsset = ceAsset ev, beBlockHeight = ceBlockHeight ev,
                  beEventID = ceEventID ev\<rparr>) w of
             (Inl e, w) \<Rightarrow> if errors_Is e ErrDuplicateEvent then (Inr (), w) else (Inl e, w)
           | (Inr _, w) \<Rightarrow>
               (case InTx 0 (confirm_tx D cfg em ev) w of
                  (Inl e, w) \<Rightarrow> (Inl e, w)
                | (Inr _, w) \<Rightarrow>
                    (Inr (), case onDecrease of
                       None \<Rightarrow> w
                     | Some hook \<Rightarrow>
                         if isConfirmed cfg ev \<and> parseDec D (ceAmount ev) < 0
                         then hook (ceWalletID ev) (ceAsset ev) w else w))))"

definition reorg_tx :: "declib \<Rightarrow> ReorgEvent \<Rightarrow> world \<Rightarrow> unit res \<times> world" where
  "reorg_tx D ev w =
     (case GetBalance (reWalletID ev) (reAsset ev) (db w) of
        Inl e \<Rightarrow> if errors_Is e ErrNoRows then (Inr (), w) else (Inl e, w)
      | Inr cur \<Rightarrow>
          (let confirmed = parseDec D (bConfirmed cur);
               pend = parseDec D (bPending cur)
           in on_db (UpsertBalance (now w)
                \<lparr>bWalletID = reWalletID ev, bAsset = reAsset ev,
                 bConfirmed = formatDec D 0, bPending = formatDec D (pend + confirmed),
                 bLocked = bLocked cur, bLastBlockSeen = bLastBlockSeen cur,
                 bUpdatedAt = now w\<rparr>) w))"

definition ApplyReorgEvent ::
    "declib \<Rightarrow> Emitter \<Rightarrow> (string list \<Rightarrow> world \<Rightarrow> unit res \<times> world) option \<Rightarrow> ReorgEvent
     \<Rightarrow> world \<Rightarrow> unit res \<times> world" where
  "ApplyReorgEvent D em utxoRestore ev w =
     (case InTx 0 (reorg_tx D ev) w of
        (Inl e, w) \<Rightarrow> (Inl e, w)
      | (Inr _, w) \<Rightarrow>
          (case (case utxoRestore of
                   Some restore \<Rightarrow> if reOutpoints ev \<noteq> [] then restore (reOutpoints ev) w else (Inr (), w)
                 | None \<Rightarrow> (Inr (), w)) of
             (Inl e, w) \<Rightarrow> (Inl (ErrWrap ''restore utxos'' e), w)
           | (Inr _, w) \<Rightarrow>
               (Inr (), emit em \<lparr>evType = ''wallet.balance.updated'', evWalletID = Some (reWalletID ev),
                  evPayload = [(''asset'', PStr (reAsset ev)), (''reorg'', PBool True),
                    (''block_height'', PInt (reBlockHeight ev))]\<rparr> w)))"

definition GetBalances :: "uuid \<Rightarrow> world \<Rightarrow> Balance list" where
  "GetBalances wid w = ListBalances wid (db w)"

definition set_locked :: "declib \<Rightarrow> (rat \<Rightarrow> rat) \<Rightarrow> uuid \<Rightarrow> string \<Rightarrow> world \<Rightarrow> unit res \<times> world" where
  "set_locked D f wid asset w =
     (case GetBalance wid asset (db w) of
        Inl e \<Rightarrow> (Inl e, w)
      | Inr cur \<Rightarrow>
          on_db (UpsertBalance (now w)
            \<lparr>bWalletID = wid, bAsset = asset, bConfirmed = bConfirmed cur, bPending = bPending cur,
             bLocked = formatDec D (f (parseDec D (bLocked cur))),
             bLastBlockSeen = bLastBlockSeen cur, bUpdatedAt = now w\<rparr>) w)"

definition AddLocked :: "declib \<Rightarrow> uuid \<Rightarrow> string \<Rightarrow> string \<Rightarrow> world \<Rightarrow> unit res \<times> world" where
  "AddLocked D wid asset amount w =
     InTx 0 (set_locked D (\<lambda>l. l + parseDec D amount) wid asset) w"

definition ReleaseLocked :: "declib \<Rightarrow> uuid \<Rightarrow> string \<Rightarrow> string \<Rightarrow> world \<Rightarrow> unit res \<times> world" where
  "ReleaseLocked D wid asset amount w =
     InTx 0 (set_locked D (\<lambda>l. if l - parseDec D amount < 0 then 0 else l - parseDec D amount) wid asset) w"

section \<open>The ledger\<close>

text \<open>
  What a row means: the confirmed, pending and locked amounts under a balance key, zero for a
  missing row. The operations are described by what they do to these amounts.
\<close>

type_synonym amounts = "rat \<times> rat \<times> rat"

definition row_amounts :: "declib \<Rightarrow> Balance \<Rightarrow> amounts" where
  "row_amounts D b = (parseDec D (bConfirmed b), parseDec D (bPending b), parseDec D (bLocked b))"

definition ledger :: "declib \<Rightarrow> store \<Rightarrow> string \<Rightarrow> amounts" where
  "ledger D s k = (case map_of (balances s) k of None \<Rightarrow> (0, 0, 0) | Some b \<Rightarrow> row_amounts D b)"

definition event_key :: "ConfirmationEvent \<Rightarrow> string" where
  "event_key ev = balanceEventKey \<lparr>beID = [], beWalletID = ceWalletID ev, beAsset = ceAsset ev,
     beBlockHeight = ceBlockHeight ev, beEventID = ceEventID ev\<rparr>"

abbreviation row_key :: "ConfirmationEvent \<Rightarrow> string" where
  "row_key ev \<equiv> balanceKey (ceWalletID ev) (ceAsset ev)"

abbreviation seen :: "store \<Rightarrow> string \<Rightarrow> bool" where
  "seen s k \<equiv> get_bool (balanceEvents s) k"

definition credit :: "declib \<Rightarrow> Config \<Rightarrow> ConfirmationEvent \<Rightarrow> amounts \<Rightarrow> amounts" where
  "credit D cfg ev = (\<lambda>(c, p, l). if isConfirmed cfg ev then (c + parseDec D (ceAmount ev), p, l)
     else (c, p + parseDec D (ceAmount ev), l))"

interpretation balance_log: dedup_log balanceEventKey seen RecordBalanceEvent ErrDuplicateEvent
  by unfold_locales (auto simp: RecordBalanceEvent_def Let_def get_bool_def)

lemma confirm_tx_ledger:
  assumes D: "declib_ok D"
  shows "is_ok (fst (confirm_tx D cfg em ev w))
    \<and> ledger D (db (snd (confirm_tx D cfg em ev w))) =
        (ledger D (db w))(row_key ev := credit D cfg ev (ledger D (db w) (row_key ev)))
    \<and> balanceEvents (db (snd (confirm_tx D cfg em ev w))) = balanceEvents (db w)"
proof -
  note rt = parse_format [OF D] repr_intros [OF D]
  show ?thesis
    by (cases "map_of (balances (db w)) (row_key ev)")
      (auto simp: confirm_tx_def GetBalance_def on_db_def UpsertBalance_def Let_def frame_simps ledger_def
        row_amounts_def empty_balance_def credit_def rt fun_eq_iff)
qed

lemma balanceEventKey_beID: "balanceEventKey (b\<lparr>beID := i\<rparr>) = balanceEventKey b"
  by (simp add: balanceEventKey_def)

text \<open>One delivery: nothing for an event that was seen, one credit otherwise.\<close>

lemma ApplyConfirmationEvent_step:
  assumes D: "declib_ok D" and ap: "ApplyConfirmationEvent D cfg em None ev w = (r, w')"
  shows "r = Inr ()
    \<and> (seen (db w) (event_key ev) \<longrightarrow> db w' = db w)
    \<and> (\<not> seen (db w) (event_key ev) \<longrightarrow>
         ledger D (db w') = (ledger D (db w))(row_key ev := credit D cfg ev (ledger D (db w) (row_key ev))))
    \<and> (\<forall>k. seen (db w') k \<longleftrightarrow> k = event_key ev \<or> seen (db w) k)"
proof -
  define be where "be = \<lparr>beID = ids w (nid w), beWalletID = ceWalletID ev, beAsset = ceAsset ev,
      beBlockHeight = ceBlockHeight ev, beEventID = ceEventID ev\<rparr>"
  have key: "balanceEventKey be = event_key ev" by (simp add: be_def event_key_def balanceEventKey_def)
  show ?thesis
  proof (cases "seen (db w) (event_key ev)")
    case True
    then have "RecordBalanceEvent be (db w) = (Inl ErrDuplicateEvent, db w)"
      by (intro balance_log.put_seen) (simp add: key)
    then show ?thesis
      using ap True by (auto simp: ApplyConfirmationEvent_def NewUUID_def on_db_def be_def)
  next
    case False
    then obtain s1 where s1: "RecordBalanceEvent be (db w) = (Inr (), s1)"
      "\<forall>k. seen s1 k \<longleftrightarrow> k = event_key ev \<or> seen (db w) k"
      using balance_log.put_new [of "db w" be] key by auto
    have led: "ledger D s1 = ledger D (db w)"
      using s1(1) False by (simp add: RecordBalanceEvent_def Let_def key ledger_def fun_eq_iff) auto
    let ?w1 = "w\<lparr>nid := Suc (nid w), db := s1\<rparr>"
    obtain w2 where w2: "confirm_tx D cfg em ev ?w1 = (Inr (), w2)"
      using confirm_tx_ledger [OF D, of cfg em ev ?w1]
      by (cases "confirm_tx D cfg em ev ?w1") (auto elim: is_okE)
    have "(r, w') = (Inr (), w2)"
      using ap s1(1) by (simp add: ApplyConfirmationEvent_def NewUUID_def on_db_def be_def [symmetric]
          InTx_commit [of "confirm_tx D cfg em ev", OF w2])
    then show ?thesis
      using confirm_tx_ledger [OF D, of cfg em ev ?w1] False s1(2) led w2 by (simp add: get_bool_def)
  qed
qed

text \<open>A sequence of deliveries, and the events in it that are delivered for the first time.\<close>

fun deliver_all :: "declib \<Rightarrow> Config \<Rightarrow> Emitter \<Rightarrow> ConfirmationEvent list \<Rightarrow> world \<Rightarrow> world" where
  "deliver_all D cfg em [] w = w"
| "deliver_all D cfg em (ev # evs) w =
     deliver_all D cfg em evs (snd (ApplyConfirmationEvent D cfg em None ev w))"

fun fresh_events :: "(string \<Rightarrow> bool) \<Rightarrow> ConfirmationEvent list \<Rightarrow> ConfirmationEvent list" where
  "fresh_events sn [] = []"
| "fresh_events sn (ev # evs) =
     (if sn (event_key ev) then fresh_events sn evs
      else ev # fresh_events (\<lambda>k. k = event_key ev \<or> sn k) evs)"

definition credit_row :: "declib \<Rightarrow> Config \<Rightarrow> ConfirmationEvent \<Rightarrow> (string \<Rightarrow> amounts) \<Rightarrow> string \<Rightarrow> amounts" where
  "credit_row D cfg ev L = L(row_key ev := credit D cfg ev (L (row_key ev)))"

lemma fresh_events_seen:
  assumes "\<forall>k. sn' k \<longleftrightarrow> k = event_key ev \<or> sn k" and "sn (event_key ev)"
  shows "sn' = sn"
  using assms by auto

lemma deliver_all_ledger:
  assumes D: "declib_ok D"
  shows "ledger D (db (deliver_all D cfg em evs w)) =
    fold (credit_row D cfg) (fresh_events (seen (db w)) evs) (ledger D (db w))"
proof (induction evs arbitrary: w)
  case Nil
  then show ?case by simp
next
  case (Cons ev evs)
  obtain r w' where ap: "ApplyConfirmationEvent D cfg em None ev w = (r, w')" by fastforce
  note step = ApplyConfirmationEvent_step [OF D ap]
  have sn: "seen (db w') = (\<lambda>k. k = event_key ev \<or> seen (db w) k)" using step by auto
  show ?case
  proof (cases "seen (db w) (event_key ev)")
    case True
    then show ?thesis using step Cons.IH [of w'] by (simp add: ap)
  next
    case False
    then show ?thesis using step Cons.IH [of w'] sn by (simp add: ap credit_row_def)
  qed
qed

definition confirmed_sum :: "declib \<Rightarrow> Config \<Rightarrow> string \<Rightarrow> ConfirmationEvent list \<Rightarrow> rat" where
  "confirmed_sum D cfg k evs =
     sum_list (map (\<lambda>e. parseDec D (ceAmount e)) (filter (\<lambda>e. row_key e = k \<and> isConfirmed cfg e) evs))"

definition pending_sum :: "declib \<Rightarrow> Config \<Rightarrow> string \<Rightarrow> ConfirmationEvent list \<Rightarrow> rat" where
  "pending_sum D cfg k evs =
     sum_list (map (\<lambda>e. parseDec D (ceAmount e)) (filter (\<lambda>e. row_key e = k \<and> \<not> isConfirmed cfg e) evs))"

lemma fold_credit_row:
  "fold (credit_row D cfg) evs L k =
    (case L k of (c, p, l) \<Rightarrow> (c + confirmed_sum D cfg k evs, p + pending_sum D cfg k evs, l))"
proof (induction evs arbitrary: L)
  case Nil
  then show ?case by (simp add: confirmed_sum_def pending_sum_def split: prod.split)
next
  case (Cons e evs)
  show ?case
    using Cons.IH [of "credit_row D cfg e L"]
    by (auto simp: credit_row_def credit_def confirmed_sum_def pending_sum_def split: prod.splits)
qed

lemma reorg_tx_ledger:
  assumes D: "declib_ok D" and k: "k = balanceKey (reWalletID ev) (reAsset ev)"
  shows "is_ok (fst (reorg_tx D ev w))
    \<and> ledger D (db (snd (reorg_tx D ev w))) =
        (ledger D (db w))(k := (case ledger D (db w) k of (c, p, l) \<Rightarrow> (0, p + c, l)))"
proof -
  note rt = parse_format [OF D] repr_intros [OF D]
  show ?thesis
    by (cases "map_of (balances (db w)) k")
      (auto simp: reorg_tx_def GetBalance_def on_db_def UpsertBalance_def Let_def ledger_def k
        row_amounts_def rt fun_eq_iff)
qed

lemma set_locked_ledger:
  assumes D: "declib_ok D" and f: "\<And>l. dec_repr D l \<Longrightarrow> dec_repr D (f l)"
    and row: "map_of (balances (db w)) (balanceKey wid asset) = Some b"
  shows "is_ok (fst (InTx 0 (set_locked D f wid asset) w))
    \<and> ledger D (db (snd (InTx 0 (set_locked D f wid asset) w))) =
        (ledger D (db w))(balanceKey wid asset :=
          (case ledger D (db w) (balanceKey wid asset) of (c, p, l) \<Rightarrow> (c, p, f l)))
    \<and> map_of (balances (db (snd (InTx 0 (set_locked D f wid asset) w)))) (balanceKey wid asset) \<noteq> None"
  using parse_format [OF D f [OF parseDec_repr [OF D]]]
  by (auto simp: InTx_def set_locked_def GetBalance_def row on_db_def UpsertBalance_def ledger_def
      row_amounts_def fun_eq_iff)

section \<open>Properties\<close>

definition sample_deposit :: "string \<Rightarrow> int \<Rightarrow> ConfirmationEvent" where
  "sample_deposit eid confs = \<lparr>ceWalletID = ''w'', ceAsset = ''BTC'', ceAmount = ''5'',
     ceConfirmations = confs, ceBlockHeight = 100, ceEventID = eid, ceIsFinalized = False,
     ceChain = ChainBitcoin\<rparr>"

lemma parse_five: "parseDec frac_lib ''5'' = 5"
  by (simp add: parseDec_def frac_parse_def parse_nat_def char_digit_def Let_def)

lemma sample_deposit_confirmed:
  "isConfirmed default_config (sample_deposit e c) \<longleftrightarrow> 6 \<le> c"
  by (simp add: isConfirmed_def threshold_def sample_deposit_def default_config_def)

lemma sample_deposit_keys:
  "event_key (sample_deposit e c) = event_key (sample_deposit e' c') \<longleftrightarrow> e = e'"
  "row_key (sample_deposit e c) = ''w|BTC''" "ceAmount (sample_deposit e c) = ''5''"
  by (simp_all add: event_key_def balanceEventKey_def balanceKey_def sample_deposit_def)

text \<open>
  A redelivered event is acknowledged without any effect on the store, whatever hook is wired
  in: no balance changes, no audit event, no funding evaluation.
\<close>

lemma redelivery_noop:
  assumes "seen (db w) (event_key ev)"
  shows "ApplyConfirmationEvent D cfg em onDecrease ev w = (Inr (), w\<lparr>nid := Suc (nid w)\<rparr>)"
  using assms
  by (simp add: ApplyConfirmationEvent_def NewUUID_def on_db_def RecordBalanceEvent_def Let_def
      event_key_def balanceEventKey_def)

text \<open>
  C36: confirming a deposit does not take it out of the pending amount. When a deposit is first
  reported below the confirmation threshold and later above it, under two event ids, its value is
  in the pending and in the confirmed amount afterwards.
\<close>

theorem confirmation_keeps_pending:
  assumes "declib_ok D" and "event_key e1 \<noteq> event_key e2" and "\<not> seen (db w) (event_key e1)"
    and "\<not> seen (db w) (event_key e2)" and "row_key e1 = row_key e2" and "ceAmount e1 = ceAmount e2"
    and "\<not> isConfirmed cfg e1" and "isConfirmed cfg e2"
  shows "ledger D (db (deliver_all D cfg em [e1, e2] w)) (row_key e1) =
    (case ledger D (db w) (row_key e1) of (c, p, l) \<Rightarrow>
      (c + parseDec D (ceAmount e1), p + parseDec D (ceAmount e1), l))"
  unfolding deliver_all_ledger [OF assms(1)] fold_credit_row
  using assms by (auto simp: confirmed_sum_def pending_sum_def split: prod.split)

theorem confirmation_keeps_pending_witness:
  "ledger frac_lib (db (deliver_all frac_lib default_config EmitterService
     [sample_deposit ''a'' 1, sample_deposit ''b'' 6] start_world)) ''w|BTC'' = (5, 5, 0)"
  using confirmation_keeps_pending [OF frac_lib_ok, of "sample_deposit ''a'' 1" "sample_deposit ''b'' 6"
      start_world default_config EmitterService]
  by (simp add: sample_deposit_keys sample_deposit_confirmed New_def get_bool_def ledger_def parse_five)

text \<open>
  Locking and releasing are inverse. On an existing row \<open>AddLocked\<close> raises the locked amount,
  \<open>ReleaseLocked\<close> lowers it but not below zero, neither touches the confirmed or pending amount, and
  releasing what was added restores a non-negative locked amount.
\<close>

lemma lock_release:
  assumes "declib_ok D" and "map_of (balances (db w)) (balanceKey wid asset) \<noteq> None"
    and "ledger D (db w) (balanceKey wid asset) = (c, p, l)"
  shows "is_ok (fst (AddLocked D wid asset amt w)) \<and> is_ok (fst (ReleaseLocked D wid asset amt w))
    \<and> ledger D (db (snd (AddLocked D wid asset amt w))) (balanceKey wid asset) = (c, p, l + parseDec D amt)
    \<and> ledger D (db (snd (ReleaseLocked D wid asset amt w))) (balanceKey wid asset) =
        (c, p, max 0 (l - parseDec D amt))
    \<and> (0 \<le> l \<longrightarrow> ledger D (db (snd (ReleaseLocked D wid asset amt (snd (AddLocked D wid asset amt w)))))
          (balanceKey wid asset) = (c, p, l))"
proof -
  let ?a = "parseDec D amt"
  let ?rel = "\<lambda>l. if l - ?a < 0 then 0 else l - ?a"
  have f: "dec_repr D (l + ?a)" "dec_repr D (?rel l)" if "dec_repr D l" for l
    using that repr_intros [OF assms(1)] by auto
  obtain b where b: "map_of (balances (db w)) (balanceKey wid asset) = Some b" using assms(2) by blast
  note add = set_locked_ledger [where f = "\<lambda>l. l + ?a", OF assms(1) f(1) b]
  note rel = set_locked_ledger [where f = ?rel, OF assms(1) f(2) b]
  obtain b' where b': "map_of (balances (db (snd (AddLocked D wid asset amt w)))) (balanceKey wid asset) = Some b'"
    using add by (auto simp: AddLocked_def)
  note both = set_locked_ledger [where f = ?rel, OF assms(1) f(2) b']
  show ?thesis
    using add rel both assms(3) by (auto simp: AddLocked_def ReleaseLocked_def)
qed

end
