(* ===== verification/Keys.thy ===== *)
theory Keys
  imports Config Outbox
begin

text \<open>
  Key mappings, \<^verbatim>\<open>internal/keymapping/keymapping.go\<close>: which MPC key signs for a wallet. A wallet has a
  current key; rotation puts it into a cooling-off period and makes another key current.
\<close>

section \<open>Operations\<close>

definition Bind :: "uuid \<Rightarrow> string \<Rightarrow> world \<Rightarrow> unit res \<times> world" where
  "Bind wid keyID w =
     on_db (BindKeyMapping (now w)
       \<lparr>kWalletID = wid, kKeyID = keyID, kActiveFrom = now w, kActiveTo = None,
        kRotationState = RotationStateCurrent, kCreatedAt = now w\<rparr>) w"

definition Rotate :: "Config \<Rightarrow> Emitter \<Rightarrow> uuid \<Rightarrow> string \<Rightarrow> world \<Rightarrow> unit res \<times> world" where
  "Rotate cfg em wid newKeyID w =
     (case on_db (RotateKeyMapping (now w) wid newKeyID (cKeyCoolingPeriod cfg)) w of
        (Inl e, w) \<Rightarrow> (Inl e, w)
      | (Inr _, w) \<Rightarrow>
          (Inr (), emit em \<lparr>evType = ''key.rotated'', evWalletID = Some wid,
             evPayload = [(''new_key_id'', PStr newKeyID),
               (''cooling_period'', PStr (Duration_String (cKeyCoolingPeriod cfg)))]\<rparr> w))"

definition ResolveActive :: "uuid \<Rightarrow> world \<Rightarrow> KeyMapping list res" where
  "ResolveActive wid w =
     (case ResolveActiveKey wid (db w) of
        Inl e \<Rightarrow> if errors_Is e ErrNoRows then Inl (ErrWrap ''no active key for wallet'' e) else Inl e
      | Inr ms \<Rightarrow> Inr ms)"

definition ResolveActiveKeyID :: "uuid \<Rightarrow> world \<Rightarrow> string res" where
  "ResolveActiveKeyID wid w =
     (case ResolveActive wid w of
        Inl e \<Rightarrow> Inl e
      | Inr [] \<Rightarrow> Inl (ErrText ''no active key for wallet'')
      | Inr (m # _) \<Rightarrow> Inr (kKeyID m))"

definition ExpireCoolingKeys :: "world \<Rightarrow> unit res \<times> world" where
  "ExpireCoolingKeys w = on_db (ExpireCooling (now w)) w"

section \<open>Invariant\<close>

text \<open>
  The mappings of a wallet carry its id, at most one of them is current, and a cooling one has an
  end of its cooling period.
\<close>

abbreviation is_current :: "KeyMapping \<Rightarrow> bool" where
  "is_current m \<equiv> kRotationState m = RotationStateCurrent"

abbreviation is_cooling :: "KeyMapping \<Rightarrow> bool" where
  "is_cooling m \<equiv> kRotationState m = RotationStateCooling"

definition currents :: "KeyMapping list \<Rightarrow> KeyMapping list" where
  "currents ms = filter is_current ms"

definition key_row :: "uuid \<Rightarrow> KeyMapping list \<Rightarrow> bool" where
  "key_row wid ms = (length (currents ms) \<le> 1
     \<and> (\<forall>m \<in> set ms. kWalletID m = wid \<and> (is_cooling m \<longrightarrow> kActiveTo m \<noteq> None)))"

definition keys_ok :: "store \<Rightarrow> bool" where
  "keys_ok s = rows_ok key_row (keyMappings s)"

lemma currents_simps [simp]:
  "currents [] = []" "currents (m # ms) = (if is_current m then m # currents ms else currents ms)"
  "currents (xs @ ys) = currents xs @ currents ys"
  by (simp_all add: currents_def)

lemma key_row_get: "keys_ok s \<Longrightarrow> key_row wid (get_list (keyMappings s) wid)"
  by (auto simp: get_list_def keys_ok_def key_row_def dest: rows_ok_get split: option.splits)

lemma currents_cooled [simp]: "currents (map (cool_current t) ms) = []"
  by (induction ms) (auto simp: cool_current_def)

lemma key_row_cooled: "key_row wid ms \<Longrightarrow> key_row wid (map (cool_current t) ms)"
  by (auto simp: key_row_def) (auto simp: cool_current_def split: if_splits)

lemma revive_key_Some:
  "revive_key t k ms = Some ms' \<Longrightarrow> currents ms = [] \<Longrightarrow>
   \<exists>pre m post. ms = pre @ m # post \<and> kKeyID m = k
     \<and> ms' = pre @ m\<lparr>kRotationState := RotationStateCurrent, kActiveTo := None, kActiveFrom := t\<rparr> # post"
proof (induction ms arbitrary: ms')
  case (Cons m ms)
  show ?case
  proof (cases "kKeyID m = k")
    case True
    then show ?thesis using Cons.prems by (intro exI [of _ "[]"]) auto
  next
    case False
    then obtain ms1 where "revive_key t k ms = Some ms1" "ms' = m # ms1" using Cons.prems by auto
    moreover have "currents ms = []" using Cons.prems(2) by (auto split: if_splits)
    ultimately obtain pre x post where "ms = pre @ x # post" "kKeyID x = k"
      "ms1 = pre @ x\<lparr>kRotationState := RotationStateCurrent, kActiveTo := None, kActiveFrom := t\<rparr> # post"
      using Cons.IH by blast
    then show ?thesis
      using \<open>ms' = m # ms1\<close> by (intro exI [of _ "m # pre"] exI [of _ x] exI [of _ post]) simp
  qed
qed simp

definition rotated :: "time \<Rightarrow> uuid \<Rightarrow> string \<Rightarrow> int \<Rightarrow> KeyMapping list \<Rightarrow> KeyMapping list" where
  "rotated t wid k cooling ms =
     (case revive_key t k (map (cool_current (t + cooling)) ms) of
        Some l \<Rightarrow> l
      | None \<Rightarrow> map (cool_current (t + cooling)) ms @ [\<lparr>kWalletID = wid, kKeyID = k, kActiveFrom = t,
          kActiveTo = None, kRotationState = RotationStateCurrent, kCreatedAt = t\<rparr>])"

lemma RotateKeyMapping_eq:
  "RotateKeyMapping t wid k cooling s =
    (Inr (), s\<lparr>keyMappings := AList.update wid (rotated t wid k cooling (get_list (keyMappings s) wid))
      (keyMappings s)\<rparr>)"
  by (simp add: RotateKeyMapping_def rotated_def Let_def)

text \<open>After a rotation the new key is the one current key, and every earlier current key is cooling.\<close>

lemma rotated_current:
  "\<exists>m. currents (rotated t wid k cooling ms) = [m] \<and> kKeyID m = k \<and> kActiveFrom m = t \<and> kActiveTo m = None"
proof (cases "revive_key t k (map (cool_current (t + cooling)) ms)")
  case None
  then show ?thesis by (simp add: rotated_def)
next
  case (Some l)
  then obtain pre m post where l: "map (cool_current (t + cooling)) ms = pre @ m # post" "kKeyID m = k"
    "l = pre @ m\<lparr>kRotationState := RotationStateCurrent, kActiveTo := None, kActiveFrom := t\<rparr> # post"
    using revive_key_Some by fastforce
  have "currents (pre @ m # post) = []" using currents_cooled [of "t + cooling" ms] l(1) by simp
  then show ?thesis using Some l by (auto simp: rotated_def split: if_splits)
qed

lemma rotated_row: "key_row wid ms \<Longrightarrow> key_row wid (rotated t wid k cooling ms)"
proof -
  assume row: "key_row wid ms"
  note cooled = key_row_cooled [OF row, of "t + cooling"]
  have "\<forall>m \<in> set (rotated t wid k cooling ms). kWalletID m = wid \<and> (is_cooling m \<longrightarrow> kActiveTo m \<noteq> None)"
  proof (cases "revive_key t k (map (cool_current (t + cooling)) ms)")
    case None
    then show ?thesis using cooled by (auto simp: rotated_def key_row_def)
  next
    case (Some l)
    then obtain pre m post where l: "map (cool_current (t + cooling)) ms = pre @ m # post"
      "l = pre @ m\<lparr>kRotationState := RotationStateCurrent, kActiveTo := None, kActiveFrom := t\<rparr> # post"
      using revive_key_Some [OF Some currents_cooled] by blast
    have "key_row wid (pre @ m # post)" using cooled unfolding l(1) .
    then show ?thesis using Some l(2) by (auto simp: rotated_def key_row_def)
  qed
  then show ?thesis using rotated_current [of t wid k cooling ms] by (auto simp: key_row_def)
qed

lemma expire_row: "key_row wid ms \<Longrightarrow> key_row wid (map (expire_cooling t) ms)"
proof -
  assume row: "key_row wid ms"
  have "currents (map (expire_cooling t) xs) = currents xs" for xs
    by (induction xs) (auto simp: expire_cooling_def split: if_splits)
  moreover have "\<forall>m \<in> set ms. kWalletID (expire_cooling t m) = wid
      \<and> (is_cooling (expire_cooling t m) \<longrightarrow> kActiveTo (expire_cooling t m) \<noteq> None)"
    using row by (auto simp: expire_cooling_def key_row_def)
  ultimately show ?thesis using row by (simp add: key_row_def)
qed

lemma Bind_inv: "keys_ok (db w) \<Longrightarrow> keys_ok (db (snd (Bind wid k w)))"
proof -
  assume ok: "keys_ok (db w)"
  have "key_row wid (get_list (keyMappings (db w)) wid @ [m])"
    if "currents (get_list (keyMappings (db w)) wid) = []" "kWalletID m = wid" "is_current m" for m
    using key_row_get [OF ok, of wid] that by (auto simp: key_row_def)
  then show ?thesis
    using ok by (auto simp: Bind_def BindKeyMapping_def Let_def keys_ok_def currents_def filter_empty_conv
        intro!: rows_ok_update)
qed

lemma Rotate_db_keys:
  "keyMappings (db (snd (Rotate cfg em wid k w))) =
    AList.update wid (rotated (now w) wid k (cKeyCoolingPeriod cfg) (get_list (keyMappings (db w)) wid))
      (keyMappings (db w))"
  "is_ok (fst (Rotate cfg em wid k w))"
  by (simp_all add: Rotate_def on_db_def RotateKeyMapping_eq frame_simps)

lemma Rotate_inv: "keys_ok (db w) \<Longrightarrow> keys_ok (db (snd (Rotate cfg em wid k w)))"
  using rotated_row [OF key_row_get] by (auto simp: keys_ok_def Rotate_db_keys intro!: rows_ok_update)

lemma get_list_expire:
  "get_list (keyMappings (db (snd (ExpireCoolingKeys w)))) wid =
    map (expire_cooling (now w)) (get_list (keyMappings (db w)) wid)"
proof -
  have "map_of (map (\<lambda>(w, ms). (w, map f ms)) m) wid = map_option (map f) (map_of m wid)"
    for f :: "KeyMapping \<Rightarrow> KeyMapping" and m :: "(uuid, KeyMapping list) gomap"
    by (induction m) auto
  then show ?thesis
    by (simp add: ExpireCoolingKeys_def ExpireCooling_def get_list_def split: option.split)
qed

lemma Expire_inv: "keys_ok (db w) \<Longrightarrow> keys_ok (db (snd (ExpireCoolingKeys w)))"
  using expire_row
  by (force simp: ExpireCoolingKeys_def ExpireCooling_def keys_ok_def rows_ok_def map_ok_def comp_def
      case_prod_beta)

section \<open>Any sequence of key operations\<close>

inductive key_step :: "Config \<Rightarrow> Emitter \<Rightarrow> world \<Rightarrow> world \<Rightarrow> bool" for cfg em where
  key_bind: "key_step cfg em w (snd (Bind wid k (w\<lparr>now := t\<rparr>)))"
| key_rotate: "key_step cfg em w (snd (Rotate cfg em wid k (w\<lparr>now := t\<rparr>)))"
| key_expire: "key_step cfg em w (snd (ExpireCoolingKeys (w\<lparr>now := t\<rparr>)))"

interpretation key_sys: inductive_inv "\<lambda>w. keyMappings (db w) = []" "key_step cfg em" "\<lambda>w. keys_ok (db w)"
  for cfg em
proof unfold_locales
  fix w :: world
  show "keyMappings (db w) = [] \<Longrightarrow> keys_ok (db w)" by (simp add: keys_ok_def)
next
  fix w w'
  assume "keys_ok (db w)" and step: "key_step cfg em w w'"
  from this(2, 1) show "keys_ok (db w')"
    by cases (simp_all add: Bind_inv Rotate_inv Expire_inv)
qed

lemma Bind_fresh:
  "currents (get_list (keyMappings (db w)) wid) = [] \<Longrightarrow>
   Bind wid k w = (Inr (), w\<lparr>db := (db w)\<lparr>keyMappings := AList.update wid
     (get_list (keyMappings (db w)) wid @ [\<lparr>kWalletID = wid, kKeyID = k, kActiveFrom = now w,
        kActiveTo = None, kRotationState = RotationStateCurrent, kCreatedAt = now w\<rparr>]) (keyMappings (db w))\<rparr>\<rparr>)"
  by (cases "IsZero (now w)") (simp_all add: Bind_def on_db_def BindKeyMapping_def Let_def currents_def filter_empty_conv)

lemma cooled_in_rotated:
  assumes "old \<in> set (currents ms)" and "kKeyID old \<noteq> k"
  shows "cool_current (t + cooling) old \<in> set (rotated t wid k cooling ms)"
proof (cases "revive_key t k (map (cool_current (t + cooling)) ms)")
  case None
  then show ?thesis using assms by (auto simp: rotated_def currents_def)
next
  case (Some l)
  then obtain pre m post where l: "map (cool_current (t + cooling)) ms = pre @ m # post" "kKeyID m = k"
    "l = pre @ m\<lparr>kRotationState := RotationStateCurrent, kActiveTo := None, kActiveFrom := t\<rparr> # post"
    using revive_key_Some [OF Some currents_cooled] by blast
  have "cool_current (t + cooling) old \<in> set (pre @ m # post)"
    using assms(1) unfolding l(1) [symmetric] by (auto simp: currents_def)
  moreover have "kKeyID (cool_current (t + cooling) old) \<noteq> k"
    using assms(2) by (simp add: cool_current_def)
  ultimately show ?thesis using Some l by (auto simp: rotated_def)
qed

section \<open>Properties\<close>


abbreviation bound_world :: world where
  "bound_world \<equiv> snd (Bind ''w'' ''k1'' (start_world\<lparr>now := 10\<rparr>))"

abbreviation rotated_world :: world where
  "rotated_world \<equiv> snd (Rotate default_config NilEmitter ''w'' ''k2'' (bound_world\<lparr>now := 20\<rparr>))"

lemma bound_keys:
  "keyMappings (db bound_world) = [(''w'', [\<lparr>kWalletID = ''w'', kKeyID = ''k1'', kActiveFrom = 10,
     kActiveTo = None, kRotationState = RotationStateCurrent, kCreatedAt = 10\<rparr>])]"
  by (simp add: Bind_fresh New_def get_list_def)


text \<open>
  A rotation makes the new key the only current key from now on, puts every other key that was
  current into cooling-off until the end of the configured period, keeps both resolvable, and leaves
  the other wallets alone.
\<close>

lemma Rotate_effect:
  assumes "keys_ok (db w)"
  shows "is_ok (fst (Rotate cfg em wid k w))
    \<and> (\<exists>m. currents (get_list (keyMappings (db (snd (Rotate cfg em wid k w)))) wid) = [m]
         \<and> kKeyID m = k \<and> kActiveFrom m = now w \<and> kActiveTo m = None)
    \<and> (\<forall>old \<in> set (currents (get_list (keyMappings (db w)) wid)). kKeyID old \<noteq> k \<longrightarrow>
         (\<exists>m \<in> set (get_list (keyMappings (db (snd (Rotate cfg em wid k w)))) wid).
            kKeyID m = kKeyID old \<and> is_cooling m \<and> kActiveTo m = Some (now w + cKeyCoolingPeriod cfg)))
    \<and> is_ok (ResolveActive wid (snd (Rotate cfg em wid k w)))
    \<and> (\<forall>v. v \<noteq> wid \<longrightarrow> get_list (keyMappings (db (snd (Rotate cfg em wid k w)))) v =
                          get_list (keyMappings (db w)) v)"
proof -
  let ?ms = "get_list (keyMappings (db w)) wid"
  let ?ms' = "rotated (now w) wid k (cKeyCoolingPeriod cfg) ?ms"
  have g: "get_list (keyMappings (db (snd (Rotate cfg em wid k w)))) v =
      (if v = wid then ?ms' else get_list (keyMappings (db w)) v)" for v
    by (simp add: Rotate_db_keys get_list_def)
  obtain m where m: "currents ?ms' = [m]" "kKeyID m = k" "kActiveFrom m = now w" "kActiveTo m = None"
    using rotated_current by blast
  have "m \<in> set (currents ?ms')" using m(1) by simp
  then have "filter (\<lambda>m. is_current m \<or> is_cooling m) ?ms' \<noteq> []"
    by (auto simp: currents_def filter_empty_conv)
  then have "is_ok (ResolveActive wid (snd (Rotate cfg em wid k w)))"
    by (simp add: ResolveActive_def ResolveActiveKey_def Let_def g)
  moreover have "\<exists>m \<in> set ?ms'. kKeyID m = kKeyID old \<and> is_cooling m
      \<and> kActiveTo m = Some (now w + cKeyCoolingPeriod cfg)"
    if "old \<in> set (currents ?ms)" "kKeyID old \<noteq> k" for old
    using cooled_in_rotated [OF that, of "now w" "cKeyCoolingPeriod cfg" wid] that
    by (intro bexI [of _ "cool_current (now w + cKeyCoolingPeriod cfg) old"])
      (auto simp: cool_current_def currents_def)
  ultimately show ?thesis using m by (simp add: g Rotate_db_keys(2))
qed

text \<open>
  Until cooling mappings are expired, resolution keeps returning the old key after a rotation: the
  active mappings are ordered by the start of their activity and the first one is taken. This holds
  at any later time, also after the cooling period has ended.
\<close>

lemma rotation_keeps_old_key:
  assumes "get_list (keyMappings (db w)) wid = [m]" and "is_current m" and "kActiveFrom m < now w"
    and "kKeyID m \<noteq> k"
  shows "ResolveActiveKeyID wid ((snd (Rotate cfg em wid k w))\<lparr>now := t\<rparr>) = Inr (kKeyID m)"
  using assms
  by (simp add: ResolveActiveKeyID_def ResolveActive_def ResolveActiveKey_def Rotate_db_keys rotated_def
      get_list_def cool_current_def key_lt_def)

text \<open>
  Expiration ends the cooling-off: once the cooling periods of a wallet have passed, expiring makes
  its current key the one that is resolved.
\<close>

lemma expire_then_current:
  assumes "currents (get_list (keyMappings (db w)) wid) = [m]"
    and "\<forall>c \<in> set (get_list (keyMappings (db w)) wid). is_cooling c \<longrightarrow> (\<exists>t. kActiveTo c = Some t \<and> t < now w)"
  shows "ResolveActiveKeyID wid (snd (ExpireCoolingKeys w)) = Inr (kKeyID m)"
proof -
  let ?ms = "get_list (keyMappings (db w)) wid"
  have "filter (\<lambda>m. is_current m \<or> is_cooling m) (map (expire_cooling (now w)) xs) = currents xs"
    if "set xs \<subseteq> set ?ms" for xs
    using that
  proof (induction xs)
    case (Cons x xs)
    then show ?case using assms(2) by (auto simp: expire_cooling_def)
  qed simp
  then show ?thesis
    using assms(1) by (simp add: ResolveActiveKeyID_def ResolveActive_def ResolveActiveKey_def Let_def
        get_list_expire)
qed

end
