(* ===== verification/Bytes.thy ===== *)
theory Bytes
  imports Domain GoLib
begin

text \<open>
  Byte strings: big-endian and little-endian integers (\<^verbatim>\<open>encoding/binary\<close>, \<^verbatim>\<open>big.Int.Bytes\<close>,
  \<^verbatim>\<open>big.Int.SetBytes\<close>), hexadecimal (\<^verbatim>\<open>encoding/hex\<close>) and SHA-256 (\<^verbatim>\<open>crypto/sha256\<close>).
\<close>

unbundle bit_operations_syntax

type_synonym bytes = "byte list"

section \<open>Integers as bytes\<close>

fun be_bytes :: "nat \<Rightarrow> bytes" where
  "be_bytes n = (if n = 0 then [] else be_bytes (n div 256) @ [word_of_nat (n mod 256)])"

declare be_bytes.simps [simp del]

definition be_val :: "bytes \<Rightarrow> nat" where
  "be_val bs = foldl (\<lambda>a b. 256 * a + unat b) 0 bs"

text \<open>\<^verbatim>\<open>big.Int.Bytes\<close> is the absolute value.\<close>

definition big_Bytes :: "int \<Rightarrow> bytes" where
  "big_Bytes i = be_bytes (nat \<bar>i\<bar>)"

definition big_SetBytes :: "bytes \<Rightarrow> int" where
  "big_SetBytes bs = int (be_val bs)"

fun be_fixed :: "nat \<Rightarrow> nat \<Rightarrow> bytes" where
  "be_fixed 0 n = []"
| "be_fixed (Suc k) n = be_fixed k (n div 256) @ [word_of_nat (n mod 256)]"

definition PutUint64_BE :: "nat \<Rightarrow> bytes" where
  "PutUint64_BE n = be_fixed 8 n"

definition PutUint64_LE :: "nat \<Rightarrow> bytes" where
  "PutUint64_LE n = rev (PutUint64_BE n)"

definition string_bytes :: "string \<Rightarrow> bytes" where
  "string_bytes s = map (\<lambda>c. word_of_nat (of_char c)) s"

lemma be_bytes_0 [simp]: "be_bytes 0 = []"
  by (simp add: be_bytes.simps)

lemma be_val_snoc: "be_val (bs @ [b]) = 256 * be_val bs + unat b"
  by (simp add: be_val_def)

lemma be_val_Nil [simp]: "be_val [] = 0"
  by (simp add: be_val_def)

lemma unat_byte [simp]: "n < 256 \<Longrightarrow> unat (word_of_nat n :: byte) = n"
  by (simp add: unat_of_nat)

lemma be_val_be_bytes [simp]: "be_val (be_bytes n) = n"
proof (induction n rule: be_bytes.induct)
  case (1 n)
  show ?case
  proof (cases "n = 0")
    case False
    then show ?thesis using 1 by (simp add: be_bytes.simps [of n] be_val_snoc)
  qed simp
qed

lemma be_bytes_inject [simp]: "be_bytes m = be_bytes n \<longleftrightarrow> m = n"
  by (metis be_val_be_bytes)

lemma be_bytes_nonempty: "be_bytes n = [] \<longleftrightarrow> n = 0"
  by (metis be_bytes_0 be_bytes_inject)

lemma length_be_bytes: "n < 256 ^ k \<Longrightarrow> length (be_bytes n) \<le> k"
proof (induction k arbitrary: n)
  case (Suc k)
  have "n div 256 < 256 ^ k" using Suc.prems by (simp add: less_mult_imp_div_less mult.commute)
  then show ?case using Suc.IH by (subst be_bytes.simps) simp
qed simp

lemma unat_lt_256: "unat (b :: byte) < 256"
  using unsigned_less [of b, where ?'a = nat] by simp

lemma be_val_bound: "be_val bs < 256 ^ length bs"
proof (induction bs rule: rev_induct)
  case (snoc b bs)
  then show ?case using unat_lt_256 [of b] by (simp add: be_val_snoc)
qed simp

lemma be_val_inject: "length xs = length ys \<Longrightarrow> be_val xs = be_val ys \<Longrightarrow> xs = ys"
proof (induction xs arbitrary: ys rule: rev_induct)
  case (snoc x xs)
  obtain ys' y where ys: "ys = ys' @ [y]" using snoc.prems(1) by (cases ys rule: rev_cases) auto
  have eq: "256 * be_val xs + unat x = 256 * be_val ys' + unat y"
    using snoc.prems(2) by (simp add: ys be_val_snoc)
  have "be_val xs = (256 * be_val xs + unat x) div 256" "unat x = (256 * be_val xs + unat x) mod 256"
    "be_val ys' = (256 * be_val ys' + unat y) div 256" "unat y = (256 * be_val ys' + unat y) mod 256"
    using unat_lt_256 [of x] unat_lt_256 [of y] by simp_all
  then have "be_val xs = be_val ys'" and un: "unat x = unat y" using eq by metis+
  moreover have "x = y" using un by (rule unsigned_word_eqI)
  ultimately show ?case using snoc by (simp add: ys)
qed simp

lemma length_be_fixed [simp]: "length (be_fixed k n) = k"
  by (induction k arbitrary: n) auto

lemma length_PutUint64 [simp]: "length (PutUint64_BE n) = 8" "length (PutUint64_LE n) = 8"
  by (simp_all add: PutUint64_BE_def PutUint64_LE_def)

lemma be_val_be_fixed: "be_val (be_fixed k n) = n mod 256 ^ k"
  by (induction k arbitrary: n) (simp_all add: be_val_snoc mod_mult2_eq)

lemma be_val_PutUint64: "n < 2 ^ 64 \<Longrightarrow> be_val (PutUint64_BE n) = n"
  by (simp add: PutUint64_BE_def be_val_be_fixed)

text \<open>Without its leading zeros, the 8-byte form is the shortest one.\<close>

lemma be_val_dropWhile: "be_val (dropWhile (\<lambda>b. b = 0) bs) = be_val bs"
proof -
  have "foldl (\<lambda>a b. 256 * a + unat b) 0 (dropWhile (\<lambda>b. b = 0) bs) =
      foldl (\<lambda>a b. 256 * a + unat b) 0 bs" for bs :: bytes
    by (induction bs) auto
  then show ?thesis by (simp add: be_val_def)
qed

lemma be_bytes_be_val: "bs \<noteq> [] \<longrightarrow> hd bs \<noteq> 0 \<Longrightarrow> be_bytes (be_val bs) = bs"
proof (induction bs rule: rev_induct)
  case (snoc b bs)
  have b: "unat b < 256" by (rule unat_lt_256)
  show ?case
  proof (cases "bs = []")
    case True
    then have "unat b \<noteq> 0" using snoc.prems by (auto simp: unat_eq_zero)
    then show ?thesis using True b by (simp add: be_val_def be_bytes.simps [of "unat b"])
  next
    case False
    then have IH: "be_bytes (be_val bs) = bs" using snoc by simp
    then have "be_val bs \<noteq> 0" using False by (metis be_bytes_0)
    then show ?thesis using b IH by (simp add: be_val_snoc be_bytes.simps [of "256 * be_val bs + unat b"])
  qed
qed simp

lemma hd_dropWhile_zero: "dropWhile (\<lambda>b. b = (0 :: byte)) bs \<noteq> [] \<longrightarrow> hd (dropWhile (\<lambda>b. b = 0) bs) \<noteq> 0"
  using hd_dropWhile [of "\<lambda>b. b = (0 :: byte)" bs] by simp

lemma be_bytes_PutUint64: "n < 2 ^ 64 \<Longrightarrow> dropWhile (\<lambda>b. b = 0) (PutUint64_BE n) = be_bytes n"
  using be_bytes_be_val [OF hd_dropWhile_zero, of "PutUint64_BE n"]
  by (simp add: be_val_dropWhile be_val_PutUint64)

section \<open>SHA-256\<close>

text \<open>The round constants, four to a numeral, most significant first.\<close>

definition quarters :: "128 word \<Rightarrow> 32 word list" where
  "quarters n = map (\<lambda>i. ucast (drop_bit i n)) [96, 64, 32, 0]"

definition sha256_K :: "32 word list" where
  "sha256_K = concat (map quarters
    [0x428a2f9871374491b5c0fbcfe9b5dba5, 0x3956c25b59f111f1923f82a4ab1c5ed5,
     0xd807aa9812835b01243185be550c7dc3, 0x72be5d7480deb1fe9bdc06a7c19bf174,
     0xe49b69c1efbe47860fc19dc6240ca1cc, 0x2de92c6f4a7484aa5cb0a9dc76f988da,
     0x983e5152a831c66db00327c8bf597fc7, 0xc6e00bf3d5a7914706ca635114292967,
     0x27b70a852e1b21384d2c6dfc53380d13, 0x650a7354766a0abb81c2c92e92722c85,
     0xa2bfe8a1a81a664bc24b8b70c76c51a3, 0xd192e819d6990624f40e3585106aa070,
     0x19a4c1161e376c082748774c34b0bcb5, 0x391c0cb34ed8aa4a5b9cca4f682e6ff3,
     0x748f82ee78a5636f84c878148cc70208, 0x90befffaa4506cebbef9a3f7c67178f2])"

definition sha256_H :: "32 word list" where
  "sha256_H = [0x6a09e667, 0xbb67ae85, 0x3c6ef372, 0xa54ff53a, 0x510e527f, 0x9b05688c, 0x1f83d9ab,
     0x5be0cd19]"

definition sha256_pad :: "bytes \<Rightarrow> bytes" where
  "sha256_pad m = m @ [0x80] @ replicate ((119 - length m mod 64) mod 64) 0
     @ PutUint64_BE (8 * length m mod 2 ^ 64)"

fun sha256_words :: "bytes \<Rightarrow> 32 word list" where
  "sha256_words (a # b # c # d # r) =
     word_of_nat (be_val [a, b, c, d]) # sha256_words r"
| "sha256_words _ = []"

text \<open>The message schedule, newest word first.\<close>

definition sha256_next :: "32 word list \<Rightarrow> 32 word" where
  "sha256_next ws =
     (let w15 = ws ! 14; w2 = ws ! 1
      in ws ! 15 + (word_rotr 7 w15 XOR word_rotr 18 w15 XOR drop_bit 3 w15) + ws ! 6
         + (word_rotr 17 w2 XOR word_rotr 19 w2 XOR drop_bit 10 w2))"

definition sha256_schedule :: "32 word list \<Rightarrow> 32 word list" where
  "sha256_schedule block = rev (((\<lambda>ws. sha256_next ws # ws) ^^ 48) (rev block))"

fun sha256_round :: "32 word \<times> 32 word \<Rightarrow> 32 word list \<Rightarrow> 32 word list" where
  "sha256_round (k, w) [a, b, c, d, e, f, g, h] =
     (let t1 = h + (word_rotr 6 e XOR word_rotr 11 e XOR word_rotr 25 e)
               + ((e AND f) XOR (NOT e AND g)) + k + w;
          t2 = (word_rotr 2 a XOR word_rotr 13 a XOR word_rotr 22 a)
               + ((a AND b) XOR (a AND c) XOR (b AND c))
      in [t1 + t2, a, b, c, d + t1, e, f, g])"
| "sha256_round _ st = st"

definition sha256_block :: "32 word list \<Rightarrow> 32 word list \<Rightarrow> 32 word list" where
  "sha256_block block st = map2 (+) st (fold sha256_round (zip sha256_K (sha256_schedule block)) st)"

fun sha256_blocks :: "nat \<Rightarrow> 32 word list \<Rightarrow> 32 word list \<Rightarrow> 32 word list" where
  "sha256_blocks 0 ws st = st"
| "sha256_blocks (Suc n) ws st = sha256_blocks n (drop 16 ws) (sha256_block (take 16 ws) st)"

definition word32_bytes :: "32 word \<Rightarrow> bytes" where
  "word32_bytes w = map (\<lambda>i. ucast (drop_bit (24 - 8 * i) w)) [0..<4]"

definition Sum256 :: "bytes \<Rightarrow> bytes" where
  "Sum256 m = (let ws = sha256_words (sha256_pad m)
     in concat (map word32_bytes (sha256_blocks (length ws div 16) ws sha256_H)))"

lemma length_sha256_round: "length st = 8 \<Longrightarrow> length (sha256_round kw st) = 8"
  by (induction kw st rule: sha256_round.induct) (auto simp: Let_def)

lemma length_sha256_fold: "length st = 8 \<Longrightarrow> length (fold sha256_round kws st) = 8"
  by (induction kws arbitrary: st) (auto simp: length_sha256_round)

lemma length_sha256_blocks: "length st = 8 \<Longrightarrow> length (sha256_blocks n ws st) = 8"
  by (induction n arbitrary: ws st) (auto simp: sha256_block_def length_sha256_fold)

lemma length_Sum256 [simp]: "length (Sum256 m) = 32"
proof -
  have "length (concat (map word32_bytes ws)) = 4 * length ws" for ws
    by (induction ws) (auto simp: word32_bytes_def)
  then show ?thesis by (simp add: Sum256_def Let_def length_sha256_blocks sha256_H_def)
qed

end
