(* ===== verification/Rlp.thy ===== *)
theory Rlp
  imports Bytes
begin

text \<open>
  The RLP encoder of \<^verbatim>\<open>internal/withdrawal/txbuilder.go\<close>, a decoder written from the RLP
  specification, and the proof that decoding inverts encoding. So the bytes that are signed and
  broadcast determine the list of fields they were made from.
\<close>

section \<open>Encoding\<close>

definition bigUint :: "nat \<Rightarrow> bytes" where
  "bigUint n = (if n = 0 then []
     else (case dropWhile (\<lambda>c. c = 0) (PutUint64_BE n) of
             [] \<Rightarrow> drop 7 (PutUint64_BE n)
           | bs \<Rightarrow> bs))"

definition stripZero :: "bytes \<Rightarrow> bytes" where
  "stripZero b = (if length b = 0 then [] else b)"

definition rlpEncodeLenPrefix :: "nat \<Rightarrow> byte \<Rightarrow> byte \<Rightarrow> bytes" where
  "rlpEncodeLenPrefix n offset longOffset =
     (if n \<le> 55 then [word_of_nat n + offset]
      else (let lenBytes = bigUint n in (longOffset + word_of_nat (length lenBytes)) # lenBytes))"

definition rlpEncodeItem :: "bytes \<Rightarrow> bytes" where
  "rlpEncodeItem b =
     (if length b = 1 \<and> hd b < 0x80 then b
      else rlpEncodeLenPrefix (length b) 0x80 0xb7 @ b)"

definition evmEncodeList :: "bytes list \<Rightarrow> bytes" where
  "evmEncodeList elems =
     (let inner = concat (map rlpEncodeItem elems)
      in rlpEncodeLenPrefix (length inner) 0xc0 0xf7 @ inner)"

section \<open>Decoding\<close>

text \<open>
  A payload announced by a prefix byte: \<open>short\<close> is the base of the one-byte form and \<open>long\<close> that
  of the form with a length field. The result is the payload and the rest of the input.
\<close>

definition rlp_payload :: "nat \<Rightarrow> nat \<Rightarrow> byte \<Rightarrow> bytes \<Rightarrow> (bytes \<times> bytes) option" where
  "rlp_payload short long b r =
     (if unat b \<le> short + 55
      then (let n = unat b - short in if n \<le> length r then Some (take n r, drop n r) else None)
      else (let ll = unat b - long; n = be_val (take ll r); r = drop ll r
            in if n \<le> length r then Some (take n r, drop n r) else None))"

definition rlp_item :: "bytes \<Rightarrow> (bytes \<times> bytes) option" where
  "rlp_item bs = (case bs of
     [] \<Rightarrow> None
   | b # r \<Rightarrow> if unat b < 0x80 then Some ([b], r)
             else if unat b < 0xc0 then rlp_payload 0x80 0xb7 b r else None)"

fun rlp_items :: "nat \<Rightarrow> bytes \<Rightarrow> bytes list option" where
  "rlp_items 0 bs = (if bs = [] then Some [] else None)"
| "rlp_items (Suc k) bs =
     (if bs = [] then Some []
      else (case rlp_item bs of
              None \<Rightarrow> None
            | Some (x, r) \<Rightarrow> map_option ((#) x) (rlp_items k r)))"

text \<open>Each item takes at least one byte, so the length of the payload bounds their number.\<close>

definition rlp_list :: "bytes \<Rightarrow> bytes list option" where
  "rlp_list bs = (case bs of
     [] \<Rightarrow> None
   | b # r \<Rightarrow> if unat b < 0xc0 then None
             else (case rlp_payload 0xc0 0xf7 b r of
                     Some (p, []) \<Rightarrow> rlp_items (length p) p
                   | _ \<Rightarrow> None))"

section \<open>Round trip\<close>

lemma bigUint_be_bytes: "n < 2 ^ 64 \<Longrightarrow> bigUint n = be_bytes n"
  using be_bytes_PutUint64 [of n] be_bytes_nonempty [of n] by (auto simp: bigUint_def split: list.split)

lemma unat_byte_add: "unat a + unat b < 256 \<Longrightarrow> unat (a + b :: byte) = unat a + unat b"
  by (simp add: unat_word_ariths)

lemma rlp_payload_prefix:
  fixes off loff :: byte
  assumes n: "length p < 2 ^ 64" and off: "unat off = short" "unat loff = long"
    and range: "long = short + 55" "short + 64 \<le> 256"
  shows "\<exists>b r. rlpEncodeLenPrefix (length p) off loff @ p @ rest = b # r \<and> short \<le> unat b
    \<and> unat b < short + 64 \<and> rlp_payload short long b r = Some (p, rest)"
proof (cases "length p \<le> 55")
  case True
  have "unat (word_of_nat (length p) + off) = length p + short"
    using True off range unat_byte_add [of "word_of_nat (length p)" off] by simp
  then show ?thesis
    using True range by (simp add: rlpEncodeLenPrefix_def rlp_payload_def Let_def)
next
  case False
  let ?l = "be_bytes (length p)"
  have l: "length ?l \<le> 8" using length_be_bytes [of "length p" 8] n by simp
  have ne: "?l \<noteq> []" using False by (auto simp: be_bytes_nonempty)
  have "unat (loff + word_of_nat (length ?l)) = long + length ?l"
    using l off range unat_byte_add [of loff "word_of_nat (length ?l)"] by simp
  then show ?thesis
    using False n l ne range by (simp add: rlpEncodeLenPrefix_def rlp_payload_def Let_def bigUint_be_bytes)
qed

lemma rlp_item_encode:
  assumes n: "length b < 2 ^ 64"
  shows "rlp_item (rlpEncodeItem b @ rest) = Some (b, rest)"
proof (cases "length b = 1 \<and> hd b < 0x80")
  case True
  then obtain x where x: "b = [x]" by (cases b) auto
  have "unat x < unat (0x80 :: byte)" using True by (simp add: x word_less_nat_alt)
  then have "unat x < 0x80" by simp
  then show ?thesis using True by (simp add: rlpEncodeItem_def x rlp_item_def)
next
  case False
  have off: "unat (0x80 :: byte) = 0x80" "unat (0xb7 :: byte) = 0xb7" by simp_all
  obtain c r where c: "rlpEncodeLenPrefix (length b) 0x80 0xb7 @ b @ rest = c # r" "0x80 \<le> unat c"
    "unat c < 0x80 + 64" "rlp_payload 0x80 0xb7 c r = Some (b, rest)"
    using rlp_payload_prefix [OF n off, of rest] by auto
  have "rlpEncodeItem b @ rest = c # r" using False c(1) by (simp only: rlpEncodeItem_def if_False append_assoc)
  then show ?thesis using c by (simp add: rlp_item_def)
qed

lemma rlpEncodeItem_nonempty: "rlpEncodeItem b \<noteq> []"
  by (auto simp: rlpEncodeItem_def rlpEncodeLenPrefix_def Let_def)

lemma length_rlpEncodeItem: "length b \<le> length (rlpEncodeItem b)"
  by (simp add: rlpEncodeItem_def)

lemma rlp_items_encode:
  "length (concat (map rlpEncodeItem es)) < 2 ^ 64 \<Longrightarrow> length es \<le> k \<Longrightarrow>
   rlp_items k (concat (map rlpEncodeItem es)) = Some es"
proof (induction es arbitrary: k)
  case Nil
  then show ?case by (cases k) auto
next
  case (Cons e es)
  obtain k' where k': "k = Suc k'" using Cons.prems(2) by (cases k) auto
  have "length e < 2 ^ 64" using Cons.prems(1) length_rlpEncodeItem [of e] by simp
  then show ?case
    using Cons.IH [of k'] Cons.prems k' rlpEncodeItem_nonempty [of e] by (simp add: rlp_item_encode)
qed

lemma length_concat_items: "length es \<le> length (concat (map rlpEncodeItem es))"
proof (induction es)
  case (Cons e es)
  have "1 \<le> length (rlpEncodeItem e)" using rlpEncodeItem_nonempty [of e] by (cases "rlpEncodeItem e") auto
  then show ?case using Cons by simp
qed simp

lemma rlp_roundtrip:
  assumes "length (concat (map rlpEncodeItem es)) < 2 ^ 64"
  shows "rlp_list (evmEncodeList es) = Some es"
proof -
  let ?p = "concat (map rlpEncodeItem es)"
  have off: "unat (0xc0 :: byte) = 0xc0" "unat (0xf7 :: byte) = 0xf7" by simp_all
  obtain b r where "evmEncodeList es = b # r" "0xc0 \<le> unat b" "rlp_payload 0xc0 0xf7 b r = Some (?p, [])"
    using rlp_payload_prefix [OF assms off, of "[]"] by (auto simp: evmEncodeList_def Let_def)
  then show ?thesis
    using rlp_items_encode [OF assms length_concat_items] by (simp add: rlp_list_def)
qed

end
