(* ===== verification/TxBuilder.thy ===== *)
theory TxBuilder
  imports Rlp Decimal
begin

text \<open>
  Transactions, \<^verbatim>\<open>internal/withdrawal/txbuilder.go\<close>: the payload that the MPC signer signs and the
  closure that puts the signature into the final bytes, for EVM chains (legacy EIP-155), Bitcoin
  (native SegWit) and Solana (one transfer instruction).

  The record \<open>txlib\<close> holds the third-party functions: Keccak-256, base58, and the address, script,
  sighash and wire-format functions of btcd.
\<close>

section \<open>Data\<close>

record TxIn =
  inHash :: bytes
  inIndex :: nat
  inSequence :: nat
  inWitness :: "bytes list"

record TxOut =
  outValue :: int
  outPkScript :: bytes

record MsgTx =
  msgVersion :: int
  msgTxIn :: "TxIn list"
  msgTxOut :: "TxOut list"

type_synonym prevouts = "((bytes \<times> nat) \<times> TxOut) list"

record txlib =
  keccak256 :: "bytes \<Rightarrow> bytes"
  base58_Decode :: "string \<Rightarrow> bytes"
  IntPart :: "rat \<Rightarrow> int"
  btcAddrScript :: "string \<Rightarrow> bytes res"
  p2wpkh_script :: "bytes \<Rightarrow> bytes"
  NewHashFromStr :: "string \<Rightarrow> bytes res"
  CalcWitnessSigHash :: "bytes \<Rightarrow> prevouts \<Rightarrow> MsgTx \<Rightarrow> nat \<Rightarrow> int \<Rightarrow> bytes res"
  tx_Serialize :: "MsgTx \<Rightarrow> bytes res"

record UnsignedTx =
  utChain :: chain
  utPayload :: bytes
  utAssemble :: "bytes \<Rightarrow> bytes res"

text \<open>A nil \<^verbatim>\<open>CompressedPubKey\<close> is \<open>None\<close>; the outcome of the blockhash fetcher is \<open>None\<close> when no
  fetcher is wired.\<close>

record BTCKeys =
  bkPubKeyHash :: bytes
  bkCompressedPubKey :: "bytes option"

record SolanaKeys =
  skFrom :: bytes

record BuildOpts =
  boBTC :: BTCKeys
  boSolana :: SolanaKeys
  boSolanaBlockhash :: "bytes res option"

definition zero_btc_keys :: BTCKeys where
  "zero_btc_keys = \<lparr>bkPubKeyHash = replicate 20 0, bkCompressedPubKey = None\<rparr>"

definition zero_solana_keys :: SolanaKeys where
  "zero_solana_keys = \<lparr>skFrom = replicate 32 0\<rparr>"

section \<open>EVM\<close>

definition EVMChainID :: int where "EVMChainID = 1"
definition EVMGasPrice :: int where "EVMGasPrice = 1000000000"
definition EVMGasLimit :: nat where "EVMGasLimit = 21000"

record evmLegacyTx =
  etNonce :: nat
  etGasPrice :: int
  etGasLimit :: nat
  etTo :: bytes
  etValue :: int
  etData :: bytes

definition hexNibble :: "char \<Rightarrow> byte res" where
  "hexNibble c =
     (let n = of_char c :: nat
      in if 48 \<le> n \<and> n \<le> 57 then Inr (word_of_nat (n - 48))
         else if 97 \<le> n \<and> n \<le> 102 then Inr (word_of_nat (n - 97 + 10))
         else if 65 \<le> n \<and> n \<le> 70 then Inr (word_of_nat (n - 65 + 10))
         else Inl (ErrText ''invalid hex char''))"

fun hex_pairs :: "string \<Rightarrow> bytes res" where
  "hex_pairs (a # b # r) =
     (case (hexNibble a, hexNibble b) of
        (Inr hi, Inr lo) \<Rightarrow>
          (case hex_pairs r of Inl e \<Rightarrow> Inl e | Inr bs \<Rightarrow> Inr ((push_bit 4 hi OR lo) # bs))
      | _ \<Rightarrow> Inl (ErrText ''invalid hex in EVM address''))"
| "hex_pairs _ = Inr []"

definition parseEVMAddress :: "string \<Rightarrow> bytes res" where
  "parseEVMAddress s0 =
     (let s = TrimSpace s0
      in if \<not> HasPrefix s ''0x'' \<or> length s \<noteq> 42 then Inl (ErrText ''invalid EVM address'')
         else hex_pairs (drop 2 s))"

definition evm_fields :: "evmLegacyTx \<Rightarrow> bytes list" where
  "evm_fields tx = [bigUint (etNonce tx), big_Bytes (etGasPrice tx), bigUint (etGasLimit tx), etTo tx,
     big_Bytes (etValue tx), stripZero (etData tx)]"

definition evmEncodeLegacyForSigning :: "evmLegacyTx \<Rightarrow> int \<Rightarrow> bytes" where
  "evmEncodeLegacyForSigning tx chainID =
     evmEncodeList (evm_fields tx @ [big_Bytes chainID, [], []])"

definition evmSigningHash :: "txlib \<Rightarrow> evmLegacyTx \<Rightarrow> int \<Rightarrow> bytes" where
  "evmSigningHash T tx chainID = keccak256 T (evmEncodeLegacyForSigning tx chainID)"

record evmSignedLegacyTx =
  esTx :: evmLegacyTx
  esV :: int
  esR :: int
  esS :: int

definition evmAssembleLegacyTx :: "evmLegacyTx \<Rightarrow> int \<Rightarrow> int \<Rightarrow> int \<Rightarrow> evmSignedLegacyTx" where
  "evmAssembleLegacyTx tx r s v = \<lparr>esTx = tx, esV = v, esR = r, esS = s\<rparr>"

definition evmEncodeSignedTx :: "evmSignedLegacyTx \<Rightarrow> bytes" where
  "evmEncodeSignedTx tx =
     evmEncodeList (evm_fields (esTx tx) @ [big_Bytes (esV tx), big_Bytes (esR tx), big_Bytes (esS tx)])"

definition evmSigFromMPC :: "bytes \<Rightarrow> int \<Rightarrow> (int \<times> int \<times> int) res" where
  "evmSigFromMPC sig chainID =
     (if length sig \<noteq> 65 then Inl (ErrText ''evm: signature must be 65 bytes'')
      else (let header = hd sig
            in if header < 27 \<or> header > 34 then Inl (ErrText ''evm: invalid recovery header'')
               else (let rid = uint header - 27;
                         recoveryID = (if rid \<ge> 4 then rid - 4 else rid);
                         r = big_SetBytes (take 32 (drop 1 sig));
                         s = big_SetBytes (take 32 (drop 33 sig));
                         v = chainID * 2 + (35 + recoveryID)
                     in Inr (r, s, v))))"

definition buildEVMUnsignedTx ::
    "txlib \<Rightarrow> Wallet \<Rightarrow> WithdrawalRequest \<Rightarrow> int \<Rightarrow> UnsignedTx res" where
  "buildEVMUnsignedTx T w wr nonce =
     (case parseEVMAddress (wrToAddress wr) of
        Inl e \<Rightarrow> Inl (ErrWrap ''evm to_address'' e)
      | Inr to \<Rightarrow>
          (case big_SetString (wrAmount wr) of
             None \<Rightarrow> Inl (ErrText ''evm amount parse'')
           | Some value \<Rightarrow>
               (let nonce = (if nonce < 0 then 0 else nonce);
                    tx = \<lparr>etNonce = nat nonce, etGasPrice = EVMGasPrice, etGasLimit = EVMGasLimit,
                          etTo = to, etValue = value, etData = []\<rparr>
                in Inr \<lparr>utChain = wChain w, utPayload = evmSigningHash T tx EVMChainID,
                        utAssemble = (\<lambda>signature.
                          case evmSigFromMPC signature EVMChainID of
                            Inl e \<Rightarrow> Inl e
                          | Inr (r, s, v) \<Rightarrow> Inr (evmEncodeSignedTx (evmAssembleLegacyTx tx r s v)))\<rparr>)))"

section \<open>Bitcoin\<close>

definition parseOutpoint :: "txlib \<Rightarrow> string \<Rightarrow> (bytes \<times> nat) res" where
  "parseOutpoint T s =
     (case SplitN2 CHR '':'' s of
        [txid, vout] \<Rightarrow>
          (case NewHashFromStr T txid of
             Inl e \<Rightarrow> Inl (ErrWrap ''parse txid'' e)
           | Inr h \<Rightarrow>
               (case ParseUint vout 32 of
                  Inl e \<Rightarrow> Inl (ErrWrap ''parse vout'' e)
                | Inr n \<Rightarrow> Inr (h, n)))
      | _ \<Rightarrow> Inl (ErrText ''outpoint must be txid:vout''))"

fun parse_outpoints :: "txlib \<Rightarrow> string list \<Rightarrow> (bytes \<times> nat) list res" where
  "parse_outpoints T [] = Inr []"
| "parse_outpoints T (op # ops) =
     (case parseOutpoint T op of
        Inl e \<Rightarrow> Inl (ErrWrap ''btc outpoint'' e)
      | Inr p \<Rightarrow> (case parse_outpoints T ops of Inl e \<Rightarrow> Inl e | Inr ps \<Rightarrow> Inr (p # ps)))"

text \<open>Go's integer division truncates towards zero.\<close>

definition go_quot :: "int \<Rightarrow> int \<Rightarrow> int" where
  "go_quot a b = (if a < 0 then - ((- a) div b) else a div b)"

fun sighashes :: "(nat \<Rightarrow> bytes res) \<Rightarrow> nat list \<Rightarrow> bytes res" where
  "sighashes h [] = Inr []"
| "sighashes h (i # is) =
     (case h i of
        Inl e \<Rightarrow> Inl (ErrWrap ''sighash input'' e)
      | Inr sh \<Rightarrow> (case sighashes h is of Inl e \<Rightarrow> Inl e | Inr r \<Rightarrow> Inr (sh @ r)))"

definition sign_input :: "bytes \<Rightarrow> bytes \<Rightarrow> nat \<Rightarrow> TxIn \<Rightarrow> TxIn" where
  "sign_input signature witnessPub i txin =
     txin\<lparr>inWitness := [take 64 (drop (i * 64) signature) @ [1], witnessPub]\<rparr>"

definition btc_assemble :: "txlib \<Rightarrow> MsgTx \<Rightarrow> bytes \<Rightarrow> bytes \<Rightarrow> bytes res" where
  "btc_assemble T tx witnessPub signature =
     (if length signature < 64 * length (msgTxIn tx) then Inl (ErrText ''btc: signature too short'')
      else (case tx_Serialize T (tx\<lparr>msgTxIn :=
                   map2 (sign_input signature witnessPub) [0..<length (msgTxIn tx)] (msgTxIn tx)\<rparr>) of
              Inl e \<Rightarrow> Inl (ErrWrap ''btc serialize'' e)
            | Inr bs \<Rightarrow> Inr bs))"

definition buildBTCUnsignedTx ::
    "txlib \<Rightarrow> declib \<Rightarrow> WithdrawalRequest \<Rightarrow> string list \<Rightarrow> BuildOpts \<Rightarrow> UnsignedTx res" where
  "buildBTCUnsignedTx T D wr outpoints opts =
     (if outpoints = [] then Inl (ErrText ''btc: no reserved outpoints'')
      else (case NewFromString D (wrAmount wr) of
        None \<Rightarrow> Inl (ErrText ''btc amount parse'')
      | Some amount \<Rightarrow>
          (let satoshis = IntPart T amount
           in case btcAddrScript T (wrToAddress wr) of
                Inl e \<Rightarrow> Inl (ErrWrap ''btc to_address'' e)
              | Inr toScript \<Rightarrow>
                  (let pkHash = bkPubKeyHash (boBTC opts);
                       witnessPub = (case bkCompressedPubKey (boBTC opts) of
                                       None \<Rightarrow> replicate 33 0 | Some p \<Rightarrow> p);
                       perInputAmount = go_quot satoshis (int (length outpoints));
                       pkScript = p2wpkh_script T pkHash
                   in case parse_outpoints T outpoints of
                        Inl e \<Rightarrow> Inl e
                      | Inr ps \<Rightarrow>
                          (let tx = \<lparr>msgVersion = 2,
                                 msgTxIn = map (\<lambda>(h, i). \<lparr>inHash = h, inIndex = i,
                                     inSequence = 0xfffffffd, inWitness = []\<rparr>) ps,
                                 msgTxOut = [\<lparr>outValue = satoshis, outPkScript = toScript\<rparr>]\<rparr>;
                               prev = map (\<lambda>p. (p, \<lparr>outValue = perInputAmount, outPkScript = pkScript\<rparr>)) ps
                           in case sighashes (\<lambda>i. CalcWitnessSigHash T pkScript prev tx i perInputAmount)
                                     [0..<length ps] of
                                Inl e \<Rightarrow> Inl e
                              | Inr payload \<Rightarrow>
                                  Inr \<lparr>utChain = ChainBitcoin, utPayload = payload,
                                       utAssemble = btc_assemble T tx witnessPub\<rparr>)))))"

section \<open>Solana\<close>

abbreviation system_program_id :: string where
  "system_program_id \<equiv> ''11111111111111111111111111111111''"

definition decodeSolanaPubkey :: "txlib \<Rightarrow> string \<Rightarrow> bytes res" where
  "decodeSolanaPubkey T s =
     (let dec = base58_Decode T s
      in if length dec = 0 \<and> s \<noteq> system_program_id then Inl (ErrText ''base58 decode'')
         else if length dec \<noteq> 32 then Inl (ErrText ''pubkey must be 32 bytes'')
         else Inr dec)"

definition solanaSystemProgram :: "txlib \<Rightarrow> bytes" where
  "solanaSystemProgram T = (case decodeSolanaPubkey T system_program_id of Inr b \<Rightarrow> b | Inl _ \<Rightarrow> [])"

definition buildSolanaMessage :: "txlib \<Rightarrow> bytes \<Rightarrow> bytes \<Rightarrow> nat \<Rightarrow> bytes \<Rightarrow> bytes" where
  "buildSolanaMessage T from to lamports blockhash =
     (let ixData = [2] @ PutUint64_LE lamports;
          accounts = [from, to, solanaSystemProgram T]
      in [1, 0, 1] @ [word_of_nat (length accounts)] @ concat accounts @ blockhash
         @ [1, 2, 2, 0, 1] @ [word_of_nat (length ixData)] @ ixData)"

definition buildSolanaTransaction :: "bytes \<Rightarrow> bytes list \<Rightarrow> bytes" where
  "buildSolanaTransaction message signatures =
     [word_of_nat (length signatures)] @ concat signatures @ message"

definition placeholder_blockhash :: bytes where
  "placeholder_blockhash = Sum256 (string_bytes ''solana-recent-blockhash-placeholder'')"

definition buildSolanaUnsignedTx ::
    "txlib \<Rightarrow> WithdrawalRequest \<Rightarrow> BuildOpts \<Rightarrow> UnsignedTx res" where
  "buildSolanaUnsignedTx T wr opts =
     (let from = (if skFrom (boSolana opts) = replicate 32 0
                  then Sum256 (string_bytes (wrWalletID wr)) else skFrom (boSolana opts))
      in case decodeSolanaPubkey T (wrToAddress wr) of
           Inl e \<Rightarrow> Inl (ErrWrap ''solana to_address'' e)
         | Inr to \<Rightarrow>
             (case ParseUint (wrAmount wr) 64 of
                Inl e \<Rightarrow> Inl (ErrWrap ''solana amount parse'' e)
              | Inr lamports \<Rightarrow>
                  (case (case boSolanaBlockhash opts of
                           Some (Inl e) \<Rightarrow> if errors_Is e ErrNoSolanaRPC then Inr placeholder_blockhash
                                           else Inl (ErrWrap ''solana: fetch recent blockhash'' e)
                         | Some (Inr h) \<Rightarrow> Inr h
                         | None \<Rightarrow> Inr placeholder_blockhash) of
                     Inl e \<Rightarrow> Inl e
                   | Inr blockhash \<Rightarrow>
                       (let msg = buildSolanaMessage T from to lamports blockhash
                        in Inr \<lparr>utChain = ChainSolana, utPayload = msg,
                                utAssemble = (\<lambda>signature.
                                  if length signature \<noteq> 64
                                  then Inl (ErrText ''solana: signature must be 64 bytes'')
                                  else Inr (buildSolanaTransaction msg [signature]))\<rparr>))))"

section \<open>Dispatch\<close>

definition BuildUnsignedTx ::
    "txlib \<Rightarrow> declib \<Rightarrow> Wallet \<Rightarrow> WithdrawalRequest \<Rightarrow> int \<Rightarrow> string list \<Rightarrow> BuildOpts \<Rightarrow> UnsignedTx res" where
  "BuildUnsignedTx T D w wr nonce outpoints opts =
     (if IsEVM (wChain w) then buildEVMUnsignedTx T w wr nonce
      else if wChain w = ChainBitcoin then buildBTCUnsignedTx T D wr outpoints opts
      else if wChain w = ChainSolana then buildSolanaUnsignedTx T wr opts
      else Inl (ErrText ''unsupported chain''))"

section \<open>What the bytes say\<close>

text \<open>An encoding is far below the size at which the length prefix of RLP overflows.\<close>

definition evm_small :: "bytes list \<Rightarrow> bool" where
  "evm_small es = (length (concat (map rlpEncodeItem es)) < 2 ^ 64)"

lemma evm_list_decode: "evm_small es \<Longrightarrow> rlp_list (evmEncodeList es) = Some es"
  by (simp add: evm_small_def rlp_roundtrip)

lemma evm_list_inject:
  "evm_small es \<Longrightarrow> evm_small es' \<Longrightarrow> evmEncodeList es = evmEncodeList es' \<longleftrightarrow> es = es'"
  using evm_list_decode by (metis option.inject)

lemma big_Bytes_inject [simp]: "big_Bytes i = big_Bytes j \<longleftrightarrow> \<bar>i\<bar> = \<bar>j\<bar>"
  by (simp add: big_Bytes_def nat_eq_iff)

lemma stripZero_id [simp]: "stripZero b = b"
  by (simp add: stripZero_def)

lemma length_hex_pairs: "hex_pairs s = Inr bs \<Longrightarrow> length bs = length s div 2"
  by (induction s arbitrary: bs rule: hex_pairs.induct) (auto split: sum.splits)

lemma length_parseEVMAddress: "parseEVMAddress s = Inr bs \<Longrightarrow> length bs = 20"
  by (auto simp: parseEVMAddress_def Let_def dest: length_hex_pairs split: if_splits)

definition evm_request_tx :: "bytes \<Rightarrow> int \<Rightarrow> int \<Rightarrow> evmLegacyTx" where
  "evm_request_tx to amt nonce = \<lparr>etNonce = nat nonce, etGasPrice = EVMGasPrice,
     etGasLimit = EVMGasLimit, etTo = to, etValue = amt, etData = []\<rparr>"

lemma buildEVM_ok:
  assumes "buildEVMUnsignedTx T w wr nonce = Inr u" and "0 \<le> nonce"
  obtains to amt where "parseEVMAddress (wrToAddress wr) = Inr to" "big_SetString (wrAmount wr) = Some amt"
    "utPayload u = evmSigningHash T (evm_request_tx to amt nonce) EVMChainID"
    "\<And>sig bs. utAssemble u sig = Inr bs \<Longrightarrow> \<exists>r s v. evmSigFromMPC sig EVMChainID = Inr (r, s, v)
       \<and> bs = evmEncodeSignedTx (evmAssembleLegacyTx (evm_request_tx to amt nonce) r s v)"
proof -
  obtain to amt where p: "parseEVMAddress (wrToAddress wr) = Inr to" "big_SetString (wrAmount wr) = Some amt"
    using assms(1) by (auto simp: buildEVMUnsignedTx_def split: sum.splits option.splits)
  then have "u = \<lparr>utChain = wChain w, utPayload = evmSigningHash T (evm_request_tx to amt nonce) EVMChainID,
      utAssemble = (\<lambda>signature. case evmSigFromMPC signature EVMChainID of
          Inl e \<Rightarrow> Inl e
        | Inr (r, s, v) \<Rightarrow> Inr (evmEncodeSignedTx (evmAssembleLegacyTx (evm_request_tx to amt nonce) r s v)))\<rparr>"
    using assms by (simp add: buildEVMUnsignedTx_def Let_def flip: evm_request_tx_def)
  then show thesis
    by (intro that [OF p]) (auto split: sum.splits)
qed

lemma evmSigFromMPC_ok:
  assumes "evmSigFromMPC sig chainID = Inr (r, s, v)"
  shows "length sig = 65 \<and> r = big_SetBytes (take 32 (drop 1 sig)) \<and> s = big_SetBytes (drop 33 sig)
    \<and> (\<exists>rid \<in> {0..3}. v = chainID * 2 + 35 + rid \<and> uint (hd sig) \<in> {27 + rid, 31 + rid})"
proof -
  have len: "length sig = 65" and hdr: "\<not> (hd sig < 27 \<or> hd sig > 34)"
    using assms by (auto simp: evmSigFromMPC_def Let_def split: if_splits)
  have rng: "27 \<le> uint (hd sig)" "uint (hd sig) \<le> 34"
    using hdr by (simp_all add: word_less_def not_less)
  have rs: "r = big_SetBytes (take 32 (drop 1 sig))" "s = big_SetBytes (take 32 (drop 33 sig))"
    and v: "v = chainID * 2 + (35 + (if uint (hd sig) - 27 \<ge> 4 then uint (hd sig) - 27 - 4 else uint (hd sig) - 27))"
    using assms len hdr by (auto simp: evmSigFromMPC_def Let_def)
  have "take 32 (drop 33 sig) = drop 33 sig" using len by simp
  moreover have "\<exists>rid \<in> {0..3}. v = chainID * 2 + 35 + rid \<and> uint (hd sig) \<in> {27 + rid, 31 + rid}"
    using v rng by (intro bexI [of _ "if uint (hd sig) - 27 \<ge> 4 then uint (hd sig) - 27 - 4 else uint (hd sig) - 27"])
      (auto split: if_splits)
  ultimately show ?thesis using len rs by simp
qed

lemma char_digit_lt: "char_digit c = Some d \<Longrightarrow> d < 10"
  by (auto simp: char_digit_def Let_def split: if_splits)

lemma digits_val_bound: "digits_val acc s = Some n \<Longrightarrow> n < (acc + 1) * 10 ^ length s"
proof (induction s arbitrary: acc)
  case (Cons c cs)
  obtain d where d: "char_digit c = Some d" "digits_val (10 * acc + d) cs = Some n"
    using Cons.prems by (auto split: option.splits)
  have "n < (10 * acc + d + 1) * 10 ^ length cs" using Cons.IH [OF d(2)] .
  also have "\<dots> \<le> (10 * (acc + 1)) * 10 ^ length cs"
    using char_digit_lt [OF d(1)] by (intro mult_right_mono) auto
  finally show ?case by (simp add: algebra_simps)
qed simp

lemma parse_nat_bound: "parse_nat s = Some n \<Longrightarrow> n < 10 ^ length s"
  using digits_val_bound [of 0 s n] by (auto simp: parse_nat_def split: if_splits)

lemma parse_int_bound:
  assumes "parse_int s = Some i"
  shows "nat \<bar>i\<bar> < 10 ^ length s"
proof (cases s)
  case (Cons c cs)
  have le: "(10::nat) ^ length cs \<le> 10 ^ length s" by (simp add: Cons)
  show ?thesis
    using assms parse_nat_bound [of cs] parse_nat_bound [of s] le
    by (fastforce simp: Cons split: if_splits)
qed (use assms in simp)

lemma length_amount_bytes: "big_SetString s = Some i \<Longrightarrow> length (be_bytes (nat \<bar>i\<bar>)) \<le> length s"
proof -
  assume "big_SetString s = Some i"
  then have "nat \<bar>i\<bar> < 10 ^ length s" using parse_int_bound [of s i] by (simp only: big_SetString_def)
  also have "\<dots> \<le> 256 ^ length s" by (intro power_mono) auto
  finally show ?thesis by (rule length_be_bytes)
qed

lemma length_rlpEncodeItem_le: "length b < 2 ^ 64 \<Longrightarrow> length (rlpEncodeItem b) \<le> 9 + length b"
  using length_be_bytes [of "length b" 8]
  by (auto simp: rlpEncodeItem_def rlpEncodeLenPrefix_def Let_def bigUint_be_bytes)

lemma length_items_le:
  "\<forall>b \<in> set es. length b \<le> m \<Longrightarrow> m < 2 ^ 64 \<Longrightarrow> length (concat (map rlpEncodeItem es)) \<le> length es * (9 + m)"
proof (induction es)
  case (Cons e es)
  have "length (rlpEncodeItem e) \<le> 9 + m" using length_rlpEncodeItem_le [of e] Cons.prems by simp
  then show ?case using Cons by simp
qed simp

lemma evm_smallI: "length es \<le> 9 \<Longrightarrow> \<forall>b \<in> set es. length b \<le> 2 ^ 32 \<Longrightarrow> evm_small es"
proof -
  assume es: "length es \<le> 9" "\<forall>b \<in> set es. length b \<le> 2 ^ 32"
  have "length (concat (map rlpEncodeItem es)) \<le> length es * (9 + 2 ^ 32)"
    using length_items_le [OF es(2)] by simp
  also have "\<dots> \<le> 9 * (9 + 2 ^ 32)" using es(1) by (intro mult_right_mono) auto
  also have "\<dots> < 2 ^ 64" by simp
  finally show ?thesis by (simp add: evm_small_def)
qed

text \<open>The six fields that an EVM withdrawal fixes before it is signed.\<close>

definition evm_request_fields :: "bytes \<Rightarrow> int \<Rightarrow> int \<Rightarrow> bytes list" where
  "evm_request_fields to amt nonce = [be_bytes (nat nonce), be_bytes 1000000000, be_bytes 21000, to,
     be_bytes (nat \<bar>amt\<bar>), []]"

lemma evm_request_fields_eq:
  assumes "0 \<le> nonce" "nonce < 2 ^ 63"
  shows "evm_fields (evm_request_tx to amt nonce) = evm_request_fields to amt nonce"
proof -
  have "nat nonce < 2 ^ 64" using assms by simp
  then show ?thesis
    by (simp add: evm_fields_def evm_request_tx_def evm_request_fields_def bigUint_be_bytes EVMGasPrice_def EVMGasLimit_def
        big_Bytes_def)
qed

lemma evm_request_fields_small:
  assumes "0 \<le> nonce" "nonce < 2 ^ 63" "length to = 20" "length (be_bytes (nat \<bar>amt\<bar>)) \<le> 2 ^ 32"
    "length es = 3" "\<forall>b \<in> set es. length b \<le> 2 ^ 32"
  shows "evm_small (evm_request_fields to amt nonce @ es)"
proof (rule evm_smallI)
  have "nat nonce < 256 ^ 8" using assms(1,2) by simp
  then have "length (be_bytes (nat nonce)) \<le> 8" by (rule length_be_bytes)
  moreover have "length (be_bytes 1000000000) \<le> 4" "length (be_bytes 21000) \<le> 4"
    by (rule length_be_bytes, simp)+
  ultimately show "\<forall>b \<in> set (evm_request_fields to amt nonce @ es). length b \<le> 2 ^ 32"
    using assms by (auto simp: evm_request_fields_def)
qed (use assms in \<open>simp add: evm_request_fields_def\<close>)

section \<open>Sample\<close>

text \<open>The bytes assembled for an EVM withdrawal, as a list of fields, and the hash that was signed.\<close>

definition evm_sig_fields :: "bytes \<Rightarrow> int \<Rightarrow> bytes list" where
  "evm_sig_fields sig rid =
     [be_bytes (nat (37 + rid)), be_bytes (be_val (take 32 (drop 1 sig))), be_bytes (be_val (drop 33 sig))]"

lemma evm_assembled:
  assumes "buildEVMUnsignedTx T w wr nonce = Inr u" and "0 \<le> nonce" and "nonce < 2 ^ 63"
    and "length (wrAmount wr) \<le> 2 ^ 32" and "utAssemble u sig = Inr bs"
  obtains to amt rid where "parseEVMAddress (wrToAddress wr) = Inr to" "big_SetString (wrAmount wr) = Some amt"
    "rid \<in> {0..3}" "uint (hd sig) \<in> {27 + rid, 31 + rid}"
    "utPayload u = keccak256 T (evmEncodeList (evm_request_fields to amt nonce @ [be_bytes 1, [], []]))"
    "bs = evmEncodeList (evm_request_fields to amt nonce @ evm_sig_fields sig rid)"
    "evm_small (evm_request_fields to amt nonce @ evm_sig_fields sig rid)"
proof -
  obtain to amt where to: "parseEVMAddress (wrToAddress wr) = Inr to"
    and amt: "big_SetString (wrAmount wr) = Some amt"
    and u: "utPayload u = evmSigningHash T (evm_request_tx to amt nonce) EVMChainID"
    and asm: "\<And>sig bs. utAssemble u sig = Inr bs \<Longrightarrow> \<exists>r s v. evmSigFromMPC sig EVMChainID = Inr (r, s, v)
       \<and> bs = evmEncodeSignedTx (evmAssembleLegacyTx (evm_request_tx to amt nonce) r s v)"
    using buildEVM_ok [OF assms(1,2)] by blast
  obtain r s v where rsv: "evmSigFromMPC sig EVMChainID = Inr (r, s, v)"
    and bs: "bs = evmEncodeSignedTx (evmAssembleLegacyTx (evm_request_tx to amt nonce) r s v)"
    using asm [OF assms(5)] by blast
  obtain rid where rid: "rid \<in> {0..3}" "v = 37 + rid" "uint (hd sig) \<in> {27 + rid, 31 + rid}" and sg: "length sig = 65"
    "r = big_SetBytes (take 32 (drop 1 sig))" "s = big_SetBytes (drop 33 sig)"
    using evmSigFromMPC_ok [OF rsv] by (auto simp: EVMChainID_def)
  have len: "length (take 32 (drop 1 sig)) = 32" "length (drop 33 sig) = 32" using sg(1) by simp_all
  have "length (be_bytes (be_val (take 32 (drop 1 sig)))) \<le> 32" "length (be_bytes (be_val (drop 33 sig))) \<le> 32"
    using be_val_bound [of "take 32 (drop 1 sig)"] be_val_bound [of "drop 33 sig"]
    unfolding len by (simp_all only: length_be_bytes)
  moreover have "length (be_bytes (nat (37 + rid))) \<le> 1" using rid(1) by (intro length_be_bytes) auto
  moreover have "length (be_bytes (nat \<bar>amt\<bar>)) \<le> 2 ^ 32"
    using length_amount_bytes [OF amt] assms(4) by linarith
  ultimately have small: "evm_small (evm_request_fields to amt nonce @ evm_sig_fields sig rid)"
    unfolding evm_sig_fields_def using length_parseEVMAddress [OF to] assms(2,3) by (intro evm_request_fields_small) auto
  have "bs = evmEncodeList (evm_request_fields to amt nonce @ evm_sig_fields sig rid)"
    using bs rid sg(2,3)
    by (simp add: evmEncodeSignedTx_def evmAssembleLegacyTx_def evm_request_fields_eq [OF assms(2,3)]
        big_Bytes_def big_SetBytes_def evm_sig_fields_def)
  moreover have "utPayload u = keccak256 T (evmEncodeList (evm_request_fields to amt nonce @ [be_bytes 1, [], []]))"
    by (simp add: u evmSigningHash_def evmEncodeLegacyForSigning_def evm_request_fields_eq [OF assms(2,3)]
        EVMChainID_def big_Bytes_def)
  ultimately show thesis using that [OF to amt rid(1,3)] small by simp
qed

text \<open>Concrete functions for the third-party library, for the witnesses.\<close>

definition sample_txlib :: txlib where
  "sample_txlib = \<lparr>keccak256 = Sum256, base58_Decode = (\<lambda>s. replicate 32 (if s = system_program_id then 0 else 7)),
     IntPart = (\<lambda>r. floor r), btcAddrScript = (\<lambda>s. Inr (string_bytes s)), p2wpkh_script = (\<lambda>h. 0 # 20 # h),
     NewHashFromStr = (\<lambda>s. Inr (Sum256 (string_bytes s))),
     CalcWitnessSigHash = (\<lambda>sc prev tx i amt. Inr (Sum256 (sc @ [word_of_nat i]))),
     tx_Serialize = (\<lambda>tx. Inr (concat (concat (map inWitness (msgTxIn tx)))))\<rparr>"

definition sample_wallet :: "chain \<Rightarrow> Wallet" where
  "sample_wallet ch = \<lparr>wID = ''w'', wChain = ch, wType = WalletTypeHot, wLabel = ''treasury'',
     wState = WalletStateActive, wKeyID = ''k1'', wCustodianRef = ''mpc'', wRotationDays = None,
     wRotationAfterReceives = None, wCreatedAt = 1, wUpdatedAt = 1\<rparr>"

definition sample_withdrawal :: "string \<Rightarrow> string \<Rightarrow> WithdrawalRequest" where
  "sample_withdrawal to amt = \<lparr>wrID = ''x'', wrWalletID = ''w'', wrToAddress = to, wrAsset = ''ETH'',
     wrAmount = amt, wrState = WithdrawalStateWhitelisted, wrPolicyDecisionID = [], wrFailureReason = [],
     wrTxHash = [], wrNonceValue = None, wrReservedOutpoints = [], wrSignedTxBytes = [],
     wrCreatedAt = 1, wrUpdatedAt = 1\<rparr>"

definition sample_to :: string where
  "sample_to = ''0x'' @ concat (replicate 20 ''0a'')"

lemma sample_to_parse: "parseEVMAddress sample_to = Inr (replicate 20 10)"
proof -
  have "TrimSpace sample_to = sample_to"
    by (rule TrimSpace_graphic) (simp_all add: sample_to_def graphic_def numeral_eq_Suc)
  moreover have "hex_pairs (concat (replicate n ''0a'')) = Inr (replicate n 10)" for n
    by (induction n) (simp_all add: hexNibble_def Let_def)
  ultimately show ?thesis
    by (simp add: parseEVMAddress_def sample_to_def HasPrefix_def length_concat sum_list_replicate)
qed

lemma sample_amounts: "big_SetString ''5'' = Some 5" "big_SetString ''-5'' = Some (-5)"
  by (simp_all add: big_SetString_def parse_nat_def char_digit_def Let_def)

abbreviation sample_sig :: bytes where
  "sample_sig \<equiv> 28 # replicate 64 1"

section \<open>Properties\<close>



text \<open>
  The sign of an EVM amount is lost: a withdrawal with a negative amount is built, and the hash that
  is signed is that of the withdrawal with the positive amount.
\<close>

lemma evm_amount_sign_lost:
  assumes "big_SetString a = Some v" and "big_SetString b = Some (- v)"
    and "buildEVMUnsignedTx T w (wr\<lparr>wrAmount := a\<rparr>) nonce = Inr u"
  shows "\<exists>u'. buildEVMUnsignedTx T w (wr\<lparr>wrAmount := b\<rparr>) nonce = Inr u' \<and> utPayload u' = utPayload u"
  using assms
  by (auto simp: buildEVMUnsignedTx_def Let_def evmSigningHash_def evmEncodeLegacyForSigning_def evm_fields_def
      big_Bytes_def split: sum.splits)

lemma map2_upt_const: "length xs = n \<Longrightarrow> map2 f [0..<n] xs = map (\<lambda>i. f i (xs ! i)) [0..<n]"
  by (auto simp: list_eq_iff_nth_eq)

lemma length_system_program: "length (base58_Decode T system_program_id) = 32 \<Longrightarrow> length (solanaSystemProgram T) = 32"
  by (simp add: solanaSystemProgram_def decodeSolanaPubkey_def Let_def)

lemma solana_message_slices:
  assumes "length from = 32" "length to = 32" "length bh = 32" "length (base58_Decode T system_program_id) = 32"
    and msg: "msg = buildSolanaMessage T from to lamports bh"
  shows "length msg = 147" "take 32 (drop 4 msg) = from" "take 32 (drop 36 msg) = to"
    "take 32 (drop 100 msg) = bh" "drop 132 msg = [1, 2, 2, 0, 1, 9, 2] @ PutUint64_LE lamports"
  using assms length_system_program [OF assms(4)]
  by (simp_all add: buildSolanaMessage_def Let_def)

lemma lamports_roundtrip: "n < 2 ^ 64 \<Longrightarrow> be_val (rev (PutUint64_LE n)) = n"
  by (simp add: PutUint64_LE_def be_val_PutUint64)

lemma ParseUint_bound: "ParseUint s k = Inr n \<Longrightarrow> n < 2 ^ k"
  by (auto simp: ParseUint_def split: option.splits if_splits)


definition sample_opts :: BuildOpts where
  "sample_opts = \<lparr>boBTC = \<lparr>bkPubKeyHash = replicate 20 3, bkCompressedPubKey = Some (replicate 33 2)\<rparr>,
     boSolana = \<lparr>skFrom = replicate 32 9\<rparr>, boSolanaBlockhash = Some (Inr (replicate 32 4))\<rparr>"

lemma ParseUint_five: "ParseUint ''5'' 64 = Inr 5" "ParseUint ''1'' 32 = Inr 1"
  by (simp_all add: ParseUint_def parse_nat_def char_digit_def Let_def)


lemma length_parse_outpoints: "parse_outpoints T ops = Inr ps \<Longrightarrow> length ps = length ops"
  by (induction ops arbitrary: ps) (auto split: sum.splits)



end
