(* ===== verification/Deriver.thy ===== *)
theory Deriver
  imports World Bytes
begin

text \<open>
  Address derivation, \<^verbatim>\<open>internal/deriver\<close>: the EVM, Bitcoin and Solana derivers and the registry that
  picks one by chain. The record \<open>keylib\<close> holds the third-party functions: BIP-32 child derivation
  from an extended public key, secp256k1 point parsing, Keccak-256, HASH160, bech32 and base58.
  A panic of the source is an error value here.
\<close>

section \<open>Data\<close>

type_synonym xkey = bytes

record keylib =
  NewKeyFromString :: "string \<Rightarrow> xkey res"
  key_Derive :: "xkey \<Rightarrow> nat \<Rightarrow> xkey res"
  key_Compressed :: "xkey \<Rightarrow> bytes res"
  ParsePubKey :: "bytes \<Rightarrow> (nat \<times> nat) res"
  kl_keccak256 :: "bytes \<Rightarrow> bytes"
  Hash160 :: "bytes \<Rightarrow> bytes"
  ConvertBits :: "bytes \<Rightarrow> bytes res"
  bech32_Encode :: "string \<Rightarrow> bytes \<Rightarrow> string res"
  base58_Encode :: "bytes \<Rightarrow> string"

record Result =
  rAddress :: string
  rDerivationPath :: string
  rIndex :: int
  rChange :: int

record Registry =
  evm_xpub :: string
  btc_xpub :: string
  sol_pubkeyBase58 :: string
  reg_ttl :: int

section \<open>Paths and indices\<close>

definition nonHardened :: "int \<Rightarrow> nat res" where
  "nonHardened n = (if n < 0 \<or> n \<ge> 0x80000000
     then Inl (ErrText ''derivation index out of non-hardened range'') else Inr (nat n))"

definition ParseXpub :: "string \<Rightarrow> string res" where
  "ParseXpub s = (let s = TrimSpace s in if s = [] then Inl (ErrText ''empty xpub'') else Inr s)"

definition parseBTCPath :: "string \<Rightarrow> (int \<times> int) res" where
  "parseBTCPath path =
     (let parts = Split CHR ''/'' (TrimSpace path)
      in if length parts \<noteq> 6 \<or> parts ! 0 \<noteq> ''m'' then Inl (ErrText ''expected a BIP-84 path'')
         else (case Atoi (parts ! 4) of
                 Inl e \<Rightarrow> Inl (ErrWrap ''parse change'' e)
               | Inr change \<Rightarrow>
                   (case Atoi (parts ! 5) of
                      Inl e \<Rightarrow> Inl (ErrWrap ''parse index'' e)
                    | Inr index \<Rightarrow> Inr (change, index))))"

section \<open>EVM\<close>

text \<open>\<^verbatim>\<open>copy(out[1:33], x.Bytes())\<close> puts the bytes at the start of the 32-byte field.\<close>

definition copy32 :: "bytes \<Rightarrow> bytes" where
  "copy32 bs = take 32 (bs @ replicate 32 0)"

definition decompressSecp256k1 :: "keylib \<Rightarrow> bytes \<Rightarrow> bytes res" where
  "decompressSecp256k1 K compressed =
     (if length compressed \<noteq> 33 then Inl (ErrText ''invalid compressed pubkey length'')
      else (case ParsePubKey K compressed of
              Inl e \<Rightarrow> Inl (ErrWrap ''parse pubkey'' e)
            | Inr (X, Y) \<Rightarrow> Inr (0x04 # copy32 (be_bytes X) @ copy32 (be_bytes Y))))"

definition hex_digit :: "nat \<Rightarrow> char" where
  "hex_digit n = char_of (if n < 10 then 48 + n else 87 + n)"

definition EncodeToString :: "bytes \<Rightarrow> string" where
  "EncodeToString bs = concat (map (\<lambda>b. [hex_digit (unat b div 16), hex_digit (unat b mod 16)]) bs)"

definition to_lower :: "char \<Rightarrow> char" where
  "to_lower c = (let n = of_char c :: nat in if 65 \<le> n \<and> n \<le> 90 then char_of (n + 32) else c)"

definition checksum_char :: "char \<Rightarrow> char \<Rightarrow> char" where
  "checksum_char c h =
     (let n = of_char c :: nat
      in if 48 \<le> n \<and> n \<le> 57 then c
         else if of_char h \<ge> (56 :: nat) then char_of (n - 32) else c)"

definition eip55Checksum :: "keylib \<Rightarrow> string \<Rightarrow> string" where
  "eip55Checksum K addr =
     (let addrLower = map to_lower (TrimPrefix addr ''0x'');
          hh = EncodeToString (kl_keccak256 K (string_bytes addrLower))
      in ''0x'' @ map2 checksum_char addrLower hh)"

definition evmAddressFromCompressedPubkey :: "keylib \<Rightarrow> bytes \<Rightarrow> string res" where
  "evmAddressFromCompressedPubkey K compressed =
     (if length compressed \<noteq> 33 then Inl (ErrText ''panic: expected 33-byte compressed pubkey'')
      else (case decompressSecp256k1 K compressed of
              Inl e \<Rightarrow> Inl (ErrWrap ''panic'' e)
            | Inr pub \<Rightarrow>
                Inr (eip55Checksum K (EncodeToString (drop 12 (kl_keccak256 K (drop 1 pub)))))))"

definition evm_deriveUncached :: "keylib \<Rightarrow> string \<Rightarrow> int \<Rightarrow> string res" where
  "evm_deriveUncached K xpub index =
     (case NewKeyFromString K xpub of
        Inl e \<Rightarrow> Inl (ErrWrap ''parse xpub'' e)
      | Inr acc \<Rightarrow>
     (case key_Derive K acc 0 of
        Inl e \<Rightarrow> Inl (ErrWrap ''derive external chain'' e)
      | Inr ext \<Rightarrow>
     (case nonHardened index of
        Inl e \<Rightarrow> Inl e
      | Inr childIdx \<Rightarrow>
     (case key_Derive K ext childIdx of
        Inl e \<Rightarrow> Inl (ErrWrap ''derive index'' e)
      | Inr child \<Rightarrow>
     (case key_Compressed K child of
        Inl e \<Rightarrow> Inl (ErrWrap ''ec pubkey'' e)
      | Inr ecBytes \<Rightarrow> evmAddressFromCompressedPubkey K ecBytes)))))"

text \<open>The memoised derivation of every deriver: on the world's cache and clock.\<close>

definition derive_cached :: "int \<Rightarrow> string \<Rightarrow> string res \<Rightarrow> world \<Rightarrow> string res \<times> world" where
  "derive_cached ttl key compute w =
     (case memoise (now w) ttl key compute (dcache w) of (r, m) \<Rightarrow> (r, w\<lparr>dcache := m\<rparr>))"

definition evm_path :: "int \<Rightarrow> string" where
  "evm_path index = ''m/44'' @ [CHR 0x27] @ ''/60'' @ [CHR 0x27] @ ''/0'' @ [CHR 0x27] @ ''/0/'' @ show_int index"

definition evm_cacheKey :: "string \<Rightarrow> int \<Rightarrow> string" where
  "evm_cacheKey xpub index = ''deriv:evm:'' @ xpub @ '':'' @ show_int index"

definition evm_DeriveAt ::
    "keylib \<Rightarrow> string \<Rightarrow> int \<Rightarrow> chain \<Rightarrow> int \<Rightarrow> int \<Rightarrow> world \<Rightarrow> Result res \<times> world" where
  "evm_DeriveAt K xpub ttl ch index change w =
     (if \<not> IsEVM ch then (Inl (ErrText ''non-EVM chain passed to EVMDeriver''), w)
      else if change \<noteq> 0 then (Inl (ErrText ''EVM change chain must be 0''), w)
      else if index < 0 then (Inl (ErrText ''EVM index must be >= 0''), w)
      else (case derive_cached ttl (evm_cacheKey xpub index) (evm_deriveUncached K xpub index) w of
              (Inl e, w) \<Rightarrow> (Inl e, w)
            | (Inr addr, w) \<Rightarrow> (Inr \<lparr>rAddress = addr, rDerivationPath = evm_path index, rIndex = index,
                                  rChange = change\<rparr>, w)))"

definition NewEVM :: "string \<Rightarrow> string res" where
  "NewEVM xpub = (case ParseXpub xpub of Inl e \<Rightarrow> Inl e | Inr x \<Rightarrow> Inr x)"

definition evm_DeriveNext :: "keylib \<Rightarrow> string \<Rightarrow> int \<Rightarrow> chain \<Rightarrow> int \<Rightarrow> world \<Rightarrow> Result res \<times> world" where
  "evm_DeriveNext K xpub ttl ch change w =
     (if change \<noteq> 0 then (Inl (ErrText ''EVM deriver does not support change chain''), w)
      else evm_DeriveAt K xpub ttl ch (-1) change w)"

section \<open>Bitcoin\<close>

definition deriveChildPubKey :: "keylib \<Rightarrow> string \<Rightarrow> int \<Rightarrow> int \<Rightarrow> bytes res" where
  "deriveChildPubKey K xpub index change =
     (case NewKeyFromString K xpub of
        Inl e \<Rightarrow> Inl (ErrWrap ''parse xpub'' e)
      | Inr acc \<Rightarrow>
     (case nonHardened change of
        Inl e \<Rightarrow> Inl e
      | Inr changeIdx \<Rightarrow>
     (case key_Derive K acc changeIdx of
        Inl e \<Rightarrow> Inl (ErrWrap ''derive change chain'' e)
      | Inr changeBranch \<Rightarrow>
     (case nonHardened index of
        Inl e \<Rightarrow> Inl e
      | Inr childIdx \<Rightarrow>
     (case key_Derive K changeBranch childIdx of
        Inl e \<Rightarrow> Inl (ErrWrap ''derive index'' e)
      | Inr child \<Rightarrow>
     (case key_Compressed K child of
        Inl e \<Rightarrow> Inl (ErrWrap ''ec pubkey'' e)
      | Inr pub \<Rightarrow> Inr pub))))))"

definition bech32Address :: "keylib \<Rightarrow> string \<Rightarrow> bytes \<Rightarrow> string res" where
  "bech32Address K hrp witness =
     (case ConvertBits K (drop 1 witness) of
        Inl e \<Rightarrow> Inl e
      | Inr conv \<Rightarrow> bech32_Encode K hrp (hd witness # conv))"

definition btc_deriveUncached :: "keylib \<Rightarrow> string \<Rightarrow> int \<Rightarrow> int \<Rightarrow> string res" where
  "btc_deriveUncached K xpub index change =
     (case deriveChildPubKey K xpub index change of
        Inl e \<Rightarrow> Inl e
      | Inr pub \<Rightarrow> bech32Address K ''bc'' (0x00 # Hash160 K pub))"

definition PubKeyHashFor :: "keylib \<Rightarrow> string \<Rightarrow> int \<Rightarrow> int \<Rightarrow> (bytes \<times> bytes) res" where
  "PubKeyHashFor K xpub change index =
     (case deriveChildPubKey K xpub index change of
        Inl e \<Rightarrow> Inl e
      | Inr compressed \<Rightarrow> Inr (take 20 (Hash160 K compressed @ replicate 20 0), compressed))"

definition btc_path :: "int \<Rightarrow> int \<Rightarrow> string" where
  "btc_path change index = ''m/84'' @ [CHR 0x27] @ ''/0'' @ [CHR 0x27] @ ''/0'' @ [CHR 0x27] @ ''/''
     @ show_int change @ ''/'' @ show_int index"

definition btc_cacheKey :: "string \<Rightarrow> int \<Rightarrow> int \<Rightarrow> string" where
  "btc_cacheKey xpub change index = ''deriv:btc:'' @ xpub @ '':'' @ show_int change @ '':'' @ show_int index"

definition btc_DeriveAt ::
    "keylib \<Rightarrow> string \<Rightarrow> int \<Rightarrow> chain \<Rightarrow> int \<Rightarrow> int \<Rightarrow> world \<Rightarrow> Result res \<times> world" where
  "btc_DeriveAt K xpub ttl ch index change w =
     (if ch \<noteq> ChainBitcoin then (Inl (ErrText ''non-BTC chain passed to BTCDeriver''), w)
      else if change \<noteq> 0 \<and> change \<noteq> 1 then (Inl (ErrText ''BTC change chain must be 0 or 1''), w)
      else if index < 0 then (Inl (ErrText ''BTC index must be >= 0''), w)
      else (case derive_cached ttl (btc_cacheKey xpub change index)
                   (btc_deriveUncached K xpub index change) w of
              (Inl e, w) \<Rightarrow> (Inl e, w)
            | (Inr addr, w) \<Rightarrow> (Inr \<lparr>rAddress = addr, rDerivationPath = btc_path change index,
                                  rIndex = index, rChange = change\<rparr>, w)))"

definition NewBTC :: "string \<Rightarrow> string res" where
  "NewBTC xpub = (case ParseXpub xpub of Inl e \<Rightarrow> Inl e | Inr x \<Rightarrow> Inr x)"

definition btc_DeriveNext :: "chain \<Rightarrow> int \<Rightarrow> world \<Rightarrow> Result res \<times> world" where
  "btc_DeriveNext ch change w =
     (if ch \<noteq> ChainBitcoin then (Inl (ErrText ''non-BTC chain passed to BTCDeriver''), w)
      else if change \<noteq> 0 \<and> change \<noteq> 1 then (Inl (ErrText ''BTC change chain must be 0 or 1''), w)
      else (Inl (ErrText ''DeriveNext requires an index for BTC; use DeriveAt''), w))"

definition BTCPubKeyHashFor :: "keylib \<Rightarrow> Registry \<Rightarrow> string \<Rightarrow> (bytes \<times> bytes) res" where
  "BTCPubKeyHashFor K reg path =
     (case parseBTCPath path of
        Inl e \<Rightarrow> Inl (ErrWrap ''parse btc derivation path'' e)
      | Inr (change, index) \<Rightarrow> PubKeyHashFor K (btc_xpub reg) change index)"

section \<open>Solana\<close>

abbreviation sol_path :: string where
  "sol_path \<equiv> ''m/44'' @ [CHR 0x27] @ ''/501'' @ [CHR 0x27] @ ''/0'' @ [CHR 0x27] @ ''/0'' @ [CHR 0x27]"

definition sol_DeriveAt :: "string \<Rightarrow> int \<Rightarrow> chain \<Rightarrow> world \<Rightarrow> Result res \<times> world" where
  "sol_DeriveAt pubkey ttl ch w =
     (if ch \<noteq> ChainSolana then (Inl (ErrText ''non-Solana chain passed to SolanaDeriver''), w)
      else (case derive_cached ttl (''deriv:sol:'' @ pubkey) (Inr pubkey) w of
              (Inl e, w) \<Rightarrow> (Inl e, w)
            | (Inr v, w) \<Rightarrow> (Inr \<lparr>rAddress = v, rDerivationPath = sol_path, rIndex = 0, rChange = 0\<rparr>, w)))"

definition isHex32 :: "string \<Rightarrow> bool" where
  "isHex32 s = (length s = 64 \<and> (\<forall>c \<in> set s. let n = of_char c :: nat in
     48 \<le> n \<and> n \<le> 57 \<or> 97 \<le> n \<and> n \<le> 102 \<or> 65 \<le> n \<and> n \<le> 70))"

definition fromHexChar :: "char \<Rightarrow> byte" where
  "fromHexChar c =
     (let n = of_char c :: nat
      in if 48 \<le> n \<and> n \<le> 57 then word_of_nat (n - 48)
         else if 97 \<le> n \<and> n \<le> 102 then word_of_nat (n - 97 + 10)
         else if 65 \<le> n \<and> n \<le> 70 then word_of_nat (n - 65 + 10)
         else 0)"

fun hexDecode32 :: "string \<Rightarrow> bytes" where
  "hexDecode32 (a # b # r) = (push_bit 4 (fromHexChar a) OR fromHexChar b) # hexDecode32 r"
| "hexDecode32 _ = []"

definition NewSolana :: "keylib \<Rightarrow> string \<Rightarrow> string res" where
  "NewSolana K pubkey =
     (case ParseXpub pubkey of
        Inl e \<Rightarrow> Inl e
      | Inr pubkey \<Rightarrow> Inr (if isHex32 pubkey then base58_Encode K (hexDecode32 pubkey) else pubkey))"

definition NewRegistry :: "keylib \<Rightarrow> string \<Rightarrow> string \<Rightarrow> string \<Rightarrow> int \<Rightarrow> Registry res" where
  "NewRegistry K evm sol btc ttl =
     (case ParseXpub evm of
        Inl e \<Rightarrow> Inl e
      | Inr evmx \<Rightarrow>
     (case NewSolana K sol of
        Inl e \<Rightarrow> Inl e
      | Inr solx \<Rightarrow>
     (case ParseXpub btc of
        Inl e \<Rightarrow> Inl e
      | Inr btcx \<Rightarrow> Inr \<lparr>evm_xpub = evmx, btc_xpub = btcx, sol_pubkeyBase58 = solx, reg_ttl = ttl\<rparr>)))"

definition sol_DeriveNext :: "string \<Rightarrow> int \<Rightarrow> chain \<Rightarrow> world \<Rightarrow> Result res \<times> world" where
  "sol_DeriveNext pubkey ttl ch w = sol_DeriveAt pubkey ttl ch w"

section \<open>The registry\<close>

definition Registry_For :: "chain \<Rightarrow> unit res" where
  "Registry_For ch =
     (if IsEVM ch \<or> ch = ChainSolana \<or> ch = ChainBitcoin then Inr ()
      else Inl (ErrText ''no deriver for chain''))"

text \<open>The call of \<^verbatim>\<open>DeriveAt\<close> on the deriver that \<^verbatim>\<open>Registry.For\<close> returns.\<close>

definition DeriveAt ::
    "keylib \<Rightarrow> Registry \<Rightarrow> chain \<Rightarrow> int \<Rightarrow> int \<Rightarrow> world \<Rightarrow> Result res \<times> world" where
  "DeriveAt K reg ch index change w =
     (if IsEVM ch then evm_DeriveAt K (evm_xpub reg) (reg_ttl reg) ch index change w
      else if ch = ChainSolana then sol_DeriveAt (sol_pubkeyBase58 reg) (reg_ttl reg) ch w
      else if ch = ChainBitcoin then btc_DeriveAt K (btc_xpub reg) (reg_ttl reg) ch index change w
      else (Inl (ErrText ''no deriver for chain''), w))"

text \<open>\<^verbatim>\<open>DeriveNext\<close> derives nothing on EVM chains and Bitcoin: it has no index to derive at.\<close>

lemma DeriveNext_fails:
  "\<not> is_ok (fst (evm_DeriveNext K xpub ttl ch change w))" "snd (evm_DeriveNext K xpub ttl ch change w) = w"
  "\<not> is_ok (fst (btc_DeriveNext ch change w))" "snd (btc_DeriveNext ch change w) = w"
  by (simp_all add: evm_DeriveNext_def evm_DeriveAt_def btc_DeriveNext_def)

section \<open>Memoisation\<close>

text \<open>What the cache may hold: under each key, the address that deriving afresh gives.\<close>

definition deriv_valid :: "keylib \<Rightarrow> Registry \<Rightarrow> string \<Rightarrow> string \<Rightarrow> bool" where
  "deriv_valid K reg k v =
     ((\<exists>i. k = evm_cacheKey (evm_xpub reg) i \<and> evm_deriveUncached K (evm_xpub reg) i = Inr v)
      \<or> (\<exists>c i. k = btc_cacheKey (btc_xpub reg) c i \<and> btc_deriveUncached K (btc_xpub reg) i c = Inr v)
      \<or> k = ''deriv:sol:'' @ sol_pubkeyBase58 reg \<and> v = sol_pubkeyBase58 reg)"

lemma show_int_no_colon [simp]: "CHR '':'' \<notin> set (show_int i)"
  using show_int_char [of "CHR '':''" i] by auto

lemma cacheKey_inject [simp]:
  "evm_cacheKey x i = evm_cacheKey x j \<longleftrightarrow> i = j"
  "btc_cacheKey x c i = btc_cacheKey x d j \<longleftrightarrow> c = d \<and> i = j"
  by (simp_all add: evm_cacheKey_def btc_cacheKey_def sep_inject)

lemma cacheKey_distinct [simp]:
  "evm_cacheKey x i \<noteq> btc_cacheKey y c j" "btc_cacheKey y c j \<noteq> evm_cacheKey x i"
  "evm_cacheKey x i \<noteq> ''deriv:sol:'' @ p" "btc_cacheKey y c j \<noteq> ''deriv:sol:'' @ p"
  "''deriv:sol:'' @ p \<noteq> evm_cacheKey x i" "''deriv:sol:'' @ p \<noteq> btc_cacheKey y c j"
  by (simp_all add: evm_cacheKey_def btc_cacheKey_def)

lemma deriv_valid_keys:
  "deriv_valid K reg (evm_cacheKey (evm_xpub reg) i) v \<longleftrightarrow> evm_deriveUncached K (evm_xpub reg) i = Inr v"
  "deriv_valid K reg (btc_cacheKey (btc_xpub reg) c i) v \<longleftrightarrow> btc_deriveUncached K (btc_xpub reg) i c = Inr v"
  "deriv_valid K reg (''deriv:sol:'' @ sol_pubkeyBase58 reg) v \<longleftrightarrow> Inr (sol_pubkeyBase58 reg) = (Inr v :: string res)"
  by (auto simp: deriv_valid_def simp del: append.simps)

text \<open>The derivation without a cache.\<close>

definition derive_pure :: "keylib \<Rightarrow> Registry \<Rightarrow> chain \<Rightarrow> int \<Rightarrow> int \<Rightarrow> Result res" where
  "derive_pure K reg ch index change =
     (if IsEVM ch then
        (if change \<noteq> 0 then Inl (ErrText ''EVM change chain must be 0'')
         else if index < 0 then Inl (ErrText ''EVM index must be >= 0'')
         else map_sum id (\<lambda>a. \<lparr>rAddress = a, rDerivationPath = evm_path index, rIndex = index, rChange = change\<rparr>)
                (evm_deriveUncached K (evm_xpub reg) index))
      else if ch = ChainSolana then
        Inr \<lparr>rAddress = sol_pubkeyBase58 reg, rDerivationPath = sol_path, rIndex = 0, rChange = 0\<rparr>
      else if ch = ChainBitcoin then
        (if change \<noteq> 0 \<and> change \<noteq> 1 then Inl (ErrText ''BTC change chain must be 0 or 1'')
         else if index < 0 then Inl (ErrText ''BTC index must be >= 0'')
         else map_sum id (\<lambda>a. \<lparr>rAddress = a, rDerivationPath = btc_path change index, rIndex = index, rChange = change\<rparr>)
                (btc_deriveUncached K (btc_xpub reg) index change))
      else Inl (ErrText ''no deriver for chain''))"

lemma derive_cached_ok:
  assumes "cache_ok P (dcache w)" and "\<And>v. P key v \<longleftrightarrow> compute = Inr v"
  shows "\<exists>m. derive_cached ttl key compute w = (compute, w\<lparr>dcache := m\<rparr>) \<and> cache_ok P m"
  using memoise_ok [OF assms, of "now w" ttl] by (auto simp: derive_cached_def split: prod.splits)

lemma DeriveAt_pure:
  assumes ok: "cache_ok (deriv_valid K reg) (dcache w)"
  shows "\<exists>m. DeriveAt K reg ch index change w = (derive_pure K reg ch index change, w\<lparr>dcache := m\<rparr>)
    \<and> cache_ok (deriv_valid K reg) m"
proof -
  have id: "\<exists>m. (r, w) = (r, w\<lparr>dcache := m\<rparr>) \<and> cache_ok (deriv_valid K reg) m" for r :: "Result res"
    using ok by (intro exI [of _ "dcache w"]) simp
  obtain m1 where m1: "derive_cached (reg_ttl reg) (evm_cacheKey (evm_xpub reg) index)
      (evm_deriveUncached K (evm_xpub reg) index) w = (evm_deriveUncached K (evm_xpub reg) index, w\<lparr>dcache := m1\<rparr>)"
    "cache_ok (deriv_valid K reg) m1"
    using derive_cached_ok [OF ok deriv_valid_keys(1)] by blast
  obtain m2 where m2: "derive_cached (reg_ttl reg) (btc_cacheKey (btc_xpub reg) change index)
      (btc_deriveUncached K (btc_xpub reg) index change) w =
      (btc_deriveUncached K (btc_xpub reg) index change, w\<lparr>dcache := m2\<rparr>)"
    "cache_ok (deriv_valid K reg) m2"
    using derive_cached_ok [OF ok deriv_valid_keys(2)] by blast
  obtain m3 where m3: "derive_cached (reg_ttl reg) (''deriv:sol:'' @ sol_pubkeyBase58 reg)
      (Inr (sol_pubkeyBase58 reg)) w = (Inr (sol_pubkeyBase58 reg), w\<lparr>dcache := m3\<rparr>)"
    "cache_ok (deriv_valid K reg) m3"
    using derive_cached_ok [OF ok deriv_valid_keys(3)] by blast
  show ?thesis
    using id m1 m2 m3
    by (auto simp: DeriveAt_def derive_pure_def evm_DeriveAt_def btc_DeriveAt_def sol_DeriveAt_def
        simp del: append.simps append_Cons split: sum.splits)
qed

section \<open>Paths\<close>

lemma show_nat_graphic: "c \<in> set (show_nat n) \<Longrightarrow> graphic c"
  using show_nat_char [of c n] by (simp add: graphic_def)

lemma show_int_graphic: "c \<in> set (show_int i) \<Longrightarrow> graphic c"
  using show_nat_graphic by (auto simp: show_int_def graphic_def split: if_splits)

lemma Atoi_show_int [simp]: "int64_range i \<Longrightarrow> Atoi (show_int i) = Inr i"
  by (simp add: Atoi_def)

lemma show_int_Cons_nonempty: "show_int i \<noteq> []"
  by (simp add: show_int_def)

lemma parse_btc_path:
  assumes "int64_range change" "int64_range index"
  shows "parseBTCPath (btc_path change index) = Inr (change, index)"
proof -
  have last: "last (btc_path change index) = last (show_int index)" "btc_path change index \<noteq> []"
    by (simp_all add: btc_path_def show_int_Cons_nonempty)
  have trim: "TrimSpace (btc_path change index) = btc_path change index"
    using last show_int_graphic [of "last (show_int index)" index] show_int_Cons_nonempty [of index]
    by (intro TrimSpace_graphic) (simp_all add: btc_path_def graphic_def [of "CHR ''m''"] last_in_set)
  have "Split CHR ''/'' (btc_path change index) =
      [''m'', ''84'' @ [CHR 0x27], ''0'' @ [CHR 0x27], ''0'' @ [CHR 0x27], show_int change, show_int index]"
    by (simp add: btc_path_def Split_append Split_no_sep)
  then show ?thesis using assms by (simp add: parseBTCPath_def trim)
qed

section \<open>Public keys\<close>

lemma be_val_append_zeros: "be_val (bs @ replicate k 0) = be_val bs * 256 ^ k"
proof (induction k)
  case (Suc k)
  have "be_val (bs @ replicate (Suc k) 0) = be_val ((bs @ replicate k 0) @ [0])"
    by (simp only: replicate_Suc replicate_append_same [symmetric] append_assoc)
  also have "\<dots> = 256 * be_val (bs @ replicate k 0)" by (simp only: be_val_snoc unat_0 add_0_right)
  finally show ?case using Suc by simp
qed simp

lemma self_mult_power: "X * 256 ^ k = X \<longleftrightarrow> X = 0 \<or> k = 0" for X :: nat
  by (cases k) auto

lemma copy32_fixed:
  assumes "X < 2 ^ 256"
  shows "copy32 (be_bytes X) = be_fixed 32 X \<longleftrightarrow> X = 0 \<or> 2 ^ 248 \<le> X"
proof -
  let ?n = "length (be_bytes X)"
  have n: "?n \<le> 32" using assms by (intro length_be_bytes) simp
  have c: "copy32 (be_bytes X) = be_bytes X @ replicate (32 - ?n) 0"
    using n by (simp add: copy32_def)
  have fixed: "be_val (be_fixed 32 X) = X" using assms by (simp add: be_val_be_fixed)
  have "copy32 (be_bytes X) = be_fixed 32 X \<longleftrightarrow> be_val (copy32 (be_bytes X)) = be_val (be_fixed 32 X)"
    using be_val_inject [of "copy32 (be_bytes X)" "be_fixed 32 X"] n by (auto simp: c)
  also have "\<dots> \<longleftrightarrow> X * 256 ^ (32 - ?n) = X" by (simp add: c be_val_append_zeros fixed)
  also have "\<dots> \<longleftrightarrow> X = 0 \<or> ?n = 32" using n by (simp add: self_mult_power)
  also have "?n = 32 \<longleftrightarrow> 2 ^ 248 \<le> X"
  proof
    assume "?n = 32"
    then have "\<not> X < 256 ^ 31" using length_be_bytes [of X 31] by auto
    then show "2 ^ 248 \<le> X" by simp
  next
    assume X: "2 ^ 248 \<le> X"
    have "\<not> ?n \<le> 31"
    proof
      assume "?n \<le> 31"
      then have "(256 :: nat) ^ ?n \<le> 256 ^ 31" by (intro power_increasing) simp_all
      then show False using X be_val_bound [of "be_bytes X"] by simp
    qed
    then show "?n = 32" using n by linarith
  qed
  finally show ?thesis .
qed

section \<open>Properties\<close>

text \<open>A concrete instance of the third-party functions, on which the theorems are applied: keys are
  byte strings, a child key appends its index, hashes truncate or pad to their length.\<close>

definition sample_keylib :: keylib where
  "sample_keylib =
     \<lparr>NewKeyFromString = (\<lambda>s. if s = [] then Inl (ErrText ''empty'') else Inr (string_bytes s)),
      key_Derive = (\<lambda>k n. Inr (k @ [word_of_nat n])),
      key_Compressed = (\<lambda>k. Inr (take 33 (2 # k @ replicate 33 0))),
      ParsePubKey = (\<lambda>c. Inr (2 ^ 247, be_val (drop 1 c))),
      kl_keccak256 = (\<lambda>bs. take 32 (bs @ replicate 32 0)),
      Hash160 = (\<lambda>bs. take 20 (bs @ replicate 20 0)),
      ConvertBits = Inr,
      bech32_Encode = (\<lambda>hrp bs. Inr (hrp @ EncodeToString bs)),
      base58_Encode = EncodeToString\<rparr>"

definition sample_registry :: Registry where
  "sample_registry =
     \<lparr>evm_xpub = ''xpubE'', btc_xpub = ''xpubB'', sol_pubkeyBase58 = ''SoL1'', reg_ttl = 60 * 60 * 1000000000\<rparr>"

text \<open>
  C28: the derivation cache is transparent. While the cache holds only addresses that were derived for
  their key, deriving through it gives exactly what deriving without a cache gives, for every chain,
  index and time; the cache stays of that kind and nothing else of the state changes.
\<close>

theorem DeriveAt_cache_transparent:
  assumes "cache_ok (deriv_valid K reg) (dcache w)"
  shows "fst (DeriveAt K reg ch index change w) = derive_pure K reg ch index change
    \<and> cache_ok (deriv_valid K reg) (dcache (snd (DeriveAt K reg ch index change w)))
    \<and> (snd (DeriveAt K reg ch index change w))\<lparr>dcache := dcache w\<rparr> = w"
  using DeriveAt_pure [OF assms, of ch index change] by auto

theorem DeriveAt_cache_transparent_witness:
  "fst (DeriveAt sample_keylib sample_registry ChainPolygon 7 0
     (snd (DeriveAt sample_keylib sample_registry ChainEthereum 7 0 start_world))) =
   derive_pure sample_keylib sample_registry ChainPolygon 7 0"
proof -
  have "cache_ok (deriv_valid sample_keylib sample_registry) (dcache start_world)"
    by (simp add: cache_ok_def NewMem_def)
  then show ?thesis using DeriveAt_cache_transparent by blast
qed

text \<open>
  C29: a Bitcoin address and the key material for spending from it agree: the derivation path that is
  stored with an address parses back to its change and index, and the public key hash found through
  that path is the HASH160 of the public key in the address's witness program.
\<close>

theorem btc_keys_match_address:
  assumes "derive_pure K reg ChainBitcoin index change = Inr res" and "int64_range index"
    and "\<And>p. length (Hash160 K p) = 20"
  shows "\<exists>pub. BTCPubKeyHashFor K reg (rDerivationPath res) = Inr (Hash160 K pub, pub)
    \<and> bech32Address K ''bc'' (0 # Hash160 K pub) = Inr (rAddress res)"
proof -
  have path: "rDerivationPath res = btc_path change index" and ch: "change = 0 \<or> change = 1"
    and addr: "btc_deriveUncached K (btc_xpub reg) index change = Inr (rAddress res)"
    using assms(1) by (auto simp: derive_pure_def map_sum_def split: if_splits sum.splits)
  obtain pub where pub: "deriveChildPubKey K (btc_xpub reg) index change = Inr pub"
    "bech32Address K ''bc'' (0 # Hash160 K pub) = Inr (rAddress res)"
    using addr by (auto simp: btc_deriveUncached_def split: sum.splits)
  have "parseBTCPath (rDerivationPath res) = Inr (change, index)"
    using parse_btc_path [of change index] ch assms(2) by (auto simp: path int64_range_def)
  then show ?thesis
    using pub assms(3) [of pub] by (auto simp: BTCPubKeyHashFor_def PubKeyHashFor_def)
qed

theorem btc_keys_match_address_witness:
  "\<exists>res pub. derive_pure sample_keylib sample_registry ChainBitcoin 3 0 = Inr res
    \<and> BTCPubKeyHashFor sample_keylib sample_registry (rDerivationPath res) = Inr (Hash160 sample_keylib pub, pub)"
proof -
  obtain res where res: "derive_pure sample_keylib sample_registry ChainBitcoin 3 0 = Inr res"
    by (simp add: derive_pure_def btc_deriveUncached_def deriveChildPubKey_def nonHardened_def bech32Address_def
        sample_keylib_def sample_registry_def string_bytes_def)
  have "length (Hash160 sample_keylib p) = 20" for p by (simp add: sample_keylib_def)
  then show ?thesis
    using btc_keys_match_address [OF res] res by (auto simp: int64_range_def)
qed

text \<open>
  Decompressing a public key gives the standard encoding (both coordinates as 32 big-endian bytes)
  only when neither coordinate is a non-zero number below 2^248; a shorter coordinate is put at the
  wrong end of its field.
\<close>

lemma decompress_short_coordinate:
  assumes "length compressed = 33" and "ParsePubKey K compressed = Inr (X, Y)"
    and "X < 2 ^ 256" and "Y < 2 ^ 256"
  shows "decompressSecp256k1 K compressed = Inr (4 # be_fixed 32 X @ be_fixed 32 Y) \<longleftrightarrow>
    (X = 0 \<or> 2 ^ 248 \<le> X) \<and> (Y = 0 \<or> 2 ^ 248 \<le> Y)"
proof -
  have "length (copy32 bs) = 32" for bs by (simp add: copy32_def)
  then have "decompressSecp256k1 K compressed = Inr (4 # be_fixed 32 X @ be_fixed 32 Y) \<longleftrightarrow>
      copy32 (be_bytes X) = be_fixed 32 X \<and> copy32 (be_bytes Y) = be_fixed 32 Y"
    using assms(1,2) by (simp add: decompressSecp256k1_def)
  then show ?thesis using copy32_fixed [OF assms(3)] copy32_fixed [OF assms(4)] by (simp only:)
qed

end
