(* ===== verification/Wallets.thy ===== *)
theory Wallets
  imports Outbox Deriver Config
begin

text \<open>
  The wallet service, \<^verbatim>\<open>internal/wallet/service.go\<close> and \<^verbatim>\<open>rotation.go\<close>: creation and states of
  wallets, and the receive address of a wallet with its rotation under a named lock. The argument
  \<open>others\<close> is what the rest of the system does to the shared state during one sleep of the loop
  that waits for the lock.
\<close>

section \<open>Operations\<close>

record Service =
  sKeys :: keylib
  sDerivers :: Registry
  sAudit :: Emitter
  sConfig :: Config

definition wallet_event :: "string \<Rightarrow> uuid \<Rightarrow> payload \<Rightarrow> Event" where
  "wallet_event ty wid pl = \<lparr>evType = ty, evWalletID = Some wid, evPayload = pl\<rparr>"

definition new_key_id :: "CreateRequest \<Rightarrow> world \<Rightarrow> string \<times> world" where
  "new_key_id req w =
     (if crKeyID req = [] then (case NewUUID w of (u, w) \<Rightarrow> (''pending:'' @ u, w)) else (crKeyID req, w))"

definition Create :: "Service \<Rightarrow> CreateRequest \<Rightarrow> world \<Rightarrow> Wallet res \<times> world" where
  "Create svc req w =
     (if \<not> ValidChain (crChain req) then (Inl (ErrText ''unsupported chain''), w)
      else if \<not> ValidWalletType (crType req) then (Inl (ErrText ''unsupported wallet type''), w)
      else if crLabel req = [] then (Inl (ErrText ''label is required''), w)
      else (case new_key_id req w of (keyID, w) \<Rightarrow>
           (case NewUUID w of (walletID, w) \<Rightarrow>
            let wl = \<lparr>wID = walletID, wChain = crChain req, wType = crType req, wLabel = crLabel req,
                      wState = WalletStateActive, wKeyID = keyID, wCustodianRef = ''mpc'',
                      wRotationDays = None, wRotationAfterReceives = None,
                      wCreatedAt = now w, wUpdatedAt = now w\<rparr>
            in (case on_db (CreateWallet (now w) wl) w of
                  (Inl e, w) \<Rightarrow> (Inl (ErrWrap ''create wallet'' e), w)
                | (Inr _, w) \<Rightarrow>
                    (Inr wl, emit (sAudit svc) (wallet_event ''wallet.created'' (wID wl)
                       [(''chain'', PStr (wChain wl)), (''type'', PStr (wType wl)),
                        (''label'', PStr (wLabel wl)), (''key_id'', PStr (wKeyID wl))]) w)))))"

definition Get :: "uuid \<Rightarrow> world \<Rightarrow> Wallet res" where
  "Get i w = GetWallet i (db w)"

definition SetState :: "Service \<Rightarrow> uuid \<Rightarrow> string \<Rightarrow> world \<Rightarrow> unit res \<times> world" where
  "SetState svc i st w =
     (if \<not> ValidWalletState st then (Inl (ErrText ''invalid state''), w)
      else (case GetWallet i (db w) of
              Inl e \<Rightarrow> (Inl e, w)
            | Inr wl \<Rightarrow>
                if wState wl = WalletStateRetired \<and> st \<noteq> WalletStateRetired
                then (Inl (ErrText ''cannot un-retire a wallet''), w)
                else (case on_db (UpdateWalletState (now w) i st) w of
                        (Inl e, w) \<Rightarrow> (Inl e, w)
                      | (Inr _, w) \<Rightarrow>
                          (Inr (), emit (sAudit svc) (wallet_event ''wallet.state_changed'' i
                             [(''from'', PStr (wState wl)), (''to'', PStr st)]) w))))"

definition wallet_List :: "string \<Rightarrow> string \<Rightarrow> string \<Rightarrow> world \<Rightarrow> Wallet list" where
  "wallet_List ch wtype st w = ListWallets ch wtype st (db w)"

definition wallet_ListAddresses :: "uuid \<Rightarrow> world \<Rightarrow> Address list" where
  "wallet_ListAddresses i w = ListAddresses i (db w)"

section \<open>Rotation\<close>

text \<open>\<^verbatim>\<open>time.Since\<close> saturates at the ends of \<^verbatim>\<open>time.Duration\<close>.\<close>

definition Since :: "time \<Rightarrow> time \<Rightarrow> int" where
  "Since t0 t = max (- (2 ^ 63)) (min (2 ^ 63 - 1) (t0 - t))"

definition shouldRotate :: "Service \<Rightarrow> time \<Rightarrow> Wallet \<Rightarrow> Address \<Rightarrow> bool" where
  "shouldRotate svc t wl a =
     (let days = (case wRotationDays wl of None \<Rightarrow> cDefaultRotationDays (sConfig svc) | Some d \<Rightarrow> d)
      in days > 0 \<and> Since t (aCreatedAt a) > wrap64 (days * 24 * 3600000000000)
         \<or> (case wRotationAfterReceives wl of None \<Rightarrow> False | Some n \<Rightarrow> aReceiveCount a \<ge> n))"

text \<open>A Solana wallet first deprecates the first address it has.\<close>

definition retire_solana :: "Wallet \<Rightarrow> world \<Rightarrow> unit res \<times> world" where
  "retire_solana wl w =
     (if wChain wl = ChainSolana then
        (case ListAddresses (wID wl) (db w) of
           [] \<Rightarrow> (Inr (), w)
         | a # _ \<Rightarrow> on_db (DeprecateAddress (aID a)) w)
      else (Inr (), w))"

definition new_address :: "uuid \<Rightarrow> Wallet \<Rightarrow> Result \<Rightarrow> time \<Rightarrow> Address" where
  "new_address i wl res t =
     \<lparr>aID = i, aWalletID = wID wl, aChain = wChain wl, aAddress = rAddress res,
      aDerivationPath = rDerivationPath res, aIndex = rIndex res, aChange = rChange res,
      aState = AddressStateActive, aReceiveCount = 0, aCreatedAt = t\<rparr>"

definition deriveNew :: "Service \<Rightarrow> Wallet \<Rightarrow> world \<Rightarrow> Address res \<times> world" where
  "deriveNew svc wl w =
     (case Registry_For (wChain wl) of
        Inl e \<Rightarrow> (Inl e, w)
      | Inr _ \<Rightarrow>
     (let change = 0; idx = NextAddressIndex (wChain wl) change (db w)
      in case retire_solana wl w of
        (Inl e, w) \<Rightarrow> (Inl e, w)
      | (Inr _, w) \<Rightarrow>
     (case DeriveAt (sKeys svc) (sDerivers svc) (wChain wl) idx change w of
        (Inl e, w) \<Rightarrow> (Inl (ErrWrap ''derive'' e), w)
      | (Inr res, w) \<Rightarrow>
     (case NewUUID w of (addrID, w) \<Rightarrow>
      let addr = new_address addrID wl res (now w)
      in case on_db (InsertAddress (now w) addr) w of
           (Inl e, w) \<Rightarrow> (Inl (ErrWrap ''insert address'' e), w)
         | (Inr _, w) \<Rightarrow>
             (Inr addr, emit (sAudit svc) (wallet_event ''wallet.address.derived'' (wID wl)
                [(''address'', PStr (aAddress addr)), (''index'', PInt (aIndex addr)),
                 (''path'', PStr (aDerivationPath addr))]) w)))))"

definition addr_lock :: "uuid \<Rightarrow> string" where
  "addr_lock i = ''addr:'' @ i"

text \<open>The deferred release of \<open>rotate\<close> and \<open>ForceRotate\<close> runs on every return after the lock is taken.\<close>

definition rotate_locked :: "Service \<Rightarrow> Wallet \<Rightarrow> Address \<Rightarrow> world \<Rightarrow> Address res \<times> world" where
  "rotate_locked svc wl old w =
     (case on_db (DeprecateAddress (aID old)) w of
        (Inl e, w) \<Rightarrow> (Inl (ErrWrap ''deprecate old address'' e), w)
      | (Inr _, w) \<Rightarrow>
          (case deriveNew svc wl w of
             (Inl e, w) \<Rightarrow> (Inl e, w)
           | (Inr addr, w) \<Rightarrow>
               (Inr addr, emit (sAudit svc) (wallet_event ''wallet.address.rotated'' (wID wl)
                  [(''old_address'', PStr (aAddress old)), (''new_address'', PStr (aAddress addr)),
                   (''index'', PInt (aIndex addr))]) w)))"

definition with_addr_lock ::
    "Wallet \<Rightarrow> (world \<Rightarrow> Address res \<times> world) \<Rightarrow> world \<Rightarrow> Address res \<times> world" where
  "with_addr_lock wl body w =
     (case Acquire (addr_lock (wID wl)) w of
        (Inl e, w) \<Rightarrow> (Inl (ErrWrap ''acquire rotation lock'' e), w)
      | (Inr (token, ok), w) \<Rightarrow>
          if \<not> ok then (Inl (ErrText ''rotation already in progress''), w)
          else (case body w of (r, w) \<Rightarrow> (r, snd (Release (addr_lock (wID wl)) token w))))"

definition rotate :: "Service \<Rightarrow> Wallet \<Rightarrow> Address \<Rightarrow> world \<Rightarrow> Address res \<times> world" where
  "rotate svc wl old w = with_addr_lock wl (rotate_locked svc wl old) w"

fun derive_loop ::
    "nat \<Rightarrow> (world \<Rightarrow> world) \<Rightarrow> Service \<Rightarrow> Wallet \<Rightarrow> world \<Rightarrow> Address res \<times> world" where
  "derive_loop 0 others svc wl w = (Inl (ErrText ''rotation already in progress''), w)"
| "derive_loop (Suc i) others svc wl w =
     (case Acquire (addr_lock (wID wl)) w of
        (Inl e, w) \<Rightarrow> (Inl (ErrWrap ''acquire rotation lock'' e), w)
      | (Inr (token, ok), w) \<Rightarrow>
          if \<not> ok then
            (case GetActiveAddress (wID wl) (db w) of
               Inr active \<Rightarrow> (Inr active, w)
             | Inl e \<Rightarrow> if \<not> errors_Is e ErrNoRows then (Inl e, w)
                       else derive_loop i others svc wl (others w))
          else
            (case GetActiveAddress (wID wl) (db w) of
               Inr active \<Rightarrow> (Inr active, snd (Release (addr_lock (wID wl)) token w))
             | Inl e \<Rightarrow>
                 if \<not> errors_Is e ErrNoRows then (Inl e, snd (Release (addr_lock (wID wl)) token w))
                 else (case deriveNew svc wl w of
                         (r, w) \<Rightarrow> (r, snd (Release (addr_lock (wID wl)) token w)))))"

definition deriveNewLocked ::
    "(world \<Rightarrow> world) \<Rightarrow> Service \<Rightarrow> Wallet \<Rightarrow> world \<Rightarrow> Address res \<times> world" where
  "deriveNewLocked others svc wl w = derive_loop 20 others svc wl w"

definition CurrentOrRotate ::
    "(world \<Rightarrow> world) \<Rightarrow> Service \<Rightarrow> uuid \<Rightarrow> world \<Rightarrow> Address res \<times> world" where
  "CurrentOrRotate others svc walletID w =
     (case GetWallet walletID (db w) of
        Inl e \<Rightarrow> (Inl e, w)
      | Inr wl \<Rightarrow>
          if wState wl = WalletStateRetired then (Inl ErrWalletRetired, w)
          else (case GetActiveAddress walletID (db w) of
                  Inl e \<Rightarrow> if errors_Is e ErrNoRows then deriveNewLocked others svc wl w else (Inl e, w)
                | Inr active \<Rightarrow>
                    if shouldRotate svc (now w) wl active then rotate svc wl active w
                    else (Inr active, w)))"

definition ForceRotate :: "Service \<Rightarrow> uuid \<Rightarrow> world \<Rightarrow> Address res \<times> world" where
  "ForceRotate svc walletID w =
     (case GetWallet walletID (db w) of
        Inl e \<Rightarrow> (Inl e, w)
      | Inr wl \<Rightarrow>
          if wState wl = WalletStateRetired then (Inl ErrWalletRetired, w)
          else (case GetActiveAddress walletID (db w) of
                  Inr active \<Rightarrow> rotate svc wl active w
                | Inl e \<Rightarrow> if \<not> errors_Is e ErrNoRows then (Inl e, w)
                          else with_addr_lock wl (deriveNew svc wl) w))"

definition DeriveAddress ::
    "(world \<Rightarrow> world) \<Rightarrow> Service \<Rightarrow> uuid \<Rightarrow> bool \<Rightarrow> world \<Rightarrow> Address res \<times> world" where
  "DeriveAddress others svc walletID force w =
     (if force then ForceRotate svc walletID w else CurrentOrRotate others svc walletID w)"

section \<open>Invariant\<close>

text \<open>
  Every address row is what deriving at its chain, change and index gives; no wallet has two active
  addresses and no two rows of an EVM chain or of Bitcoin share an index; every address belongs to a
  wallet of its chain; the derivation cache holds derived addresses only.
\<close>

definition address_row :: "Service \<Rightarrow> uuid \<Rightarrow> Address \<Rightarrow> bool" where
  "address_row svc k a =
     (aID a = k \<and> derive_pure (sKeys svc) (sDerivers svc) (aChain a) (aIndex a) (aChange a) =
        Inr \<lparr>rAddress = aAddress a, rDerivationPath = aDerivationPath a, rIndex = aIndex a,
             rChange = aChange a\<rparr>)"

definition clash :: "Address \<Rightarrow> Address \<Rightarrow> bool" where
  "clash a b =
     (aWalletID a = aWalletID b \<and> aState a = AddressStateActive \<and> aState b = AddressStateActive
      \<or> aChain a = aChain b \<and> aChain a \<noteq> ChainSolana \<and> aChange a = aChange b \<and> aIndex a = aIndex b)"

definition has_wallet :: "store \<Rightarrow> uuid \<Rightarrow> chain \<Rightarrow> bool" where
  "has_wallet s i ch = (case map_of (wallets s) i of None \<Rightarrow> False | Some wl \<Rightarrow> wChain wl = ch)"

definition wallet_row :: "uuid \<Rightarrow> Wallet \<Rightarrow> bool" where
  "wallet_row k wl =
     (wID wl = k \<and> ValidChain (wChain wl) \<and> ValidWalletType (wType wl) \<and> ValidWalletState (wState wl))"

definition wallets_inv :: "Service \<Rightarrow> world \<Rightarrow> bool" where
  "wallets_inv svc w =
     (rows_ok wallet_row (wallets (db w))
      \<and> rows_ok (address_row svc) (addresses (db w)) \<and> rows_apart clash (addresses (db w))
      \<and> (\<forall>a \<in> set (vals (addresses (db w))). has_wallet (db w) (aWalletID a) (aChain a))
      \<and> cache_ok (deriv_valid (sKeys svc) (sDerivers svc)) (dcache w))"

text \<open>Wallets are never removed, never change their chain, and stay retired.\<close>

definition wallet_ext :: "store \<Rightarrow> store \<Rightarrow> bool" where
  "wallet_ext s s' =
     (\<forall>i wl. map_of (wallets s) i = Some wl \<longrightarrow>
        (\<exists>wl'. map_of (wallets s') i = Some wl' \<and> wChain wl' = wChain wl
           \<and> (wState wl = WalletStateRetired \<longrightarrow> wState wl' = WalletStateRetired)))"

definition wallets_keep :: "Service \<Rightarrow> world \<Rightarrow> world \<Rightarrow> bool" where
  "wallets_keep svc w w' = (wallets_inv svc w \<longrightarrow> wallets_inv svc w' \<and> wallet_ext (db w) (db w'))"

lemma wallet_ext_refl [simp]: "wallet_ext s s"
  by (simp add: wallet_ext_def)

lemma wallet_extD:
  assumes "wallet_ext s s'" and "map_of (wallets s) i = Some wl"
  obtains wl' where "map_of (wallets s') i = Some wl'" "wChain wl' = wChain wl"
    "wState wl = WalletStateRetired \<Longrightarrow> wState wl' = WalletStateRetired"
  using assms unfolding wallet_ext_def by blast

lemma wallet_ext_trans:
  assumes "wallet_ext s t" and "wallet_ext t u"
  shows "wallet_ext s u"
  unfolding wallet_ext_def
proof (intro allI impI)
  fix i wl
  assume "map_of (wallets s) i = Some wl"
  then obtain wl1 where 1: "map_of (wallets t) i = Some wl1" "wChain wl1 = wChain wl"
    "wState wl = WalletStateRetired \<Longrightarrow> wState wl1 = WalletStateRetired"
    using wallet_extD [OF assms(1)] by metis
  obtain wl2 where "map_of (wallets u) i = Some wl2" "wChain wl2 = wChain wl1"
    "wState wl1 = WalletStateRetired \<Longrightarrow> wState wl2 = WalletStateRetired"
    using wallet_extD [OF assms(2) 1(1)] by metis
  then show "\<exists>wl'. map_of (wallets u) i = Some wl' \<and> wChain wl' = wChain wl
      \<and> (wState wl = WalletStateRetired \<longrightarrow> wState wl' = WalletStateRetired)"
    using 1 by simp
qed

lemma wallet_ext_has: "wallet_ext s s' \<Longrightarrow> has_wallet s i ch \<Longrightarrow> has_wallet s' i ch"
  by (auto simp: has_wallet_def split: option.splits elim!: wallet_extD)

lemma keep_refl [simp]: "wallets_keep svc w w"
  by (simp add: wallets_keep_def)

lemma keep_trans: "wallets_keep svc w w1 \<Longrightarrow> wallets_keep svc w1 w2 \<Longrightarrow> wallets_keep svc w w2"
  unfolding wallets_keep_def using wallet_ext_trans by blast

lemma keep_frame:
  assumes "wallets (db w') = wallets (db w)" "addresses (db w') = addresses (db w)" "dcache w' = dcache w"
  shows "wallets_keep svc w w'"
  using assms by (simp add: wallets_keep_def wallets_inv_def wallet_ext_def has_wallet_def)

lemma keep_emit: "wallets_keep svc w (emit em ev w)"
  by (rule keep_frame) (simp_all add: frame_simps)

section \<open>What one call does\<close>

lemma max_index_ge: "m \<le> max_index ch c m as"
proof (induction as arbitrary: m)
  case (Cons x xs)
  show ?case using Cons [of "aIndex x"] Cons [of m] by auto
qed simp

lemma max_index_le:
  "a \<in> set as \<Longrightarrow> aChain a = ch \<Longrightarrow> aChange a = c \<Longrightarrow> aIndex a \<le> max_index ch c m as"
proof (induction as arbitrary: m)
  case (Cons x xs)
  show ?case
  proof (cases "a = x")
    case True
    then show ?thesis
      using Cons.prems max_index_ge [of "aIndex x" ch c xs] max_index_ge [of m ch c xs] by auto
  next
    case False
    then show ?thesis using Cons by auto
  qed
qed simp

lemma max_index_less:
  "m < b \<Longrightarrow> (\<And>a. a \<in> set as \<Longrightarrow> aChain a = ch \<Longrightarrow> aIndex a < b) \<Longrightarrow> max_index ch c m as < b"
  by (induction as arbitrary: m) auto

text \<open>A successful derivation on an EVM chain or on Bitcoin is at a non-hardened index.\<close>

lemma nonHardened_range: "nonHardened i = Inr n \<Longrightarrow> 0 \<le> i \<and> i < 2 ^ 31"
  by (simp add: nonHardened_def split: if_splits)

lemma evm_index_range: "evm_deriveUncached K x i = Inr a \<Longrightarrow> 0 \<le> i \<and> i < 2 ^ 31"
  unfolding evm_deriveUncached_def by (auto dest: nonHardened_range split: sum.splits)

lemma btc_index_range: "btc_deriveUncached K x i c = Inr a \<Longrightarrow> 0 \<le> i \<and> i < 2 ^ 31"
  unfolding btc_deriveUncached_def deriveChildPubKey_def by (auto dest: nonHardened_range split: sum.splits)

lemma derive_pure_index:
  assumes "derive_pure K reg ch i c = Inr res" and "ch \<noteq> ChainSolana"
  shows "rIndex res = i \<and> rChange res = c \<and> 0 \<le> i \<and> i < 2 ^ 31"
proof (cases "IsEVM ch")
  case True
  then obtain a where "evm_deriveUncached K (evm_xpub reg) i = Inr a" "rIndex res = i" "rChange res = c"
    using assms(1) by (auto simp: derive_pure_def map_sum_def split: if_splits sum.splits)
  then show ?thesis using evm_index_range by blast
next
  case False
  then obtain a where "btc_deriveUncached K (btc_xpub reg) i c = Inr a" "rIndex res = i" "rChange res = c"
    using assms by (auto simp: derive_pure_def map_sum_def split: if_splits sum.splits)
  then show ?thesis using btc_index_range by blast
qed

lemma derive_pure_solana:
  "derive_pure K reg ChainSolana i c =
     Inr \<lparr>rAddress = sol_pubkeyBase58 reg, rDerivationPath = sol_path, rIndex = 0, rChange = 0\<rparr>"
  by (simp add: derive_pure_def)

lemma address_row_index:
  assumes "rows_ok (address_row svc) m" and "a \<in> set (vals m)" and "aChain a \<noteq> ChainSolana"
  shows "0 \<le> aIndex a \<and> aIndex a < 2 ^ 31"
  using rows_ok_vals [OF assms(1,2)] derive_pure_index [OF _ assms(3)]
  by (fastforce simp: address_row_def)

lemma next_index_fresh:
  assumes "rows_ok (address_row svc) (addresses s)" and "a \<in> set (vals (addresses s))"
    and "aChain a = ch" and "aChange a = c" and "ch \<noteq> ChainSolana"
  shows "aIndex a < NextAddressIndex ch c s"
proof -
  let ?m = "max_index ch c (- 1) (vals (addresses s))"
  have "?m < 2 ^ 31"
    by (rule max_index_less) (use address_row_index [OF assms(1)] assms(5) in auto)
  then have "NextAddressIndex ch c s = ?m + 1"
    using max_index_ge [of "- 1" ch c "vals (addresses s)"] by (simp add: NextAddressIndex_def)
  then show ?thesis using max_index_le [OF assms(2,3,4), of "- 1"] by simp
qed

text \<open>The building blocks: deprecating a row, inserting a derived row, deriving through the cache.\<close>

lemma keep_deprecate: "wallets_keep svc w (snd (on_db (DeprecateAddress i) w))"
proof (cases "map_of (addresses (db w)) i")
  case None
  then show ?thesis by (intro keep_frame) (simp_all add: DeprecateAddress_def)
next
  case (Some a)
  let ?f = "\<lambda>a. a\<lparr>aState := AddressStateDeprecated\<rparr>"
  have eq: "addresses (db (snd (on_db (DeprecateAddress i) w))) = AList.map_entry i ?f (addresses (db w))"
    "wallets (db (snd (on_db (DeprecateAddress i) w))) = wallets (db w)"
    using Some by (simp_all add: DeprecateAddress_def)
  have vals: "\<exists>b \<in> set (vals m). aWalletID b = aWalletID x \<and> aChain b = aChain x"
    if "x \<in> set (vals (AList.map_entry i ?f m))" for x m
    using that by (induction m) (auto split: if_splits)
  show ?thesis
    unfolding wallets_keep_def
  proof
    assume inv: "wallets_inv svc w"
    have "rows_ok (address_row svc) (AList.map_entry i ?f (addresses (db w)))"
      using inv by (intro rows_ok_entry) (auto simp: wallets_inv_def address_row_def)
    moreover have "rows_apart clash (AList.map_entry i ?f (addresses (db w)))"
      using inv by (intro rows_apart_entry) (auto simp: wallets_inv_def clash_def)
    moreover have "has_wallet (db w) (aWalletID x) (aChain x)"
      if "x \<in> set (vals (AList.map_entry i ?f (addresses (db w))))" for x
      using vals [OF that] inv by (auto simp: wallets_inv_def)
    ultimately show "wallets_inv svc (snd (on_db (DeprecateAddress i) w))
        \<and> wallet_ext (db w) (db (snd (on_db (DeprecateAddress i) w)))"
      using inv unfolding wallets_inv_def eq has_wallet_def wallet_ext_def by simp
  qed
qed

lemma InsertAddress_ok:
  assumes "fst (InsertAddress t a s) = Inr ()" and "t \<noteq> 0 \<Longrightarrow> aCreatedAt a \<noteq> 0"
  shows "map_of (addresses s) (aID a) = None"
    "aState a = AddressStateActive \<Longrightarrow> b \<in> set (vals (addresses s)) \<Longrightarrow> aWalletID b = aWalletID a \<Longrightarrow>
      aState b \<noteq> AddressStateActive"
    "\<exists>t'. addresses (snd (InsertAddress t a s)) = AList.update (aID a) (a\<lparr>aCreatedAt := t'\<rparr>) (addresses s)
      \<and> (aCreatedAt a \<noteq> 0 \<longrightarrow> t' = aCreatedAt a)"
  using assms(1)
  by (auto simp: InsertAddress_def IsZero_def Let_def split: option.splits if_splits)

lemma retire_solana_keep: "wallets_keep svc w (snd (retire_solana wl w))"
  by (simp add: retire_solana_def keep_deprecate split: list.split)

lemma retire_solana_frame [frame_simps]:
  "wallets (db (snd (retire_solana wl w))) = wallets (db w)"
  "now (snd (retire_solana wl w)) = now w" "ids (snd (retire_solana wl w)) = ids w"
  "nid (snd (retire_solana wl w)) = nid w" "dcache (snd (retire_solana wl w)) = dcache w"
  "locks (snd (retire_solana wl w)) = locks w"
  by (simp_all add: retire_solana_def DeprecateAddress_def split: list.split option.split)

lemma retire_solana_other: "wChain wl \<noteq> ChainSolana \<Longrightarrow> retire_solana wl w = (Inr (), w)"
  by (simp add: retire_solana_def)

lemma deriveNew_cases:
  assumes "deriveNew svc wl w = (r, w')" and "cache_ok (deriv_valid (sKeys svc) (sDerivers svc)) (dcache w)"
  obtains
    (stuck) e where "r = Inl e" "w' = w"
  | (failed) e m n where "r = Inl e" "w' = (snd (retire_solana wl w))\<lparr>dcache := m, nid := n\<rparr>"
      "cache_ok (deriv_valid (sKeys svc) (sDerivers svc)) m"
  | (derived) res m s ev where
      "derive_pure (sKeys svc) (sDerivers svc) (wChain wl) (NextAddressIndex (wChain wl) 0 (db w)) 0 = Inr res"
      "cache_ok (deriv_valid (sKeys svc) (sDerivers svc)) m"
      "r = Inr (new_address (ids w (nid w)) wl res (now w))"
      "InsertAddress (now w) (new_address (ids w (nid w)) wl res (now w)) (db (snd (retire_solana wl w))) = (Inr (), s)"
      "w' = emit (sAudit svc) ev ((snd (retire_solana wl w))\<lparr>dcache := m, nid := Suc (nid w), db := s\<rparr>)"
proof (cases "is_ok (Registry_For (wChain wl))")
  case False
  then obtain e where "Registry_For (wChain wl) = Inl e" by (cases "Registry_For (wChain wl)") auto
  then have "r = Inl e" "w' = w" using assms(1) by (simp_all add: deriveNew_def)
  then show thesis by (rule stuck)
next
  case True
  define idx where "idx = NextAddressIndex (wChain wl) 0 (db w)"
  obtain r1 w1 where w1: "retire_solana wl w = (r1, w1)" by fastforce
  have frame: "dcache w1 = dcache w" "nid w1 = nid w" "ids w1 = ids w" "now w1 = now w"
    using retire_solana_frame [of wl w] by (simp_all add: w1)
  from True obtain u where reg: "Registry_For (wChain wl) = Inr u" by (elim is_okE)
  show thesis
  proof (cases r1)
    case (Inl e)
    have "w1 = w1\<lparr>dcache := dcache w, nid := nid w\<rparr>" using frame by simp
    moreover have "r = Inl e \<and> w' = w1" using assms(1) Inl by (simp add: deriveNew_def reg w1 Let_def)
    ultimately show thesis using failed [of e "nid w" "dcache w"] assms(2) by (simp add: w1)
  next
    case (Inr u')
    obtain m where m: "DeriveAt (sKeys svc) (sDerivers svc) (wChain wl) idx 0 w1 =
        (derive_pure (sKeys svc) (sDerivers svc) (wChain wl) idx 0, w1\<lparr>dcache := m\<rparr>)"
      "cache_ok (deriv_valid (sKeys svc) (sDerivers svc)) m"
      using DeriveAt_pure [of "sKeys svc" "sDerivers svc" w1 "wChain wl" idx 0] assms(2) frame by auto
    show thesis
    proof (cases "derive_pure (sKeys svc) (sDerivers svc) (wChain wl) idx 0")
      case (Inl e)
      have "w1\<lparr>dcache := m\<rparr> = w1\<lparr>dcache := m, nid := nid w\<rparr>" using frame by simp
      moreover have "r = Inl (ErrWrap ''derive'' e) \<and> w' = w1\<lparr>dcache := m\<rparr>"
        using assms(1) Inl Inr m(1) by (simp add: deriveNew_def reg w1 Let_def idx_def)
      ultimately show thesis using failed [of "ErrWrap ''derive'' e" "nid w" m] m(2) by (simp add: w1)
    next
      case res: (Inr res)
      obtain ri s where ins: "InsertAddress (now w) (new_address (ids w (nid w)) wl res (now w)) (db w1) = (ri, s)"
        by fastforce
      show thesis
      proof (cases ri)
        case (Inl e)
        then have "s = db w1" using ins by (auto simp: InsertAddress_def Let_def split: option.splits if_splits)
        then have "r = Inl (ErrWrap ''insert address'' e) \<and> w' = w1\<lparr>dcache := m, nid := Suc (nid w)\<rparr>"
          using assms(1) res Inr Inl m(1) ins
          by (simp add: deriveNew_def reg w1 Let_def idx_def NewUUID_def frame on_db_def)
        then show thesis using failed [of "ErrWrap ''insert address'' e" "Suc (nid w)" m] m(2) by (simp add: w1)
      next
        case ok: (Inr u'')
        have "r = Inr (new_address (ids w (nid w)) wl res (now w))
          \<and> (\<exists>ev. w' = emit (sAudit svc) ev (w1\<lparr>dcache := m, nid := Suc (nid w), db := s\<rparr>))"
          using assms(1) res Inr ok m(1) ins
          by (auto simp: deriveNew_def reg w1 Let_def idx_def NewUUID_def frame on_db_def)
        then show thesis using derived [of res m s] m(2) res ins ok by (auto simp: w1 idx_def)
      qed
    qed
  qed
qed

lemma derive_pure_row:
  assumes "derive_pure K reg ch i c = Inr res"
  shows "derive_pure K reg ch (rIndex res) (rChange res) = Inr res"
proof (cases "ch = ChainSolana")
  case True
  then show ?thesis using assms by (simp add: derive_pure_solana)
next
  case False
  then show ?thesis using derive_pure_index [OF assms] assms by simp
qed

lemma keep_insert:
  assumes inv: "wallets_inv svc w" and wl: "has_wallet (db w) (wID wl) (wChain wl)"
    and res: "derive_pure (sKeys svc) (sDerivers svc) (wChain wl) idx 0 = Inr res"
    and idx: "wChain wl \<noteq> ChainSolana \<Longrightarrow> idx = NextAddressIndex (wChain wl) 0 (db w)"
    and m: "cache_ok (deriv_valid (sKeys svc) (sDerivers svc)) m"
    and ins: "InsertAddress t (new_address i wl res t) (db w) = (Inr (), s)"
  shows "wallets_inv svc (w\<lparr>dcache := m, nid := n, db := s\<rparr>) \<and> wallet_ext (db w) s"
proof -
  let ?a = "new_address i wl res t"
  have rows: "rows_ok (address_row svc) (addresses (db w))" and apart: "rows_apart clash (addresses (db w))"
    and wallet: "\<And>a. a \<in> set (vals (addresses (db w))) \<Longrightarrow> has_wallet (db w) (aWalletID a) (aChain a)"
    using inv by (auto simp: wallets_inv_def)
  have noact: "aState b \<noteq> AddressStateActive" if "b \<in> set (vals (addresses (db w)))" "aWalletID b = wID wl" for b
    using ins that by (auto simp: InsertAddress_def new_address_def Let_def split: option.splits if_splits)
  obtain t' where s: "s = (db w)\<lparr>addresses := AList.update i (?a\<lparr>aCreatedAt := t'\<rparr>) (addresses (db w))\<rparr>"
    using ins by (auto simp: InsertAddress_def new_address_def Let_def split: option.splits if_splits)
  have row: "address_row svc i (?a\<lparr>aCreatedAt := t'\<rparr>)"
    using derive_pure_row [OF res] by (simp add: address_row_def new_address_def)
  have "\<not> clash (?a\<lparr>aCreatedAt := t'\<rparr>) b \<and> \<not> clash b (?a\<lparr>aCreatedAt := t'\<rparr>)"
    if "map_of (addresses (db w)) k = Some b" for k b
  proof -
    have b: "b \<in> set (vals (addresses (db w)))" using that by (force dest: map_of_SomeD)
    have "wChain wl \<noteq> ChainSolana \<Longrightarrow> aChain b = wChain wl \<Longrightarrow> aChange b = 0 \<Longrightarrow> aIndex b < rIndex res"
      using next_index_fresh [OF rows b] idx derive_pure_index [OF res] by simp
    moreover have "wChain wl \<noteq> ChainSolana \<Longrightarrow> rChange res = 0" using derive_pure_index [OF res] by simp
    ultimately show ?thesis
      using noact [OF b] by (fastforce simp: clash_def new_address_def)
  qed
  then have "rows_apart clash (addresses s)" using apart by (simp add: s rows_apart_update)
  moreover have "rows_ok (address_row svc) (addresses s)" using rows row by (auto simp: s)
  moreover have "has_wallet s (aWalletID a) (aChain a)" if "a \<in> set (vals (addresses s))" for a
  proof -
    have "a = ?a\<lparr>aCreatedAt := t'\<rparr> \<or> a \<in> set (vals (addresses (db w)))"
      using that unfolding s by (intro vals_updateD [OF rows_ok_map_ok [OF rows]]) simp
    moreover have "has_wallet s = has_wallet (db w)" by (simp add: has_wallet_def s fun_eq_iff)
    ultimately show ?thesis using wallet wl by (auto simp: new_address_def simp del: set_map)
  qed
  moreover have "wallets s = wallets (db w)" by (simp add: s)
  ultimately show ?thesis using inv m by (simp add: wallets_inv_def wallet_ext_def)
qed

lemma retire_solana_has: "has_wallet (db (snd (retire_solana wl w))) i ch = has_wallet (db w) i ch"
  by (simp add: has_wallet_def frame_simps)

lemma deriveNew_keep:
  assumes "wallets_inv svc w" and "has_wallet (db w) (wID wl) (wChain wl)"
  shows "wallets_inv svc (snd (deriveNew svc wl w)) \<and> wallet_ext (db w) (db (snd (deriveNew svc wl w)))"
proof -
  define w1 where "w1 = snd (retire_solana wl w)"
  have w1: "wallets_inv svc w1" "wallet_ext (db w) (db w1)"
    using retire_solana_keep [of svc w wl] assms(1) by (simp_all add: wallets_keep_def w1_def)
  have c: "cache_ok (deriv_valid (sKeys svc) (sDerivers svc)) (dcache w)" using assms(1) by (simp add: wallets_inv_def)
  obtain r w' where d: "deriveNew svc wl w = (r, w')" by fastforce
  from d c show ?thesis
  proof (cases rule: deriveNew_cases)
    case (stuck e)
    then show ?thesis using assms(1) d by simp
  next
    case (failed e m n)
    then show ?thesis
      using w1 d by (simp add: wallets_inv_def w1_def [symmetric])
  next
    case (derived res m s ev)
    have "wChain wl \<noteq> ChainSolana \<Longrightarrow>
        NextAddressIndex (wChain wl) 0 (db w) = NextAddressIndex (wChain wl) 0 (db w1)"
      by (simp add: w1_def retire_solana_other)
    moreover have "has_wallet (db w1) (wID wl) (wChain wl)" using assms(2) by (simp add: w1_def retire_solana_has)
    ultimately have "wallets_inv svc (w1\<lparr>dcache := m, nid := Suc (nid w), db := s\<rparr>) \<and> wallet_ext (db w1) s"
      using keep_insert [OF w1(1) _ derived(1) _ derived(2) derived(4) [folded w1_def]] by simp
    then show ?thesis
      using keep_emit [of svc "w1\<lparr>dcache := m, nid := Suc (nid w), db := s\<rparr>" "sAudit svc" ev] w1(2) derived(5) d
      by (auto simp: wallets_keep_def w1_def [symmetric] intro: wallet_ext_trans)
  qed
qed

section \<open>Every operation keeps the invariant\<close>

lemma keep_Acquire: "wallets_keep svc w (snd (Acquire n w))"
  by (rule keep_frame) (simp_all add: Acquire_def NewUUID_def split: option.split)

lemma keep_Release: "wallets_keep svc w (snd (Release n t w))"
  by (rule keep_frame) (simp_all add: Release_def split: option.split)

lemma keep_deriveNew: "has_wallet (db w) (wID wl) (wChain wl) \<Longrightarrow> wallets_keep svc w (snd (deriveNew svc wl w))"
  using deriveNew_keep by (simp add: wallets_keep_def)

lemma keep_then:
  assumes "wallets_keep svc w w1" and "has_wallet (db w) i ch"
    and "has_wallet (db w1) i ch \<Longrightarrow> wallets_keep svc w1 w2"
  shows "wallets_keep svc w w2"
  using assms wallet_ext_has wallet_ext_trans unfolding wallets_keep_def by blast

lemma keep_with_addr_lock:
  assumes "has_wallet (db w) (wID wl) (wChain wl)"
    and "\<And>w. has_wallet (db w) (wID wl) (wChain wl) \<Longrightarrow> wallets_keep svc w (snd (body w))"
  shows "wallets_keep svc w (snd (with_addr_lock wl body w))"
proof -
  obtain r w1 where a: "Acquire (addr_lock (wID wl)) w = (r, w1)" by fastforce
  have w1: "wallets_keep svc w w1" using keep_Acquire [of svc w "addr_lock (wID wl)"] by (simp add: a)
  obtain rb wb where b: "body w1 = (rb, wb)" by fastforce
  have "wallets_keep svc w (snd (Release (addr_lock (wID wl)) tok wb))" for tok
  proof (rule keep_then [OF w1 assms(1)])
    assume "has_wallet (db w1) (wID wl) (wChain wl)"
    then have "wallets_keep svc w1 wb" using assms(2) [of w1] by (simp add: b)
    then show "wallets_keep svc w1 (snd (Release (addr_lock (wID wl)) tok wb))"
      using keep_Release by (rule keep_trans)
  qed
  then show ?thesis using w1 by (simp add: with_addr_lock_def a b split: sum.split prod.split)
qed

lemma keep_rotate_locked:
  assumes "has_wallet (db w) (wID wl) (wChain wl)"
  shows "wallets_keep svc w (snd (rotate_locked svc wl old w))"
proof -
  obtain r w1 where d: "on_db (DeprecateAddress (aID old)) w = (r, w1)" by fastforce
  have w1: "wallets_keep svc w w1" using keep_deprecate [of svc w "aID old"] by (simp add: d)
  obtain ra w2 where n: "deriveNew svc wl w1 = (ra, w2)" by fastforce
  have w2: "wallets_keep svc w w2"
    using keep_then [OF w1 assms] keep_deriveNew [of w1 wl svc] by (simp add: n)
  show ?thesis
    using w1 w2 keep_trans [OF w2 keep_emit] by (simp add: rotate_locked_def d n split: sum.split)
qed

text \<open>The rest of the system may do anything during a sleep that keeps the invariant.\<close>

lemma keep_derive_loop:
  assumes "\<And>x. wallets_keep svc x (others x)" and "has_wallet (db w) (wID wl) (wChain wl)"
  shows "wallets_keep svc w (snd (derive_loop n others svc wl w))"
  using assms(2)
proof (induction n arbitrary: w)
  case 0
  then show ?case by simp
next
  case (Suc n)
  obtain r w1 where a: "Acquire (addr_lock (wID wl)) w = (r, w1)" by fastforce
  have w1: "wallets_keep svc w w1" using keep_Acquire [of svc w "addr_lock (wID wl)"] by (simp add: a)
  have rel: "wallets_keep svc w (snd (Release l t w1))" for l t using w1 keep_Release by (rule keep_trans)
  obtain ra w2 where n: "deriveNew svc wl w1 = (ra, w2)" by fastforce
  have w2: "wallets_keep svc w w2"
    using keep_then [OF w1 Suc.prems] keep_deriveNew [of w1 wl svc] by (simp add: n)
  have rel2: "wallets_keep svc w (snd (Release l t w2))" for l t using w2 keep_Release by (rule keep_trans)
  have "wallets_keep svc w (others w1)" using w1 assms(1) by (rule keep_trans)
  then have again: "wallets_keep svc w (snd (derive_loop n others svc wl (others w1)))"
    using Suc.IH by (rule keep_then [OF _ Suc.prems])
  show ?case using w1 rel rel2 again by (simp add: a n split: sum.split prod.split)
qed

lemma GetWallet_has: "wallets_inv svc w \<Longrightarrow> GetWallet i (db w) = Inr wl \<Longrightarrow> wID wl = i \<and> has_wallet (db w) i (wChain wl)"
  by (auto simp: GetWallet_def wallets_inv_def has_wallet_def wallet_row_def split: option.splits dest: rows_ok_get)

lemma keep_DeriveAddress:
  assumes "\<And>x. wallets_keep svc x (others x)"
  shows "wallets_keep svc w (snd (DeriveAddress others svc i force w))"
proof (cases "wallets_inv svc w")
  case False
  then show ?thesis by (simp add: wallets_keep_def)
next
  case inv: True
  show ?thesis
  proof (cases "GetWallet i (db w)")
    case (Inl e)
    then show ?thesis by (simp add: DeriveAddress_def ForceRotate_def CurrentOrRotate_def)
  next
    case (Inr wl)
    have has: "has_wallet (db w) (wID wl) (wChain wl)" using GetWallet_has [OF inv Inr] by simp
    have "wallets_keep svc w (snd (rotate svc wl a w))" for a
      unfolding rotate_def by (rule keep_with_addr_lock [OF has keep_rotate_locked])
    moreover have "wallets_keep svc w (snd (with_addr_lock wl (deriveNew svc wl) w))"
      by (rule keep_with_addr_lock [OF has keep_deriveNew])
    moreover have "wallets_keep svc w (snd (deriveNewLocked others svc wl w))"
      unfolding deriveNewLocked_def by (rule keep_derive_loop [OF assms has])
    ultimately show ?thesis
      using Inr by (simp add: DeriveAddress_def ForceRotate_def CurrentOrRotate_def split: sum.split)
  qed
qed

lemma keep_wallets:
  assumes "db w' = (db w)\<lparr>wallets := m\<rparr>" and "dcache w' = dcache w" and "wallet_ext (db w) (db w')"
    and "rows_ok wallet_row (wallets (db w)) \<Longrightarrow> rows_ok wallet_row m"
  shows "wallets_keep svc w w'"
  using assms wallet_ext_has [OF assms(3)] unfolding wallets_keep_def wallets_inv_def by simp

lemma keep_CreateWallet:
  assumes "ValidChain (wChain wl)" "ValidWalletType (wType wl)" "wState wl = WalletStateActive"
  shows "wallets_keep svc w (snd (on_db (CreateWallet t wl) w))"
proof (cases "map_of (wallets (db w)) (wID wl)")
  case (Some x)
  then show ?thesis by (simp add: CreateWallet_def on_db_def)
next
  case None
  define c0 where "c0 = (if IsZero (wCreatedAt wl) then wl\<lparr>wCreatedAt := t\<rparr> else wl)"
  define cp where "cp = c0\<lparr>wUpdatedAt := wCreatedAt c0\<rparr>"
  have cp: "wallet_row (wID wl) cp"
    using assms by (simp add: cp_def c0_def wallet_row_def ValidWalletState_def)
  have s: "snd (CreateWallet t wl (db w)) = (db w)\<lparr>wallets := AList.update (wID wl) cp (wallets (db w))\<rparr>"
    using None by (simp add: CreateWallet_def Let_def cp_def c0_def)
  show ?thesis
    using None cp
    by (intro keep_wallets [where m = "AList.update (wID wl) cp (wallets (db w))"]) (auto simp: s wallet_ext_def)
qed

lemma keep_Create: "wallets_keep svc w (snd (Create svc req w))"
proof -
  obtain k w1 where k: "new_key_id req w = (k, w1)" by fastforce
  have w1: "wallets_keep svc w (w1\<lparr>nid := n\<rparr>)" for n
    using k by (intro keep_frame) (auto simp: new_key_id_def NewUUID_def split: if_splits)
  let ?wl = "\<lparr>wID = ids w1 (nid w1), wChain = crChain req, wType = crType req, wLabel = crLabel req,
    wState = WalletStateActive, wKeyID = k, wCustodianRef = ''mpc'', wRotationDays = None,
    wRotationAfterReceives = None, wCreatedAt = now w1, wUpdatedAt = now w1\<rparr>"
  obtain r w2 where c: "on_db (CreateWallet (now w1) ?wl) (w1\<lparr>nid := Suc (nid w1)\<rparr>) = (r, w2)" by fastforce
  have w2: "wallets_keep svc w w2" if "ValidChain (crChain req)" "ValidWalletType (crType req)"
    using keep_trans [OF w1 keep_CreateWallet [of ?wl svc _ "now w1"], of "Suc (nid w1)"] that by (simp add: c)
  show ?thesis
    using w2 keep_trans [OF w2 keep_emit]
    by (simp add: Create_def k NewUUID_def Let_def c split: sum.split)
qed

lemma keep_SetState: "wallets_keep svc w (snd (SetState svc i st w))"
proof -
  have "wallets_keep svc w (snd (on_db (UpdateWalletState (now w) i st) w))"
    if wl: "GetWallet i (db w) = Inr wl" and st: "ValidWalletState st"
      "wState wl = WalletStateRetired \<longrightarrow> st = WalletStateRetired" for wl
  proof -
    let ?f = "\<lambda>w'. w'\<lparr>wState := st, wUpdatedAt := now w\<rparr>"
    have g: "map_of (wallets (db w)) i = Some wl" using wl by (auto simp: GetWallet_def split: option.splits)
    have s: "snd (UpdateWalletState (now w) i st (db w)) =
        (db w)\<lparr>wallets := AList.map_entry i ?f (wallets (db w))\<rparr>"
      using g by (simp add: UpdateWalletState_def)
    have "rows_ok wallet_row (AList.map_entry i ?f (wallets (db w)))" if "rows_ok wallet_row (wallets (db w))"
      using that st(1) by (intro rows_ok_entry) (auto simp: wallet_row_def)
    then show ?thesis
      using g st(2)
      by (intro keep_wallets [where m = "AList.map_entry i ?f (wallets (db w))"]) (auto simp: s wallet_ext_def)
  qed
  then show ?thesis
    using keep_trans [OF _ keep_emit]
    by (auto simp: SetState_def on_db_def split: sum.split prod.split)
qed

section \<open>The service as a transition system\<close>

inductive wallet_step :: "Service \<Rightarrow> world \<Rightarrow> world \<Rightarrow> bool" for svc :: Service where
  step_create: "wallet_step svc w (snd (Create svc req w))"
| step_state: "wallet_step svc w (snd (SetState svc i st w))"
| step_derive: "(\<And>x. wallets_keep svc x (others x)) \<Longrightarrow>
    wallet_step svc w (snd (DeriveAddress others svc i force w))"
| step_clock: "now w \<le> t \<Longrightarrow> wallet_step svc w (w\<lparr>now := t\<rparr>)"

definition wallet_start :: "world \<Rightarrow> bool" where
  "wallet_start w = (db w = New \<and> dcache w = NewMem)"

lemma step_keep: "wallet_step svc w w' \<Longrightarrow> wallets_keep svc w w'"
proof (induction rule: wallet_step.induct)
  case (step_clock w t)
  then show ?case by (intro keep_frame) simp_all
qed (simp_all add: keep_Create keep_SetState keep_DeriveAddress)

interpretation wallet_sys: inductive_inv wallet_start "wallet_step svc" "wallets_inv svc" for svc
  using step_keep
  by unfold_locales (auto simp: wallet_start_def wallets_inv_def New_def NewMem_def cache_ok_def wallets_keep_def)

section \<open>What a derivation returns\<close>

abbreviation deprecated :: "Address \<Rightarrow> Address" where
  "deprecated a \<equiv> a\<lparr>aState := AddressStateDeprecated\<rparr>"

lemma retire_solana_addresses:
  "addresses (db (snd (retire_solana wl w))) = addresses (db w)
   \<or> (\<exists>i. addresses (db (snd (retire_solana wl w))) = AList.map_entry i deprecated (addresses (db w)))"
  by (simp add: retire_solana_def DeprecateAddress_def split: list.split option.split) blast

lemma retire_solana_rows:
  "map_of (addresses (db w)) k = Some x \<Longrightarrow>
   \<exists>x'. map_of (addresses (db (snd (retire_solana wl w)))) k = Some x' \<and> (x' = x \<or> x' = deprecated x)"
  using retire_solana_addresses [of wl w] by auto

lemma retire_solana_none:
  "map_of (addresses (db (snd (retire_solana wl w)))) k = None \<longleftrightarrow> map_of (addresses (db w)) k = None"
  using retire_solana_addresses [of wl w] by (auto split: if_splits)

lemma entry_vals:
  "b \<in> set (vals (AList.map_entry i f m)) \<Longrightarrow> \<exists>a \<in> set (vals m). b = a \<or> b = f a"
  by (induction m) (auto split: if_splits)

lemma entry_vals_conv:
  "a \<in> set (vals m) \<Longrightarrow> \<exists>b \<in> set (vals (AList.map_entry i f m)). b = a \<or> b = f a"
  by (induction m) auto

lemma max_index_deprecate:
  "max_index ch c m (vals (AList.map_entry i deprecated as)) = max_index ch c m (vals as)"
  by (induction as arbitrary: m) auto

lemma retire_solana_vals:
  "b \<in> set (vals (addresses (db (snd (retire_solana wl w))))) \<Longrightarrow>
   \<exists>a \<in> set (vals (addresses (db w))). b = a \<or> b = deprecated a"
  using retire_solana_addresses [of wl w] entry_vals [of b _ deprecated "addresses (db w)"]
  by (auto simp del: set_map)

lemma deriveNew_ok:
  assumes inv: "wallets_inv svc w" and d: "deriveNew svc wl w = (Inr a, w')"
  shows "aWalletID a = wID wl \<and> aChain a = wChain wl \<and> aState a = AddressStateActive"
    and "map_of (addresses (db w)) (aID a) = None" and "map_of (addresses (db w')) (aID a) = Some a"
    and "map_of (addresses (db w)) k = Some x \<Longrightarrow>
      \<exists>x'. map_of (addresses (db w')) k = Some x' \<and> (x' = x \<or> x' = deprecated x)"
    and "wChain wl \<noteq> ChainSolana \<Longrightarrow> b \<in> set (vals (addresses (db w))) \<Longrightarrow> aChain b = wChain wl \<Longrightarrow>
      aChange b = aChange a \<Longrightarrow> aIndex b < aIndex a"
    and "locks w' = locks w"
proof -
  have c: "cache_ok (deriv_valid (sKeys svc) (sDerivers svc)) (dcache w)"
    and rows: "rows_ok (address_row svc) (addresses (db w))" using inv by (simp_all add: wallets_inv_def)
  from d c obtain res m s ev where
    res: "derive_pure (sKeys svc) (sDerivers svc) (wChain wl) (NextAddressIndex (wChain wl) 0 (db w)) 0 = Inr res"
    and a: "a = new_address (ids w (nid w)) wl res (now w)"
    and ins: "InsertAddress (now w) a (db (snd (retire_solana wl w))) = (Inr (), s)"
    and w': "w' = emit (sAudit svc) ev ((snd (retire_solana wl w))\<lparr>dcache := m, nid := Suc (nid w), db := s\<rparr>)"
    by (cases rule: deriveNew_cases) auto
  have t: "a\<lparr>aCreatedAt := now w\<rparr> = a" by (simp add: a new_address_def)
  have s: "map_of (addresses (db (snd (retire_solana wl w)))) (aID a) = None"
    "addresses s = AList.update (aID a) a (addresses (db (snd (retire_solana wl w))))"
    using ins t by (auto simp: InsertAddress_def Let_def split: option.splits if_splits)
  have db: "addresses (db w') = addresses s" by (simp add: w' frame_simps)
  show "aWalletID a = wID wl \<and> aChain a = wChain wl \<and> aState a = AddressStateActive"
    by (simp add: a new_address_def)
  show none: "map_of (addresses (db w)) (aID a) = None" using s(1) by (simp add: retire_solana_none)
  show "map_of (addresses (db w')) (aID a) = Some a" by (simp add: db s)
  show "\<exists>x'. map_of (addresses (db w')) k = Some x' \<and> (x' = x \<or> x' = deprecated x)"
    if "map_of (addresses (db w)) k = Some x"
    using retire_solana_rows [OF that, of wl] none that by (auto simp: db s)
  show "aIndex b < aIndex a" if "wChain wl \<noteq> ChainSolana" "b \<in> set (vals (addresses (db w)))"
    "aChain b = wChain wl" "aChange b = aChange a"
    using next_index_fresh [OF rows that(2,3) _ that(1), of 0] derive_pure_index [OF res that(1)] that(4)
    by (simp add: a new_address_def)
  show "locks w' = locks w" by (simp add: w' frame_simps)
qed

lemma GetActive_unique:
  assumes "wallets_inv svc w" and "map_of (addresses (db w)) k = Some a" and "aState a = AddressStateActive"
  shows "GetActiveAddress (aWalletID a) (db w) = Inr a"
proof -
  let ?P = "\<lambda>x. aWalletID x = aWalletID a \<and> aState x = AddressStateActive"
  have a: "a \<in> set (vals (addresses (db w)))" using assms(2) by (force dest: map_of_SomeD)
  have rows: "rows_ok (address_row svc) (addresses (db w))" "rows_apart clash (addresses (db w))"
    using assms(1) by (simp_all add: wallets_inv_def)
  obtain x where x: "find ?P (vals (addresses (db w))) = Some x"
    using a assms(3) by (cases "find ?P (vals (addresses (db w)))") (auto simp: find_None_iff)
  then have P: "?P x" "x \<in> set (vals (addresses (db w)))" by (auto dest!: find_SomeD simp del: set_map)
  obtain k' where k': "map_of (addresses (db w)) k' = Some x" using rows_ok_vals [OF rows(1) P(2)] by blast
  have "k' = k" using rows_apartD [OF rows(2) k' assms(2)] P(1) assms(3) by (simp add: clash_def)
  then show ?thesis using k' assms(2) x by (simp add: GetActiveAddress_def)
qed

lemma GetActive_row:
  assumes "wallets_inv svc w" and "GetActiveAddress i (db w) = Inr a"
  shows "map_of (addresses (db w)) (aID a) = Some a \<and> aWalletID a = i \<and> aState a = AddressStateActive"
proof -
  have P: "a \<in> set (vals (addresses (db w)))" "aWalletID a = i" "aState a = AddressStateActive"
    using assms(2) by (auto simp: GetActiveAddress_def dest!: find_SomeD simp del: set_map split: option.splits)
  have rows: "rows_ok (address_row svc) (addresses (db w))" using assms(1) by (simp add: wallets_inv_def)
  show ?thesis using rows_ok_vals [OF rows P(1)] P(2,3) by (auto simp: address_row_def)
qed

text \<open>When a derivation succeeds.\<close>

lemma retire_solana_ok:
  assumes "wallets_inv svc w"
  shows "\<exists>w1. retire_solana wl w = (Inr (), w1)"
proof -
  have "\<exists>s. DeprecateAddress (aID a) (db w) = (Inr (), s)" if l: "ListAddresses (wID wl) (db w) = a # as" for a as
  proof -
    have "a \<in> set (ListAddresses (wID wl) (db w))" by (simp add: l)
    then have "a \<in> set (vals (addresses (db w)))" by (auto simp: ListAddresses_def)
    then have "map_of (addresses (db w)) (aID a) = Some a"
      using assms rows_ok_vals [of "address_row svc" "addresses (db w)" a]
      by (auto simp: wallets_inv_def address_row_def simp del: set_map)
    then show ?thesis by (simp add: DeprecateAddress_def)
  qed
  then show ?thesis by (fastforce simp: retire_solana_def on_db_def split: list.split)
qed

lemma derive_pure_For: "derive_pure K reg ch i c = Inr res \<Longrightarrow> Registry_For ch = Inr ()"
  by (auto simp: derive_pure_def Registry_For_def split: if_splits)

lemma deriveNew_success:
  assumes inv: "wallets_inv svc w"
    and res: "derive_pure (sKeys svc) (sDerivers svc) (wChain wl) (NextAddressIndex (wChain wl) 0 (db w)) 0 = Inr res"
    and noact: "\<And>b. b \<in> set (vals (addresses (db w))) \<Longrightarrow> aWalletID b = wID wl \<Longrightarrow> aState b \<noteq> AddressStateActive"
    and fresh: "map_of (addresses (db w)) (ids w (nid w)) = None"
  shows "\<exists>w'. deriveNew svc wl w = (Inr (new_address (ids w (nid w)) wl res (now w)), w')"
proof -
  obtain w1 where w1: "retire_solana wl w = (Inr (), w1)" using retire_solana_ok [OF inv] by blast
  have frame: "dcache w1 = dcache w" "nid w1 = nid w" "ids w1 = ids w" "now w1 = now w"
    using retire_solana_frame [of wl w] by (simp_all add: w1)
  obtain m where m: "DeriveAt (sKeys svc) (sDerivers svc) (wChain wl) (NextAddressIndex (wChain wl) 0 (db w)) 0 w1 =
      (Inr res, w1\<lparr>dcache := m\<rparr>)"
    using DeriveAt_pure [of "sKeys svc" "sDerivers svc" w1 "wChain wl"
        "NextAddressIndex (wChain wl) 0 (db w)" 0] inv frame res
    by (auto simp: wallets_inv_def)
  have "aState b \<noteq> AddressStateActive" if "b \<in> set (vals (addresses (db w1)))" "aWalletID b = wID wl" for b
    using retire_solana_vals [of b wl w] that noact by (auto simp: w1)
  then have "\<not> (\<exists>ex \<in> set (vals (addresses (db w1))). aWalletID ex = wID wl \<and> aState ex = AddressStateActive)"
    by blast
  moreover have "map_of (addresses (db w1)) (ids w (nid w)) = None"
    using fresh retire_solana_none [of wl w] by (simp add: w1)
  ultimately have "\<exists>s. InsertAddress (now w) (new_address (ids w (nid w)) wl res (now w)) (db w1) = (Inr (), s)"
    by (simp add: InsertAddress_def new_address_def Let_def)
  then show ?thesis
    using m by (auto simp: deriveNew_def derive_pure_For [OF res] w1 Let_def NewUUID_def frame on_db_def)
qed

lemma GetActive_none:
  "GetActiveAddress i s = Inl e \<longleftrightarrow> e = ErrWrap ''no active address'' ErrNoRows
     \<and> (\<forall>b \<in> set (vals (addresses s)). aWalletID b = i \<longrightarrow> aState b \<noteq> AddressStateActive)"
proof (cases "find (\<lambda>a. aWalletID a = i \<and> aState a = AddressStateActive) (vals (addresses s))")
  case None
  moreover have "\<forall>b \<in> set (vals (addresses s)). aWalletID b = i \<longrightarrow> aState b \<noteq> AddressStateActive"
    using None by (auto simp: find_None_iff)
  ultimately show ?thesis by (auto simp: GetActiveAddress_def simp del: set_map)
next
  case (Some a)
  then show ?thesis using find_SomeD [OF Some] by (auto simp: GetActiveAddress_def simp del: set_map)
qed

text \<open>The state in which the body runs once the free lock of a wallet is taken.\<close>

definition addr_locked :: "Wallet \<Rightarrow> world \<Rightarrow> world" where
  "addr_locked wl w =
     w\<lparr>nid := Suc (nid w), locks := AList.update (addr_lock (wID wl)) (ids w (nid w)) (locks w)\<rparr>"

lemma with_lock_free:
  assumes "map_of (locks w) (addr_lock (wID wl)) = None"
    and "body (addr_locked wl w) = (r, w1)" and "locks w1 = locks (addr_locked wl w)"
  shows "\<exists>w'. with_addr_lock wl body w = (r, w') \<and> db w' = db w1 \<and> dcache w' = dcache w1 \<and> map_of (locks w') = map_of (locks w)"
  using assms by (auto simp: with_addr_lock_def addr_locked_def Acquire_free Release_def fun_eq_iff)

lemma deprecate_no_active:
  assumes inv: "wallets_inv svc w" and old: "map_of (addresses (db w)) k = Some old" "aState old = AddressStateActive"
    and b: "b \<in> set (vals (AList.map_entry k deprecated (addresses (db w))))" "aWalletID b = aWalletID old"
  shows "aState b \<noteq> AddressStateActive"
proof
  assume act: "aState b = AddressStateActive"
  have rows: "map_ok (addresses (db w))" "rows_apart clash (addresses (db w))"
    using inv by (auto simp: wallets_inv_def dest: rows_ok_map_ok)
  obtain j where j: "map_of (AList.map_entry k deprecated (addresses (db w))) j = Some b"
    using b(1) rows(1) vals_iff [of "AList.map_entry k deprecated (addresses (db w))" b] by auto
  then have "j \<noteq> k" "map_of (addresses (db w)) j = Some b" using act by (auto split: if_splits)
  then show False using rows_apartD [OF rows(2) _ old(1), of j b] act b(2) old(2) by (simp add: clash_def)
qed

text \<open>The state of a rotation once the old address is deprecated.\<close>

lemma rotation_prepared:
  assumes inv: "wallets_inv svc w" and wl: "GetWallet i (db w) = Inr wl" and old: "GetActiveAddress i (db w) = Inr old"
  obtains wb where "on_db (DeprecateAddress (aID old)) (addr_locked wl w) = (Inr (), wb)" "wallets_inv svc wb"
    "addresses (db wb) = AList.map_entry (aID old) deprecated (addresses (db w))" "locks wb = locks (addr_locked wl w)"
    "ids wb = ids w" "nid wb = Suc (nid w)"
    "NextAddressIndex (wChain wl) 0 (db wb) = NextAddressIndex (wChain wl) 0 (db w)"
    "\<And>b. b \<in> set (vals (addresses (db wb))) \<Longrightarrow> aWalletID b = i \<Longrightarrow> aState b \<noteq> AddressStateActive"
proof -
  have oldr: "map_of (addresses (db w)) (aID old) = Some old" "aWalletID old = i" "aState old = AddressStateActive"
    using GetActive_row [OF inv old] by simp_all
  let ?m = "AList.map_entry (aID old) deprecated (addresses (db w))"
  define wb where "wb = (addr_locked wl w)\<lparr>db := (db w)\<lparr>addresses := ?m\<rparr>\<rparr>"
  have dep: "on_db (DeprecateAddress (aID old)) (addr_locked wl w) = (Inr (), wb)"
    using oldr(1) by (simp add: on_db_def DeprecateAddress_def addr_locked_def wb_def)
  have "wallets_keep svc w (addr_locked wl w)" by (rule keep_frame) (simp_all add: addr_locked_def)
  then have "wallets_inv svc wb"
    using inv keep_deprecate [of svc "addr_locked wl w" "aID old"] by (simp add: wallets_keep_def dep)
  moreover have "aState b \<noteq> AddressStateActive" if "b \<in> set (vals (addresses (db wb)))" "aWalletID b = i" for b
    using deprecate_no_active [OF inv oldr(1,3)] that oldr(2) by (simp add: wb_def)
  ultimately show thesis
    using that [OF dep] by (simp add: wb_def addr_locked_def NextAddressIndex_def max_index_deprecate del: set_map)
qed

section \<open>Properties\<close>

definition sample_service :: "keylib \<Rightarrow> Service" where
  "sample_service K = \<lparr>sKeys = K, sDerivers = sample_registry, sAudit = EmitterService, sConfig = default_config\<rparr>"

text \<open>A library whose derivation fails at index 1.\<close>

definition faulty_keylib :: keylib where
  "faulty_keylib = sample_keylib\<lparr>key_Derive := (\<lambda>k n. if n = 1 then Inl (ErrText ''bad index'') else Inr (k @ [word_of_nat n]))\<rparr>"

definition sample_request :: "chain \<Rightarrow> CreateRequest" where
  "sample_request ch = \<lparr>crChain = ch, crType = WalletTypeHot, crLabel = ''ops'', crKeyID = ''key-1''\<rparr>"

text \<open>One wallet, with one receive address.\<close>

definition sample_created :: "keylib \<Rightarrow> chain \<Rightarrow> world" where
  "sample_created K ch = snd (Create (sample_service K) (sample_request ch) start_world)"

definition sample_derived :: "keylib \<Rightarrow> chain \<Rightarrow> world" where
  "sample_derived K ch = snd (DeriveAddress id (sample_service K) (show_nat 0) True (sample_created K ch))"

lemmas wallet_eval = sample_service_def sample_request_def Create_def new_key_id_def NewUUID_def Let_def on_db_def
  CreateWallet_def New_def start_world_def emit_def Emit_def wallet_event_def NextAuditSeq_def AppendAuditEvent_def
  get_int_def IsZero_def ValidWalletType_def ValidChain_def DeriveAddress_def ForceRotate_def GetWallet_def
  GetActiveAddress_def with_addr_lock_def Acquire_def addr_lock_def deriveNew_def Registry_For_def NextAddressIndex_def
  retire_solana_def DeriveAt_def btc_DeriveAt_def sol_DeriveAt_def derive_cached_def memoise_def cache_Get_def
  cache_Set_def NewMem_def InsertAddress_def Release_def new_address_def sample_created_def sample_derived_def

lemma sample_reach:
  "reaches wallet_start (wallet_step (sample_service K)) (sample_created K ch)"
  "reaches wallet_start (wallet_step (sample_service K)) (sample_derived K ch)"
proof -
  have "reaches wallet_start (wallet_step (sample_service K)) start_world"
    by (rule reaches_init) (simp add: wallet_start_def)
  then show 1: "reaches wallet_start (wallet_step (sample_service K)) (sample_created K ch)"
    unfolding sample_created_def by (rule reaches_step) (rule step_create)
  show "reaches wallet_start (wallet_step (sample_service K)) (sample_derived K ch)"
    unfolding sample_derived_def by (rule reaches_step [OF 1]) (rule step_derive, simp)
qed

lemma sample_btc:
  "0 \<le> i \<Longrightarrow> i < 2 ^ 31 \<Longrightarrow> \<exists>A. btc_deriveUncached sample_keylib (btc_xpub sample_registry) i 0 = Inr A"
  "\<exists>A. btc_deriveUncached faulty_keylib (btc_xpub sample_registry) 0 0 = Inr A"
  "\<exists>e. btc_deriveUncached faulty_keylib (btc_xpub sample_registry) 1 0 = Inl e"
  by (simp_all add: btc_deriveUncached_def deriveChildPubKey_def nonHardened_def bech32Address_def faulty_keylib_def
      sample_keylib_def sample_registry_def string_bytes_def)

text \<open>The state after the first derivation, on Bitcoin.\<close>

lemma sample_derived_state:
  assumes "btc_deriveUncached K (btc_xpub sample_registry) 0 0 = Inr A"
  shows "\<exists>wl. GetWallet (show_nat 0) (db (sample_derived K ChainBitcoin)) = Inr wl \<and> wState wl = WalletStateActive
      \<and> wChain wl = ChainBitcoin \<and> wID wl = show_nat 0"
    and "\<exists>a. addresses (db (sample_derived K ChainBitcoin)) = [(show_nat 4, a)] \<and> aState a = AddressStateActive
      \<and> aWalletID a = show_nat 0 \<and> aChain a = ChainBitcoin \<and> aChange a = 0 \<and> aIndex a = 0 \<and> aAddress a = A"
    and "locks (sample_derived K ChainBitcoin) = []" and "ids (sample_derived K ChainBitcoin) = show_nat"
    and "nid (sample_derived K ChainBitcoin) = 7"
  using assms by (simp_all add: wallet_eval numeral_eq_Suc)



text \<open>
  A forced rotation works whenever it can: if the wallet is not retired, has an active address,
  its lock is free, the next index is derivable and the generated id is unused, it returns a new
  address that is now the wallet's active one; the old one is deprecated, the new index is above
  every index used on that chain, and the lock is free again.
\<close>

lemma ForceRotate_effect:
  assumes inv: "wallets_inv svc w" and wl: "GetWallet i (db w) = Inr wl" "wState wl \<noteq> WalletStateRetired"
    and old: "GetActiveAddress i (db w) = Inr old" and free: "map_of (locks w) (addr_lock i) = None"
    and res: "derive_pure (sKeys svc) (sDerivers svc) (wChain wl) (NextAddressIndex (wChain wl) 0 (db w)) 0 = Inr res"
    and fresh: "map_of (addresses (db w)) (ids w (Suc (nid w))) = None"
  shows "\<exists>a w'. ForceRotate svc i w = (Inr a, w') \<and> GetActiveAddress i (db w') = Inr a
    \<and> aAddress a = rAddress res \<and> aIndex a = rIndex res \<and> aChange a = rChange res
    \<and> map_of (addresses (db w')) (aID old) = Some (deprecated old) \<and> map_of (locks w') = map_of (locks w)
    \<and> (wChain wl \<noteq> ChainSolana \<longrightarrow> (\<forall>b \<in> set (vals (addresses (db w))). aChain b = wChain wl \<and> aChange b = aChange a
         \<longrightarrow> aIndex b < aIndex a))"
proof -
  have id: "wID wl = i" using GetWallet_has [OF inv wl(1)] by simp
  have oldr: "map_of (addresses (db w)) (aID old) = Some old" using GetActive_row [OF inv old] by simp
  obtain wb where wb: "on_db (DeprecateAddress (aID old)) (addr_locked wl w) = (Inr (), wb)" "wallets_inv svc wb"
    "addresses (db wb) = AList.map_entry (aID old) deprecated (addresses (db w))" "locks wb = locks (addr_locked wl w)"
    "ids wb = ids w" "nid wb = Suc (nid w)"
    "NextAddressIndex (wChain wl) 0 (db wb) = NextAddressIndex (wChain wl) 0 (db w)"
    and noact: "\<And>b. b \<in> set (vals (addresses (db wb))) \<Longrightarrow> aWalletID b = i \<Longrightarrow> aState b \<noteq> AddressStateActive"
    using rotation_prepared [OF inv wl(1) old] by blast
  have fr: "map_of (addresses (db wb)) (ids wb (nid wb)) = None" using fresh by (auto simp: wb)
  have "\<exists>w2. deriveNew svc wl wb = (Inr (new_address (ids wb (nid wb)) wl res (now wb)), w2)"
    by (rule deriveNew_success [OF wb(2) _ _ fr]) (simp_all add: wb(7) res noact id del: set_map)
  then obtain a w2 where d: "deriveNew svc wl wb = (Inr a, w2)"
    and a: "aAddress a = rAddress res \<and> aIndex a = rIndex res \<and> aChange a = rChange res"
    by (auto simp: new_address_def)
  note ok = deriveNew_ok [OF wb(2) d]
  obtain ev where rot: "rotate_locked svc wl old (addr_locked wl w) = (Inr a, emit (sAudit svc) ev w2)"
    using d wb(1) by (simp add: rotate_locked_def)
  have lk: "locks (emit (sAudit svc) ev w2) = locks (addr_locked wl w)" using ok(6) wb(4) by (simp add: frame_simps)
  obtain w' where w': "with_addr_lock wl (rotate_locked svc wl old) w = (Inr a, w')"
    "db w' = db (emit (sAudit svc) ev w2)" "map_of (locks w') = map_of (locks w)"
    using with_lock_free [of w wl "rotate_locked svc wl old", OF _ rot lk] free id by auto
  have call: "ForceRotate svc i w = (Inr a, w')" using wl old w'(1) by (simp add: ForceRotate_def rotate_def)
  have inv': "wallets_inv svc w'"
    using keep_DeriveAddress [of svc id w i True] inv by (simp add: DeriveAddress_def call wallets_keep_def)
  have row: "map_of (addresses (db w')) (aID a) = Some a" using ok(3) by (simp add: w'(2) frame_simps)
  have "GetActiveAddress i (db w') = Inr a" using GetActive_unique [OF inv' row] ok(1) id by simp
  moreover have "map_of (addresses (db w')) (aID old) = Some (deprecated old)"
    using ok(4) [of "aID old" "deprecated old"] oldr by (auto simp: w'(2) frame_simps wb(3))
  moreover have "aIndex b < aIndex a" if sol: "wChain wl \<noteq> ChainSolana"
    and b: "b \<in> set (vals (addresses (db w)))" "aChain b = wChain wl" "aChange b = aChange a" for b
  proof -
    obtain b' where "b' \<in> set (vals (addresses (db wb)))" "b' = b \<or> b' = deprecated b"
      using entry_vals_conv [OF b(1), of "aID old" deprecated] by (auto simp: wb(3))
    then show ?thesis using ok(5) [OF sol, of b'] b(2,3) by auto
  qed
  ultimately show ?thesis using call a w'(3) by blast
qed

text \<open>
  A rotation that fails is not undone: when the next index cannot be derived, a forced rotation
  returns the error after it has deprecated the wallet's address, and the wallet has no active address.
\<close>

lemma failed_rotation_loses_address:
  assumes inv: "wallets_inv svc w" and wl: "GetWallet i (db w) = Inr wl" "wState wl \<noteq> WalletStateRetired"
    and old: "GetActiveAddress i (db w) = Inr old" and free: "map_of (locks w) (addr_lock i) = None"
    and err: "derive_pure (sKeys svc) (sDerivers svc) (wChain wl) (NextAddressIndex (wChain wl) 0 (db w)) 0 = Inl e"
  shows "\<exists>e' w'. ForceRotate svc i w = (Inl e', w') \<and> GetActiveAddress i (db w') = Inl (ErrWrap ''no active address'' ErrNoRows)"
proof -
  have id: "wID wl = i" using GetWallet_has [OF inv wl(1)] by simp
  obtain wb where wb: "on_db (DeprecateAddress (aID old)) (addr_locked wl w) = (Inr (), wb)" "wallets_inv svc wb"
    "locks wb = locks (addr_locked wl w)"
    "NextAddressIndex (wChain wl) 0 (db wb) = NextAddressIndex (wChain wl) 0 (db w)"
    and noactb: "\<And>b. b \<in> set (vals (addresses (db wb))) \<Longrightarrow> aWalletID b = i \<Longrightarrow> aState b \<noteq> AddressStateActive"
    using rotation_prepared [OF inv wl(1) old] by blast
  obtain r w2 where d: "deriveNew svc wl wb = (r, w2)" by fastforce
  have cb: "cache_ok (deriv_valid (sKeys svc) (sDerivers svc)) (dcache wb)" using wb(2) by (simp add: wallets_inv_def)
  have w2: "\<exists>e. r = Inl e" "locks w2 = locks wb"
    "b \<in> set (vals (addresses (db w2))) \<Longrightarrow> \<exists>a \<in> set (vals (addresses (db wb))). b = a \<or> b = deprecated a" for b
    using d cb
    by (cases rule: deriveNew_cases; use err wb(4) retire_solana_vals in \<open>auto simp: frame_simps simp del: set_map\<close>)+
  have noact: "aState b \<noteq> AddressStateActive" if "b \<in> set (vals (addresses (db w2)))" "aWalletID b = i" for b
    using w2(3) [OF that(1)] noactb that(2) by (auto simp del: set_map)
  obtain e' where e': "r = Inl e'" using w2(1) by blast
  have rot: "rotate_locked svc wl old (addr_locked wl w) = (Inl e', w2)" using d wb(1) e' by (simp add: rotate_locked_def)
  obtain w' where w': "with_addr_lock wl (rotate_locked svc wl old) w = (Inl e', w')" "db w' = db w2"
    using with_lock_free [of w wl "rotate_locked svc wl old", OF _ rot] free id w2(2) wb(3) by auto
  have "GetActiveAddress i (db w') = Inl (ErrWrap ''no active address'' ErrNoRows)"
    using noact by (simp add: GetActive_none w'(2) del: set_map)
  then show ?thesis using wl old w'(1) by (simp add: ForceRotate_def rotate_def)
qed

text \<open>
  Retirement is final. Once a wallet is retired it stays retired in every later state, no state
  change of it is accepted, and no address is derived for it.
\<close>

lemma retired_is_final:
  assumes "reaches wallet_start (wallet_step svc) w" and "(wallet_step svc)\<^sup>*\<^sup>* w w'"
    and "GetWallet i (db w) = Inr wl" and "wState wl = WalletStateRetired"
    and "ValidWalletState st" and "st \<noteq> WalletStateRetired"
  shows "(\<exists>wl'. GetWallet i (db w') = Inr wl' \<and> wState wl' = WalletStateRetired)
    \<and> DeriveAddress others svc i force w' = (Inl ErrWalletRetired, w')
    \<and> SetState svc i st w' = (Inl (ErrText ''cannot un-retire a wallet''), w')"
proof -
  have inv: "wallets_inv svc w" using assms(1) by (rule wallet_sys.reaches_inv)
  have "wallets_inv svc w' \<and> wallet_ext (db w) (db w')"
    using assms(2)
  proof (induction rule: rtranclp_induct)
    case base
    then show ?case using inv by simp
  next
    case (step y z)
    then show ?case using step_keep [OF step(2)] by (auto simp: wallets_keep_def intro: wallet_ext_trans)
  qed
  moreover have "map_of (wallets (db w)) i = Some wl" using assms(3) by (auto simp: GetWallet_def split: option.splits)
  ultimately obtain wl' where "map_of (wallets (db w')) i = Some wl'" "wState wl' = WalletStateRetired"
    using assms(4) by (auto elim: wallet_extD)
  then have "GetWallet i (db w') = Inr wl'" "wState wl' = WalletStateRetired" by (simp_all add: GetWallet_def)
  then show ?thesis
    using assms(5,6) by (simp add: DeriveAddress_def ForceRotate_def CurrentOrRotate_def SetState_def)
qed

text \<open>
  Every Solana wallet has the same address: two address rows on Solana, of the same or of different
  wallets, hold the same address and path, in every reachable state.
\<close>

lemma solana_wallets_share_address:
  assumes "reaches wallet_start (wallet_step svc) w"
    and "a \<in> set (vals (addresses (db w)))" "b \<in> set (vals (addresses (db w)))"
    and "aChain a = ChainSolana" "aChain b = ChainSolana"
  shows "aAddress a = aAddress b \<and> aDerivationPath a = aDerivationPath b"
proof -
  have "wallets_inv svc w" using assms(1) by (rule wallet_sys.reaches_inv)
  then have rows: "rows_ok (address_row svc) (addresses (db w))" by (simp add: wallets_inv_def)
  show ?thesis
    using rows_ok_vals [OF rows assms(2)] rows_ok_vals [OF rows assms(3)] assms(4,5)
    by (auto simp: address_row_def derive_pure_solana simp del: append.simps)
qed

definition quiet_service :: Service where
  "quiet_service = (sample_service sample_keylib)\<lparr>sAudit := NilEmitter\<rparr>"

definition two_created :: world where
  "two_created = snd (Create quiet_service (sample_request ChainSolana)
     (snd (Create quiet_service (sample_request ChainSolana) start_world)))"

definition two_solana :: world where
  "two_solana = snd (DeriveAddress id quiet_service (show_nat 1) True
     (snd (DeriveAddress id quiet_service (show_nat 0) True two_created)))"

lemma two_solana_reach: "reaches wallet_start (wallet_step quiet_service) two_solana"
proof -
  have "reaches wallet_start (wallet_step quiet_service) start_world"
    by (rule reaches_init) (simp add: wallet_start_def)
  then have "reaches wallet_start (wallet_step quiet_service) (snd (Create quiet_service (sample_request ChainSolana) start_world))"
    by (rule reaches_step) (rule step_create)
  then have "reaches wallet_start (wallet_step quiet_service) two_created"
    unfolding two_created_def by (rule reaches_step) (rule step_create)
  then have "reaches wallet_start (wallet_step quiet_service) (snd (DeriveAddress id quiet_service (show_nat 0) True two_created))"
    by (rule reaches_step) (rule step_derive, simp)
  then show ?thesis unfolding two_solana_def by (rule reaches_step) (rule step_derive, simp)
qed

end
