(* ===== verification/Withdrawal.thy ===== *)
theory Withdrawal
  imports Nonce Utxo Keys TxBuilder Deriver Outbox
begin

text \<open>
  The withdrawal saga, \<^verbatim>\<open>internal/withdrawal/withdrawal.go\<close>, with the key resolvers of
  \<^verbatim>\<open>resolver.go\<close> and the request and verdict of \<^verbatim>\<open>internal/policy/policy.go\<close>. The services it calls
  over the network (policy engine, MPC signer, blockchain gateway, Solana node) are fields of the
  environment \<open>saga_env\<close>, as are the libraries and what other goroutines do while a nonce
  reservation sleeps or a coin selection is between its two calls of the store.
\<close>

section \<open>Data\<close>

record WithdrawalCreate =
  wcWalletID :: uuid
  wcToAddress :: string
  wcAsset :: string
  wcAmount :: string

record CheckRequest =
  ckWalletID :: string
  ckToAddress :: string
  ckAsset :: string
  ckAmount :: string

record CheckResponse =
  cdApproved :: bool
  cdDecisionID :: string
  cdReason :: string

record SignRequest =
  sgKeyID :: string
  sgTxBytes :: bytes
  sgWalletID :: uuid

record BroadcastRequest =
  brChain :: string
  brTxBytes :: bytes
  brWalletID :: uuid

text \<open>A nil interface is \<open>None\<close>. \<^verbatim>\<open>CheckWhitelist\<close> returns a pointer and an error.\<close>

record saga_env =
  sD :: declib
  sT :: txlib
  sPolicy :: "CheckRequest \<Rightarrow> CheckResponse option \<times> goerr option"
  sSigner :: "SignRequest \<Rightarrow> bytes res"
  sGateway :: "BroadcastRequest \<Rightarrow> string res"
  sKeyLookup :: "(uuid \<Rightarrow> world \<Rightarrow> string res) option"
  sBTCKeys :: "(uuid \<Rightarrow> world \<Rightarrow> BTCKeys res) option"
  sSolanaKeys :: "(uuid \<Rightarrow> world \<Rightarrow> SolanaKeys res) option"
  sSolanaBlockhash :: "bytes res option"
  sEmitter :: Emitter
  sOthers :: "world \<Rightarrow> world"
  sOthersDB :: "store \<Rightarrow> store"

section \<open>Key resolvers\<close>

text \<open>A nil registry is \<open>None\<close>.\<close>

definition BTCPubKeyHash :: "keylib \<Rightarrow> Registry option \<Rightarrow> uuid \<Rightarrow> world \<Rightarrow> BTCKeys res" where
  "BTCPubKeyHash K reg wid w =
     (case reg of
        None \<Rightarrow> Inr zero_btc_keys
      | Some reg \<Rightarrow>
          (case GetActiveAddress wid (db w) of
             Inl _ \<Rightarrow> Inr zero_btc_keys
           | Inr addr \<Rightarrow>
               if aDerivationPath addr = [] then Inr zero_btc_keys
               else (case BTCPubKeyHashFor K reg (aDerivationPath addr) of
                       Inl e \<Rightarrow> Inl (ErrWrap ''derive btc pubkey hash'' e)
                     | Inr (pkHash, compressed) \<Rightarrow>
                         Inr \<lparr>bkPubKeyHash = pkHash, bkCompressedPubKey = Some compressed\<rparr>)))"

definition SolanaFrom :: "txlib \<Rightarrow> uuid \<Rightarrow> world \<Rightarrow> SolanaKeys res" where
  "SolanaFrom T wid w =
     (case GetActiveAddress wid (db w) of
        Inl _ \<Rightarrow> Inr zero_solana_keys
      | Inr addr \<Rightarrow>
          if aAddress addr = [] then Inr zero_solana_keys
          else (let decoded = base58_Decode T (aAddress addr)
                in if length decoded \<noteq> 32 then Inl (ErrText ''solana: active address does not decode to 32 bytes'')
                   else Inr \<lparr>skFrom = decoded\<rparr>))"

section \<open>Operations\<close>

definition withdrawal_event :: "string \<Rightarrow> uuid \<Rightarrow> payload \<Rightarrow> Event" where
  "withdrawal_event ty wid pl = \<lparr>evType = ty, evWalletID = Some wid, evPayload = pl\<rparr>"

definition resolveBuildOpts :: "saga_env \<Rightarrow> Wallet \<Rightarrow> world \<Rightarrow> BuildOpts res" where
  "resolveBuildOpts E wl w =
     (let opts = \<lparr>boBTC = zero_btc_keys, boSolana = zero_solana_keys, boSolanaBlockhash = None\<rparr>
      in case (case sBTCKeys E of
                 Some f \<Rightarrow> if wChain wl = ChainBitcoin then f (wID wl) w else Inr (boBTC opts)
               | None \<Rightarrow> Inr (boBTC opts)) of
           Inl e \<Rightarrow> Inl (ErrWrap ''resolve btc keys'' e)
         | Inr bk \<Rightarrow>
             (case (case sSolanaKeys E of
                      Some f \<Rightarrow> if wChain wl = ChainSolana then f (wID wl) w else Inr (boSolana opts)
                    | None \<Rightarrow> Inr (boSolana opts)) of
                Inl e \<Rightarrow> Inl (ErrWrap ''resolve solana keys'' e)
              | Inr sk \<Rightarrow> Inr \<lparr>boBTC = bk, boSolana = sk, boSolanaBlockhash = sSolanaBlockhash E\<rparr>))"

definition rollback :: "Wallet \<Rightarrow> int \<Rightarrow> string list \<Rightarrow> world \<Rightarrow> world" where
  "rollback wl n ops w =
     (let w = (if n \<ge> 0 \<and> IsEVM (wChain wl) then snd (RollbackNonce (wID wl) (wChain wl) n w) else w)
      in if ops \<noteq> [] then snd (on_db (Unlock (now w) ops) w) else w)"

definition noncePtr :: "WithdrawalRequest \<Rightarrow> int" where
  "noncePtr wr = (case wrNonceValue wr of None \<Rightarrow> - 1 | Some n \<Rightarrow> n)"

definition decisionID :: "CheckResponse option \<Rightarrow> goerr option \<Rightarrow> string" where
  "decisionID dec err =
     (if err \<noteq> None then ''error'' else (case dec of None \<Rightarrow> ''nil'' | Some d \<Rightarrow> cdDecisionID d))"

definition new_withdrawal :: "WithdrawalCreate \<Rightarrow> uuid \<Rightarrow> time \<Rightarrow> WithdrawalRequest" where
  "new_withdrawal req i t =
     \<lparr>wrID = i, wrWalletID = wcWalletID req, wrToAddress = wcToAddress req, wrAsset = wcAsset req,
      wrAmount = wcAmount req, wrState = WithdrawalStatePending, wrPolicyDecisionID = [], wrFailureReason = [],
      wrTxHash = [], wrNonceValue = None, wrReservedOutpoints = [], wrSignedTxBytes = [],
      wrCreatedAt = t, wrUpdatedAt = t\<rparr>"

definition check_request :: "WithdrawalCreate \<Rightarrow> CheckRequest" where
  "check_request req = \<lparr>ckWalletID = wcWalletID req, ckToAddress = wcToAddress req, ckAsset = wcAsset req,
     ckAmount = wcAmount req\<rparr>"

text \<open>What \<open>Create\<close> does with the verdict.\<close>

definition apply_verdict ::
    "CheckResponse option \<Rightarrow> goerr option \<Rightarrow> WithdrawalRequest \<Rightarrow> world \<Rightarrow> WithdrawalRequest res \<times> world" where
  "apply_verdict dec err wr w =
     (case dec of
        Some d \<Rightarrow>
          if err \<noteq> None \<or> \<not> cdApproved d then
            (let reason = (if cdReason d \<noteq> [] then cdReason d else ''policy_error'')
             in (Inr (wr\<lparr>wrState := WithdrawalStateFailed, wrFailureReason := reason, wrPolicyDecisionID := cdDecisionID d\<rparr>),
                 snd (on_db (UpdateWithdrawalState (now w) (wrID wr) WithdrawalStateFailed reason [] (cdDecisionID d)) w)))
          else (case on_db (UpdateWithdrawalState (now w) (wrID wr) WithdrawalStateWhitelisted [] [] (cdDecisionID d)) w of
                  (Inl e, w) \<Rightarrow> (Inl e, w)
                | (Inr _, w) \<Rightarrow> (Inr (wr\<lparr>wrState := WithdrawalStateWhitelisted, wrPolicyDecisionID := cdDecisionID d\<rparr>), w))
      | None \<Rightarrow>
          (Inr (wr\<lparr>wrState := WithdrawalStateFailed, wrFailureReason := ''policy_error'', wrPolicyDecisionID := []\<rparr>),
           snd (on_db (UpdateWithdrawalState (now w) (wrID wr) WithdrawalStateFailed ''policy_error'' [] []) w)))"

definition Withdrawal_Create ::
    "saga_env \<Rightarrow> WithdrawalCreate \<Rightarrow> world \<Rightarrow> WithdrawalRequest res \<times> world" where
  "Withdrawal_Create E req w =
     (case GetWallet (wcWalletID req) (db w) of
        Inl e \<Rightarrow> (Inl (ErrWrap ''get wallet'' e), w)
      | Inr wl \<Rightarrow>
          if wState wl = WalletStateRetired then (Inl ErrWalletRetired, w)
          else if wState wl = WalletStatePaused then (Inl (ErrText ''wallet is paused''), w)
          else
            (case NewUUID w of (i, w) \<Rightarrow>
             let wr = new_withdrawal req i (now w)
             in case on_db (CreateWithdrawal (now w) wr) w of
                  (Inl e, w) \<Rightarrow> (Inl (ErrWrap ''create withdrawal'' e), w)
                | (Inr _, w) \<Rightarrow>
                    (let w = emit (sEmitter E) (withdrawal_event ''withdrawal.created'' (wcWalletID req)
                           [(''id'', PStr i), (''to'', PStr (wcToAddress req)), (''asset'', PStr (wcAsset req)),
                            (''amount'', PStr (wcAmount req))]) w
                     in case sPolicy E (check_request req) of
                          (dec, err) \<Rightarrow>
                            (let w = emit (sEmitter E) (withdrawal_event ''withdrawal.whitelist_checked'' (wcWalletID req)
                                   [(''id'', PStr i), (''decision_id'', PStr (decisionID dec err))]) w
                             in apply_verdict dec err wr w))))"

text \<open>The first half of \<open>ConstructAndSign\<close>: the nonce or the coins the transaction will use.\<close>

definition reserve_resources ::
    "saga_env \<Rightarrow> WithdrawalRequest \<Rightarrow> Wallet \<Rightarrow> uuid \<Rightarrow> world \<Rightarrow> (int \<times> string list) res \<times> world" where
  "reserve_resources E wr wl i w =
     (if IsEVM (wChain wl) then
        (case ReserveNonce (sOthers E) (wrWalletID wr) (wChain wl) w of
           (Inl e, w) \<Rightarrow> (Inl (ErrWrap ''reserve nonce'' e), w)
         | (Inr n, w) \<Rightarrow> (Inr (n, []), snd (on_db (UpdateWithdrawalNonce (now w) i n) w)))
      else if wChain wl = ChainBitcoin then
        (case NewFromString (sD E) (wrAmount wr) of
           None \<Rightarrow> (Inl (ErrText ''parse btc amount''), snd (RollbackNonce (wrWalletID wr) (wChain wl) (- 1) w))
         | Some amount \<Rightarrow>
             (case on_db (SelectForAmount (sD E) (sOthersDB E) (now w) (wrWalletID wr) amount) w of
                (Inl e, w) \<Rightarrow>
                  (Inl (ErrWrap ''select utxos'' e), snd (RollbackNonce (wrWalletID wr) (wChain wl) (- 1) w))
              | (Inr (ops, _), w) \<Rightarrow>
                  (case on_db (UpdateWithdrawalOutpoints (now w) i ops) w of
                     (Inl e, w) \<Rightarrow> (Inl (ErrWrap ''persist outpoints'' e), rollback wl (- 1) ops w)
                   | (Inr _, w) \<Rightarrow> (Inr (- 1, ops), w))))
      else (Inr (- 1, []), w))"

text \<open>The second half: build, sign, assemble, persist.\<close>

definition sign_reserved ::
    "saga_env \<Rightarrow> WithdrawalRequest \<Rightarrow> Wallet \<Rightarrow> string \<Rightarrow> uuid \<Rightarrow> int \<Rightarrow> string list \<Rightarrow> world \<Rightarrow> unit res \<times> world" where
  "sign_reserved E wr wl keyID i n ops w =
     (case resolveBuildOpts E wl w of
        Inl e \<Rightarrow> (Inl (ErrWrap ''resolve build opts'' e), rollback wl n ops w)
      | Inr opts \<Rightarrow>
     (case BuildUnsignedTx (sT E) (sD E) wl wr n ops opts of
        Inl e \<Rightarrow> (Inl (ErrWrap ''build unsigned tx'' e), rollback wl n ops w)
      | Inr utx \<Rightarrow>
     (case sSigner E \<lparr>sgKeyID = keyID, sgTxBytes = utPayload utx, sgWalletID = wrWalletID wr\<rparr> of
        Inl e \<Rightarrow> (Inl (ErrWrap ''sign'' e),
                  snd (on_db (UpdateWithdrawalState (now w) i WithdrawalStateFailed ''sign_failed'' [] []) (rollback wl n ops w)))
      | Inr signature \<Rightarrow>
     (case utAssemble utx signature of
        Inl e \<Rightarrow> (Inl (ErrWrap ''assemble signed tx'' e),
                  snd (on_db (UpdateWithdrawalState (now w) i WithdrawalStateFailed ''assemble_failed'' [] []) (rollback wl n ops w)))
      | Inr signedBytes \<Rightarrow>
     (case on_db (UpdateWithdrawalSignedTx (now w) i signedBytes) w of
        (Inl e, w) \<Rightarrow> (Inl (ErrWrap ''persist signed tx'' e), rollback wl n ops w)
      | (Inr _, w) \<Rightarrow>
     (case on_db (UpdateWithdrawalState (now w) i WithdrawalStateSigned [] [] []) w of
        (Inl e, w) \<Rightarrow> (Inl e, w)
      | (Inr _, w) \<Rightarrow>
          (Inr (), emit (sEmitter E) (withdrawal_event ''withdrawal.signed'' (wrWalletID wr)
             [(''id'', PStr i), (''nonce'', PInt n), (''utxos'', PStrs ops),
              (''signed_bytes_len'', PInt (int (length signedBytes)))]) w)))))))"

definition ConstructAndSign :: "saga_env \<Rightarrow> uuid \<Rightarrow> world \<Rightarrow> unit res \<times> world" where
  "ConstructAndSign E i w =
     (case GetWithdrawal i (db w) of
        Inl e \<Rightarrow> (Inl e, w)
      | Inr wr \<Rightarrow>
          if wrState wr \<noteq> WithdrawalStateWhitelisted then (Inl (ErrText ''withdrawal not in whitelisted state''), w)
          else
     (case GetWallet (wrWalletID wr) (db w) of
        Inl e \<Rightarrow> (Inl e, w)
      | Inr wl \<Rightarrow>
     (case (case sKeyLookup E of None \<Rightarrow> Inr [] | Some f \<Rightarrow> f (wrWalletID wr) w) of
        Inl e \<Rightarrow> (Inl (ErrWrap ''resolve key'' e), w)
      | Inr keyID \<Rightarrow>
     (case reserve_resources E wr wl i w of
        (Inl e, w) \<Rightarrow> (Inl e, w)
      | (Inr (n, ops), w) \<Rightarrow> sign_reserved E wr wl keyID i n ops w))))"

text \<open>What \<open>Broadcast\<close> does once the gateway accepted the transaction.\<close>

definition record_broadcast ::
    "saga_env \<Rightarrow> WithdrawalRequest \<Rightarrow> Wallet \<Rightarrow> uuid \<Rightarrow> string \<Rightarrow> world \<Rightarrow> unit res \<times> world" where
  "record_broadcast E wr wl i txHash w =
     (let w = (if wChain wl = ChainBitcoin \<and> wrReservedOutpoints wr \<noteq> []
               then snd (on_db (MarkSpent (now w) (wrReservedOutpoints wr) txHash) w) else w);
          w = (if IsEVM (wChain wl)
               then (case wrNonceValue wr of
                       Some n \<Rightarrow> snd (CommitNonce (wrWalletID wr) (wChain wl) n w)
                     | None \<Rightarrow> w)
               else w)
      in case on_db (UpdateWithdrawalState (now w) i WithdrawalStateBroadcast [] txHash []) w of
           (Inl e, w) \<Rightarrow> (Inl e, w)
         | (Inr _, w) \<Rightarrow>
             (Inr (), emit (sEmitter E) (withdrawal_event ''withdrawal.broadcast'' (wrWalletID wr)
                [(''id'', PStr i), (''tx_hash'', PStr txHash)]) w))"

definition Broadcast :: "saga_env \<Rightarrow> uuid \<Rightarrow> world \<Rightarrow> unit res \<times> world" where
  "Broadcast E i w =
     (case GetWithdrawal i (db w) of
        Inl e \<Rightarrow> (Inl e, w)
      | Inr wr \<Rightarrow>
          if wrState wr \<noteq> WithdrawalStateSigned then (Inl (ErrText ''withdrawal not signed''), w)
          else
     (case GetWallet (wrWalletID wr) (db w) of
        Inl e \<Rightarrow> (Inl e, w)
      | Inr wl \<Rightarrow>
          if wrSignedTxBytes wr = [] then (Inl (ErrText ''withdrawal has no signed tx bytes''), w)
          else
     (case sGateway E \<lparr>brChain = wChain wl, brTxBytes = wrSignedTxBytes wr, brWalletID = wrWalletID wr\<rparr> of
        Inl e \<Rightarrow> (Inl (ErrWrap ''broadcast'' e),
                  snd (on_db (UpdateWithdrawalState (now w) i WithdrawalStateFailed ''broadcast_failed'' [] [])
                    (rollback wl (noncePtr wr) (wrReservedOutpoints wr) w)))
      | Inr txHash \<Rightarrow> record_broadcast E wr wl i txHash w)))"

definition Confirm :: "saga_env \<Rightarrow> uuid \<Rightarrow> string \<Rightarrow> world \<Rightarrow> unit res \<times> world" where
  "Confirm E i txHash w =
     (case GetWithdrawal i (db w) of
        Inl e \<Rightarrow> (Inl e, w)
      | Inr wr \<Rightarrow>
          if wrState wr \<noteq> WithdrawalStateBroadcast then (Inl (ErrText ''withdrawal not broadcast''), w)
          else
     (case on_db (UpdateWithdrawalState (now w) i WithdrawalStateConfirmed [] txHash []) w of
        (Inl e, w) \<Rightarrow> (Inl e, w)
      | (Inr _, w) \<Rightarrow>
          (Inr (), emit (sEmitter E) (withdrawal_event ''withdrawal.confirmed'' (wrWalletID wr)
             [(''id'', PStr i), (''tx_hash'', PStr txHash)]) w)))"

definition Fail :: "saga_env \<Rightarrow> uuid \<Rightarrow> string \<Rightarrow> world \<Rightarrow> unit res \<times> world" where
  "Fail E i reason w =
     (case GetWithdrawal i (db w) of
        Inl e \<Rightarrow> (Inl e, w)
      | Inr wr \<Rightarrow>
     (case GetWallet (wrWalletID wr) (db w) of
        Inl e \<Rightarrow> (Inl e, w)
      | Inr wl \<Rightarrow>
     (let w = rollback wl (noncePtr wr) [] w
      in case on_db (UpdateWithdrawalState (now w) i WithdrawalStateFailed reason [] []) w of
           (Inl e, w) \<Rightarrow> (Inl e, w)
         | (Inr _, w) \<Rightarrow>
             (Inr (), emit (sEmitter E) (withdrawal_event ''withdrawal.failed'' (wrWalletID wr)
                [(''id'', PStr i), (''reason'', PStr reason)]) w))))"

definition OnReorg :: "uuid \<Rightarrow> string list \<Rightarrow> world \<Rightarrow> unit res \<times> world" where
  "OnReorg i outpoints w =
     (case GetWithdrawal i (db w) of
        Inl e \<Rightarrow> (Inl e, w)
      | Inr wr \<Rightarrow>
     (case on_db (RestoreOnReorg (now w) outpoints) w of
        (Inl e, w) \<Rightarrow> (Inl e, w)
      | (Inr _, w) \<Rightarrow>
          if wrState wr = WithdrawalStateConfirmed
          then on_db (UpdateWithdrawalState (now w) i WithdrawalStateBroadcast ''reorg'' [] []) w
          else (Inr (), w)))"

section \<open>What the calls leave alone\<close>

text \<open>Other goroutines may do anything but touch the withdrawals table.\<close>

definition quiet :: "saga_env \<Rightarrow> bool" where
  "quiet E = ((\<forall>x. withdrawals (db (sOthers E x)) = withdrawals (db x))
     \<and> (\<forall>s. withdrawals (sOthersDB E s) = withdrawals s))"

lemma RollbackNonce_withdrawals [frame_simps]: "withdrawals (db (snd (RollbackNonce wid ch n w))) = withdrawals (db w)"
  by (simp add: RollbackNonce_def on_db_def RollbackPendingNonce_def split: option.split prod.split)

lemma CommitNonce_withdrawals [frame_simps]: "withdrawals (db (snd (CommitNonce wid ch n w))) = withdrawals (db w)"
  by (simp add: CommitNonce_def AdvanceBroadcastNonce_def Let_def)

lemma Restore_withdrawals [frame_simps]:
  "withdrawals (snd (RestoreUTXOs t ops s)) = withdrawals s"
  "withdrawals (snd (MarkUTXOsSpent t ops h s)) = withdrawals s"
  "withdrawals (snd (LockUTXOs t ops s)) = withdrawals s"
  by (simp_all add: RestoreUTXOs_def MarkUTXOsSpent_def LockUTXOs_def split: prod.split sum.split)

lemma rollback_withdrawals [frame_simps]: "withdrawals (db (rollback wl n ops w)) = withdrawals (db w)"
  by (simp add: rollback_def Let_def Unlock_def frame_simps)

lemma reserve_loop_withdrawals:
  assumes "\<And>x. withdrawals (db (others x)) = withdrawals (db x)"
  shows "withdrawals (db (snd (reserve_loop n others wid ch w))) = withdrawals (db w)"
proof (induction n arbitrary: w)
  case (Suc n)
  have "withdrawals (db (snd (Acquire l w))) = withdrawals (db w)" for l by (simp add: frame_simps)
  moreover have "withdrawals (snd (IncrementPendingNonce t wid ch s)) = withdrawals s" for t s
    by (simp add: IncrementPendingNonce_def Let_def)
  ultimately show ?case
    using Suc assms
    by (auto simp: on_db_def Let_def frame_simps Acquire_def NewUUID_def IncrementPendingNonce_def
        split: option.split)
qed simp

lemma SelectForAmount_withdrawals:
  "(\<And>s. withdrawals (others s) = withdrawals s) \<Longrightarrow>
   withdrawals (snd (SelectForAmount D others t wid amount s)) = withdrawals s"
  using Restore_withdrawals(3) [of t _ "others s"]
  by (auto simp: SelectForAmount_def Let_def split: prod.split sum.split) (metis snd_conv)+

section \<open>What the calls do to a withdrawal\<close>

definition wstate :: "world \<Rightarrow> uuid \<Rightarrow> string option" where
  "wstate w i = map_option wrState (map_of (withdrawals (db w)) i)"

text \<open>Only row \<open>i\<close> is written, and its state becomes \<open>g\<close> of what it was.\<close>

definition wr_touch :: "uuid \<Rightarrow> (string \<Rightarrow> string) \<Rightarrow> world \<Rightarrow> world \<Rightarrow> bool" where
  "wr_touch i g w w' =
     (\<exists>f. withdrawals (db w') = AList.map_entry i f (withdrawals (db w)) \<and> (\<forall>wr. wrState (f wr) = g (wrState wr)))"

lemma map_entry_id: "AList.map_entry k (\<lambda>x. x) m = m"
  by (induction m) auto

lemma map_entry_comp: "AList.map_entry k f (AList.map_entry k g m) = AList.map_entry k (\<lambda>x. f (g x)) m"
  by (induction m) auto

lemma touch_frame: "withdrawals (db w') = withdrawals (db w) \<Longrightarrow> wr_touch i (\<lambda>x. x) w w'"
  unfolding wr_touch_def by (rule exI [of _ "\<lambda>x. x"]) (simp add: map_entry_id)

lemma touch_trans: "wr_touch i g w w1 \<Longrightarrow> wr_touch i h w1 w2 \<Longrightarrow> wr_touch i (\<lambda>x. h (g x)) w w2"
  unfolding wr_touch_def by (fastforce simp: map_entry_comp)

lemma touch_then_frame: "wr_touch i g w w1 \<Longrightarrow> withdrawals (db w2) = withdrawals (db w1) \<Longrightarrow> wr_touch i g w w2"
  by (simp add: wr_touch_def)

lemma frame_then_touch: "withdrawals (db w1) = withdrawals (db w) \<Longrightarrow> wr_touch i g w1 w2 \<Longrightarrow> wr_touch i g w w2"
  by (simp add: wr_touch_def)

lemma touch_wstate: "wr_touch i g w w' \<Longrightarrow> wstate w' = (wstate w)(i := map_option g (wstate w i))"
  by (auto simp: wr_touch_def wstate_def fun_eq_iff option.map_comp comp_def)

lemma touch_update_state:
  "wstate w i = Some s0 \<Longrightarrow> \<exists>w'. on_db (UpdateWithdrawalState t i st reason h d) w = (Inr (), w') \<and> wr_touch i (\<lambda>_. st) w w'"
  unfolding wstate_def wr_touch_def
  by (auto simp: on_db_def UpdateWithdrawalState_def Let_def set_withdrawal_state_def
      intro!: exI [of _ "set_withdrawal_state t st reason h d"])

lemma touch_fail:
  assumes "wstate w i = Some s0" and "withdrawals (db w1) = withdrawals (db w)"
  shows "wr_touch i (\<lambda>_. st) w (snd (on_db (UpdateWithdrawalState t i st reason h d) w1))"
proof -
  have "wstate w1 i = Some s0" using assms by (simp add: wstate_def)
  then show ?thesis using touch_update_state [of w1 i s0 t st reason h d] frame_then_touch [OF assms(2)] by auto
qed

lemma touch_signed_tx:
  "wstate w i = Some s0 \<Longrightarrow> \<exists>w1. on_db (UpdateWithdrawalSignedTx t i bs) w = (Inr (), w1) \<and> wr_touch i (\<lambda>x. x) w w1"
  unfolding wstate_def wr_touch_def
  by (auto simp: UpdateWithdrawalSignedTx_def on_db_def intro!: exI [of _ "\<lambda>w. w\<lparr>wrSignedTxBytes := bs, wrUpdatedAt := t\<rparr>"])

lemma GetWithdrawal_state: "GetWithdrawal i (db w) = Inr wr \<Longrightarrow> wstate w i = Some (wrState wr)"
  by (auto simp: GetWithdrawal_def wstate_def split: option.splits)

lemma reserve_resources_touch:
  assumes "quiet E"
  shows "wr_touch i (\<lambda>x. x) w (snd (reserve_resources E wr wl i w))"
proof -
  have others: "\<And>x. withdrawals (db (sOthers E x)) = withdrawals (db x)" "\<And>s. withdrawals (sOthersDB E s) = withdrawals s"
    using assms by (auto simp: quiet_def)
  have nonce: "wr_touch i (\<lambda>x. x) w1 (snd (on_db (UpdateWithdrawalNonce t i n) w1))" for w1 t n
    unfolding wr_touch_def
    by (cases "map_of (withdrawals (db w1)) i")
      (auto simp: UpdateWithdrawalNonce_def intro: exI [of _ "\<lambda>x. x"] exI [of _ "\<lambda>w. w\<lparr>wrNonceValue := Some n, wrUpdatedAt := t\<rparr>"] simp: map_entry_id)
  have ops: "wr_touch i (\<lambda>x. x) w1 (snd (on_db (UpdateWithdrawalOutpoints t i l) w1))" for w1 t l
    unfolding wr_touch_def
    by (cases "map_of (withdrawals (db w1)) i")
      (auto simp: UpdateWithdrawalOutpoints_def intro: exI [of _ "\<lambda>x. x"] exI [of _ "\<lambda>w. w\<lparr>wrReservedOutpoints := l, wrUpdatedAt := t\<rparr>"] simp: map_entry_id)
  obtain rn wn where n: "ReserveNonce (sOthers E) (wrWalletID wr) (wChain wl) w = (rn, wn)" by fastforce
  have wn: "withdrawals (db wn) = withdrawals (db w)"
    using reserve_loop_withdrawals [OF others(1), of 50 "wrWalletID wr" "wChain wl" w] n by (simp add: ReserveNonce_def)
  have sel: "withdrawals (db ws) = withdrawals (db w)"
    if "on_db (SelectForAmount (sD E) (sOthersDB E) (now w) (wrWalletID wr) amount) w = (rs, ws)" for amount rs ws
    using that SelectForAmount_withdrawals [OF others(2), of "sD E" "now w" "wrWalletID wr" amount "db w"]
    by (auto simp: on_db_def split: prod.splits)
  have btc: "wr_touch i (\<lambda>x. x) w (snd (case on_db (UpdateWithdrawalOutpoints t i l) ws of
      (Inl e, w) \<Rightarrow> (Inl (ErrWrap ''persist outpoints'' e) :: (int \<times> string list) res, rollback wl (- 1) l w)
    | (Inr _, w) \<Rightarrow> (Inr (- 1, l), w)))" if "withdrawals (db ws) = withdrawals (db w)" for t l ws
  proof -
    obtain r x where x: "on_db (UpdateWithdrawalOutpoints t i l) ws = (r, x)" by fastforce
    have "wr_touch i (\<lambda>x. x) w x" using frame_then_touch [OF that ops, of t l] by (simp add: x)
    then show ?thesis using touch_then_frame by (auto simp: x frame_simps split: sum.split)
  qed
  show ?thesis
  proof (cases "IsEVM (wChain wl)")
    case True
    then show ?thesis
      using frame_then_touch [OF wn nonce] touch_frame [OF wn] by (simp add: reserve_resources_def n split: sum.split)
  next
    case False
    have fr: "wr_touch i (\<lambda>x. x) w (snd (RollbackNonce a b c x))" if "withdrawals (db x) = withdrawals (db w)" for a b c x
      by (rule touch_frame) (simp add: frame_simps that)
    show ?thesis
    proof (cases "wChain wl = ChainBitcoin")
      case bitcoin: True
      show ?thesis
      proof (cases "NewFromString (sD E) (wrAmount wr)")
        case None
        then show ?thesis using bitcoin fr [of w] by (simp add: reserve_resources_def)
      next
        case (Some amount)
        obtain rs ws where ws: "on_db (SelectForAmount (sD E) (sOthersDB E) (now w) (wrWalletID wr) amount) w = (rs, ws)"
          by fastforce
        note same = sel [OF ws]
        show ?thesis
        proof (cases rs)
          case (Inl e)
          then show ?thesis using bitcoin Some fr [OF same] by (simp add: reserve_resources_def ws)
        next
          case (Inr x)
          obtain l tot where "x = (l, tot)" by fastforce
          then have "reserve_resources E wr wl i w = (case on_db (UpdateWithdrawalOutpoints (now ws) i l) ws of
              (Inl e, w) \<Rightarrow> (Inl (ErrWrap ''persist outpoints'' e), rollback wl (- 1) l w)
            | (Inr _, w) \<Rightarrow> (Inr (- 1, l), w))"
            using bitcoin Some Inr ws by (simp add: reserve_resources_def)
          then show ?thesis using btc [OF same, of l "now ws"] by (simp only:)
        qed
      qed
    next
      case False
      then show ?thesis using \<open>\<not> IsEVM (wChain wl)\<close> touch_frame [of w w i] by (simp add: reserve_resources_def)
    qed
  qed
qed

text \<open>The outcome of signing: the row keeps its state, or it was whitelisted and is now signed or failed.\<close>

lemma sign_reserved_touch:
  assumes "wstate w i = Some s0"
  shows "wr_touch i (\<lambda>x. x) w (snd (sign_reserved E wr wl k i n ops w)) \<and> \<not> is_ok (fst (sign_reserved E wr wl k i n ops w))
    \<or> wr_touch i (\<lambda>_. WithdrawalStateSigned) w (snd (sign_reserved E wr wl k i n ops w)) \<and> is_ok (fst (sign_reserved E wr wl k i n ops w))
    \<or> wr_touch i (\<lambda>_. WithdrawalStateFailed) w (snd (sign_reserved E wr wl k i n ops w)) \<and> \<not> is_ok (fst (sign_reserved E wr wl k i n ops w))"
proof -
  have rb: "wr_touch i (\<lambda>x. x) w (rollback wl n ops w)" by (rule touch_frame) (simp add: frame_simps)
  have failed: "wr_touch i (\<lambda>_. WithdrawalStateFailed) w
      (snd (on_db (UpdateWithdrawalState t i WithdrawalStateFailed reason [] []) (rollback wl n ops w)))" for t reason
    by (rule touch_fail [OF assms]) (simp add: frame_simps)
  have signed: "\<exists>w1 w2. on_db (UpdateWithdrawalSignedTx t i bs) w = (Inr (), w1)
      \<and> on_db (UpdateWithdrawalState (now w1) i WithdrawalStateSigned [] [] []) w1 = (Inr (), w2)
      \<and> wr_touch i (\<lambda>_. WithdrawalStateSigned) w w2" for t bs
  proof -
    obtain w1 where w1: "on_db (UpdateWithdrawalSignedTx t i bs) w = (Inr (), w1)" "wr_touch i (\<lambda>x. x) w w1"
      using touch_signed_tx [OF assms] by blast
    have "wstate w1 i = Some s0" using touch_wstate [OF w1(2)] assms by simp
    then show ?thesis
      using touch_update_state [of w1 i s0 "now w1" WithdrawalStateSigned "[]" "[]" "[]"] touch_trans [OF w1(2)] w1(1) by auto
  qed
  have emit: "wr_touch i g w w2 \<Longrightarrow> wr_touch i g w (emit em ev w2)" for g w2 em ev
    by (rule touch_then_frame) (simp_all add: frame_simps)
  show ?thesis
  proof (cases "resolveBuildOpts E wl w")
    case (Inl e)
    then show ?thesis using rb by (simp add: sign_reserved_def)
  next
    case opts: (Inr opts)
    show ?thesis
    proof (cases "BuildUnsignedTx (sT E) (sD E) wl wr n ops opts")
      case (Inl e)
      then show ?thesis using rb opts by (simp add: sign_reserved_def)
    next
      case utx: (Inr utx)
      show ?thesis
      proof (cases "sSigner E \<lparr>sgKeyID = k, sgTxBytes = utPayload utx, sgWalletID = wrWalletID wr\<rparr>")
        case (Inl e)
        then show ?thesis using failed opts utx by (simp add: sign_reserved_def)
      next
        case sg: (Inr sg)
        show ?thesis
        proof (cases "utAssemble utx sg")
          case (Inl e)
          then show ?thesis using failed opts utx sg by (simp add: sign_reserved_def)
        next
          case (Inr bs)
          then show ?thesis
            using signed [of "now w" bs] emit opts utx sg by (auto simp: sign_reserved_def)
        qed
      qed
    qed
  qed
qed

lemma ConstructAndSign_touch:
  assumes "quiet E" and "ConstructAndSign E i w = (r, w')"
  shows "wr_touch i (\<lambda>x. x) w w' \<and> \<not> is_ok r
    \<or> wstate w i = Some WithdrawalStateWhitelisted
      \<and> (wr_touch i (\<lambda>_. WithdrawalStateSigned) w w' \<and> is_ok r \<or> wr_touch i (\<lambda>_. WithdrawalStateFailed) w w' \<and> \<not> is_ok r)"
proof (cases "\<exists>wr wl k n ops w1. GetWithdrawal i (db w) = Inr wr \<and> wrState wr = WithdrawalStateWhitelisted
    \<and> GetWallet (wrWalletID wr) (db w) = Inr wl \<and> (case sKeyLookup E of None \<Rightarrow> Inr [] | Some f \<Rightarrow> f (wrWalletID wr) w) = Inr k
    \<and> reserve_resources E wr wl i w = (Inr (n, ops), w1)")
  case True
  then obtain wr wl k n ops w1 where c: "GetWithdrawal i (db w) = Inr wr" "wrState wr = WithdrawalStateWhitelisted"
    "GetWallet (wrWalletID wr) (db w) = Inr wl" "(case sKeyLookup E of None \<Rightarrow> Inr [] | Some f \<Rightarrow> f (wrWalletID wr) w) = Inr k"
    "reserve_resources E wr wl i w = (Inr (n, ops), w1)" by blast
  have w1: "wr_touch i (\<lambda>x. x) w w1" using reserve_resources_touch [OF assms(1), of i w wr wl] by (simp add: c(5))
  have st: "wstate w i = Some WithdrawalStateWhitelisted" using GetWithdrawal_state [OF c(1)] c(2) by simp
  have "wstate w1 i = Some WithdrawalStateWhitelisted" using touch_wstate [OF w1] st by simp
  note sr = sign_reserved_touch [OF this, of E wr wl k n ops]
  have eq: "sign_reserved E wr wl k i n ops w1 = (r, w')" using assms(2) c by (simp add: ConstructAndSign_def)
  show ?thesis using sr st touch_trans [OF w1, of _ w'] unfolding eq by auto
next
  case False
  have "wr_touch i (\<lambda>x. x) w ww" if "reserve_resources E wr wl i w = (rr, ww)" for wr wl rr ww
    using reserve_resources_touch [OF assms(1), of i w wr wl] by (simp add: that)
  moreover have "wr_touch i (\<lambda>x. x) w w" by (rule touch_frame) simp
  ultimately show ?thesis
    using assms(2) False by (auto simp: ConstructAndSign_def split: sum.splits if_splits prod.splits)
qed

text \<open>When \<open>Broadcast\<close> reaches its call of the gateway.\<close>

definition gateway_called :: "uuid \<Rightarrow> world \<Rightarrow> bool" where
  "gateway_called i w =
     (case GetWithdrawal i (db w) of
        Inl _ \<Rightarrow> False
      | Inr wr \<Rightarrow> wrState wr = WithdrawalStateSigned \<and> is_ok (GetWallet (wrWalletID wr) (db w)) \<and> wrSignedTxBytes wr \<noteq> [])"

lemma record_broadcast_touch:
  assumes "wstate w i = Some s0"
  shows "\<exists>w'. record_broadcast E wr wl i h w = (Inr (), w') \<and> wr_touch i (\<lambda>_. WithdrawalStateBroadcast) w w'"
proof -
  define w1 where "w1 = (if wChain wl = ChainBitcoin \<and> wrReservedOutpoints wr \<noteq> []
    then snd (on_db (MarkSpent (now w) (wrReservedOutpoints wr) h) w) else w)"
  define w2 where "w2 = (if IsEVM (wChain wl) then (case wrNonceValue wr of
    Some n \<Rightarrow> snd (CommitNonce (wrWalletID wr) (wChain wl) n w1) | None \<Rightarrow> w1) else w1)"
  have same: "withdrawals (db w2) = withdrawals (db w)"
    by (simp add: w2_def w1_def MarkSpent_def frame_simps split: option.split)
  then have "wstate w2 i = Some s0" using assms by (simp add: wstate_def)
  then obtain w3 where w3: "on_db (UpdateWithdrawalState (now w2) i WithdrawalStateBroadcast [] h []) w2 = (Inr (), w3)"
    "wr_touch i (\<lambda>_. WithdrawalStateBroadcast) w2 w3" using touch_update_state by blast
  have "wr_touch i (\<lambda>_. WithdrawalStateBroadcast) w (emit em ev w3)" for em ev
    by (rule touch_then_frame [OF frame_then_touch [OF same w3(2)]]) (simp add: frame_simps)
  then show ?thesis
    using w3(1) by (simp add: record_broadcast_def Let_def w1_def [symmetric] w2_def [symmetric])
qed

lemma Broadcast_touch:
  assumes "Broadcast E i w = (r, w')"
  shows "\<not> gateway_called i w \<and> w' = w \<and> \<not> is_ok r
    \<or> gateway_called i w \<and> wstate w i = Some WithdrawalStateSigned
      \<and> (wr_touch i (\<lambda>_. WithdrawalStateBroadcast) w w' \<and> is_ok r \<or> wr_touch i (\<lambda>_. WithdrawalStateFailed) w w' \<and> \<not> is_ok r)"
proof (cases "gateway_called i w")
  case False
  then show ?thesis
    using assms by (auto simp: gateway_called_def Broadcast_def split: sum.splits if_splits)
next
  case True
  then obtain wr wl where c: "GetWithdrawal i (db w) = Inr wr" "wrState wr = WithdrawalStateSigned"
    "GetWallet (wrWalletID wr) (db w) = Inr wl" "wrSignedTxBytes wr \<noteq> []"
    by (auto simp: gateway_called_def split: sum.splits elim!: is_okE)
  have st: "wstate w i = Some WithdrawalStateSigned" using GetWithdrawal_state [OF c(1)] c(2) by simp
  have "wr_touch i (\<lambda>_. WithdrawalStateFailed) w
      (snd (on_db (UpdateWithdrawalState t i WithdrawalStateFailed ''broadcast_failed'' [] []) (rollback wl n ops w)))" for t n ops
    by (rule touch_fail [OF st]) (simp add: frame_simps)
  moreover obtain w1 where "record_broadcast E wr wl i h w = (Inr (), w1)" "wr_touch i (\<lambda>_. WithdrawalStateBroadcast) w w1"
    if "sGateway E \<lparr>brChain = wChain wl, brTxBytes = wrSignedTxBytes wr, brWalletID = wrWalletID wr\<rparr> = Inr h" for h
    using record_broadcast_touch [OF st, of E wr wl] by (metis Inr_inject)
  ultimately show ?thesis
    using True assms c st by (auto simp: Broadcast_def split: sum.splits)
qed

lemma Confirm_touch:
  assumes "Confirm E i h w = (r, w')"
  shows "w' = w \<and> \<not> is_ok r
    \<or> wstate w i = Some WithdrawalStateBroadcast \<and> wr_touch i (\<lambda>_. WithdrawalStateConfirmed) w w' \<and> is_ok r"
proof (cases "GetWithdrawal i (db w)")
  case (Inl e)
  then show ?thesis using assms by (auto simp: Confirm_def)
next
  case (Inr wr)
  have st: "wstate w i = Some (wrState wr)" by (rule GetWithdrawal_state [OF Inr])
  obtain w1 where w1: "on_db (UpdateWithdrawalState (now w) i WithdrawalStateConfirmed [] h []) w = (Inr (), w1)"
    "wr_touch i (\<lambda>_. WithdrawalStateConfirmed) w w1" using touch_update_state [OF st] by blast
  have "wr_touch i (\<lambda>_. WithdrawalStateConfirmed) w (emit em ev w1)" for em ev
    by (rule touch_then_frame [OF w1(2)]) (simp add: frame_simps)
  then show ?thesis using assms Inr st w1(1) by (auto simp: Confirm_def split: if_splits)
qed

lemma Fail_touch:
  assumes "Fail E i reason w = (r, w')"
  shows "w' = w \<and> \<not> is_ok r \<or> wstate w i \<noteq> None \<and> wr_touch i (\<lambda>_. WithdrawalStateFailed) w w' \<and> is_ok r"
proof (cases "\<exists>wr wl. GetWithdrawal i (db w) = Inr wr \<and> GetWallet (wrWalletID wr) (db w) = Inr wl")
  case False
  then show ?thesis using assms by (auto simp: Fail_def split: sum.splits)
next
  case True
  then obtain wr wl where c: "GetWithdrawal i (db w) = Inr wr" "GetWallet (wrWalletID wr) (db w) = Inr wl" by blast
  define w1 where "w1 = rollback wl (noncePtr wr) [] w"
  have same: "withdrawals (db w1) = withdrawals (db w)" by (simp add: w1_def frame_simps)
  have st: "wstate w i = Some (wrState wr)" by (rule GetWithdrawal_state [OF c(1)])
  then have "wstate w1 i = Some (wrState wr)" by (simp add: wstate_def same)
  then obtain w2 where w2: "on_db (UpdateWithdrawalState (now w1) i WithdrawalStateFailed reason [] []) w1 = (Inr (), w2)"
    "wr_touch i (\<lambda>_. WithdrawalStateFailed) w1 w2" using touch_update_state by blast
  have "wr_touch i (\<lambda>_. WithdrawalStateFailed) w (emit em ev w2)" for em ev
    by (rule touch_then_frame [OF frame_then_touch [OF same w2(2)]]) (simp add: frame_simps)
  then show ?thesis using assms c st w2(1) by (auto simp: Fail_def Let_def w1_def [symmetric])
qed

lemma OnReorg_touch:
  assumes "OnReorg i ops w = (r, w')"
  shows "wr_touch i (\<lambda>x. x) w w'
    \<or> wstate w i = Some WithdrawalStateConfirmed \<and> wr_touch i (\<lambda>_. WithdrawalStateBroadcast) w w'"
proof (cases "GetWithdrawal i (db w)")
  case (Inl e)
  then show ?thesis using assms touch_frame [of w w] by (auto simp: OnReorg_def)
next
  case (Inr wr)
  obtain ro w1 where w1: "on_db (RestoreOnReorg (now w) ops) w = (ro, w1)" by fastforce
  have same: "withdrawals (db w1) = withdrawals (db w)"
    using arg_cong [OF w1, of "\<lambda>x. withdrawals (db (snd x))"] by (simp add: RestoreOnReorg_def frame_simps)
  have st: "wstate w i = Some (wrState wr)" by (rule GetWithdrawal_state [OF Inr])
  then have "wstate w1 i = Some (wrState wr)" by (simp add: wstate_def same)
  then obtain w2 where w2: "on_db (UpdateWithdrawalState (now w1) i WithdrawalStateBroadcast ''reorg'' [] []) w1 = (Inr (), w2)"
    "wr_touch i (\<lambda>_. WithdrawalStateBroadcast) w1 w2" using touch_update_state by blast
  show ?thesis
    using assms Inr w1 st w2(1) frame_then_touch [OF same w2(2)] touch_frame [OF same]
    by (auto simp: OnReorg_def split: sum.splits if_splits)
qed

end
