(* ===== verification/Saga.thy ===== *)
theory Saga
  imports Withdrawal
begin

text \<open>
  The withdrawal saga as a state machine (\<open>src/internal/withdrawal/withdrawal.go\<close>): an abstract
  specification of the life of a withdrawal, the machine whose steps are the calls of the model, and
  the refinement between them. From it: every withdrawal goes to the gateway at most once, and only
  after the policy approved it. Then what the calls do to the resources of a withdrawal.
\<close>

section \<open>Create\<close>

definition approves :: "saga_env \<Rightarrow> WithdrawalCreate \<Rightarrow> bool" where
  "approves E req = (case sPolicy E (check_request req) of (Some d, None) \<Rightarrow> cdApproved d | _ \<Rightarrow> False)"

lemma verdict_wstate:
  assumes "wstate w (wrID wr) = Some s0" and "apply_verdict dec err wr w = (r, w')"
  shows "\<exists>wr'. r = Inr wr' \<and> wrID wr' = wrID wr \<and> wstate w' = (wstate w)(wrID wr \<mapsto> wrState wr')
    \<and> wrState wr' = (if (case (dec, err) of (Some d, None) \<Rightarrow> cdApproved d | _ \<Rightarrow> False)
                     then WithdrawalStateWhitelisted else WithdrawalStateFailed)"
proof -
  have up: "\<exists>w1. on_db (UpdateWithdrawalState (now w) (wrID wr) st reason h d) w = (Inr (), w1)
      \<and> wstate w1 = (wstate w)(wrID wr \<mapsto> st)" for st reason h d
    using touch_update_state [OF assms(1), of "now w" st reason h d] touch_wstate assms(1) by fastforce
  have failed: "wstate (snd (on_db (UpdateWithdrawalState (now w) (wrID wr) st reason h d) w)) = (wstate w)(wrID wr \<mapsto> st)" for st reason h d
    using up [of st reason h d] by auto
  show ?thesis
  proof (cases dec)
    case None
    then show ?thesis using assms(2) failed by (auto simp: apply_verdict_def)
  next
    case (Some d)
    then show ?thesis
      using assms(2) failed up [of WithdrawalStateWhitelisted "[]" "[]" "cdDecisionID d"]
      by (auto simp: apply_verdict_def Let_def split: if_splits option.split)
  qed
qed

lemma wstate_frame: "withdrawals (db w') = withdrawals (db w) \<Longrightarrow> wstate w' = wstate w"
  by (simp add: wstate_def fun_eq_iff)

lemma CreateWithdrawal_wstate:
  assumes "on_db (CreateWithdrawal t wr) w = (r, w')"
  shows "w' = w \<and> \<not> is_ok r \<or> r = Inr () \<and> wstate w (wrID wr) = None \<and> wstate w' = (wstate w)(wrID wr \<mapsto> wrState wr)"
  using assms
  by (auto simp: on_db_def CreateWithdrawal_def Let_def wstate_def map_of_update fun_eq_iff split: option.splits if_splits)

lemma Create_wstate:
  assumes "Withdrawal_Create E req w = (r, w')"
  shows "wstate w' = wstate w \<and> \<not> is_ok r
    \<or> (\<exists>wr. r = Inr wr \<and> wstate w (wrID wr) = None \<and> wstate w' = (wstate w)(wrID wr \<mapsto> wrState wr)
        \<and> wrState wr = (if approves E req then WithdrawalStateWhitelisted else WithdrawalStateFailed))"
proof (cases "\<exists>wl. GetWallet (wcWalletID req) (db w) = Inr wl \<and> wState wl \<noteq> WalletStateRetired \<and> wState wl \<noteq> WalletStatePaused")
  case False
  then show ?thesis using assms by (auto simp: Withdrawal_Create_def split: sum.splits if_splits)
next
  case True
  then obtain wl where wl: "GetWallet (wcWalletID req) (db w) = Inr wl" "wState wl \<noteq> WalletStateRetired" "wState wl \<noteq> WalletStatePaused"
    by blast
  obtain i w0 where w0: "NewUUID w = (i, w0)" by fastforce
  then have s0: "wstate w0 = wstate w" by (intro wstate_frame) (auto simp: NewUUID_def)
  define wr where "wr = new_withdrawal req i (now w0)"
  have wr: "wrID wr = i" "wrState wr = WithdrawalStatePending" by (simp_all add: wr_def new_withdrawal_def)
  obtain rc w1 where w1: "on_db (CreateWithdrawal (now w0) wr) w0 = (rc, w1)" by fastforce
  obtain dec err where p: "sPolicy E (check_request req) = (dec, err)" by fastforce
  show ?thesis
  proof (cases rc)
    case (Inl e)
    then show ?thesis
      using CreateWithdrawal_wstate [OF w1] s0 assms wl w0 w1 by (auto simp: Withdrawal_Create_def Let_def wr_def [symmetric])
  next
    case (Inr u)
    then have c: "wstate w i = None" "wstate w1 = (wstate w)(i \<mapsto> WithdrawalStatePending)"
      using CreateWithdrawal_wstate [OF w1] s0 wr by auto
    obtain w2 where w2: "apply_verdict dec err wr w2 = (r, w')" "withdrawals (db w2) = withdrawals (db w1)"
      using assms Inr wl w0 w1 p
      by (auto simp: Withdrawal_Create_def Let_def wr_def [symmetric] frame_simps)
    have s2: "wstate w2 = (wstate w)(i \<mapsto> WithdrawalStatePending)" using wstate_frame [OF w2(2)] c(2) by simp
    then show ?thesis
      using verdict_wstate [OF _ w2(1)] wr c(1) by (fastforce simp: approves_def p)
  qed
qed

section \<open>The specification of the saga\<close>

datatype phase = Waiting | Approved | Ready | Sent | Settled | Dead

text \<open>The phase of every withdrawal, the submissions to the gateway in order, the approved withdrawals.\<close>

record spec_state =
  phases :: "uuid \<Rightarrow> phase option"
  submissions :: "uuid list"
  grants :: "uuid set"

definition spec_init :: "spec_state \<Rightarrow> bool" where
  "spec_init s = (s = \<lparr>phases = Map.empty, submissions = [], grants = {}\<rparr>)"

inductive spec_step :: "spec_state \<Rightarrow> spec_state \<Rightarrow> bool" where
  open_granted: "phases s i = None \<Longrightarrow> spec_step s (s\<lparr>phases := (phases s)(i \<mapsto> Approved), grants := insert i (grants s)\<rparr>)"
| open_denied: "phases s i = None \<Longrightarrow> spec_step s (s\<lparr>phases := (phases s)(i \<mapsto> Dead)\<rparr>)"
| prepare: "phases s i = Some Approved \<Longrightarrow> spec_step s (s\<lparr>phases := (phases s)(i \<mapsto> Ready)\<rparr>)"
| send: "phases s i = Some Ready \<Longrightarrow> p = Sent \<or> p = Dead \<Longrightarrow>
    spec_step s (s\<lparr>phases := (phases s)(i \<mapsto> p), submissions := submissions s @ [i]\<rparr>)"
| settle: "phases s i = Some Sent \<Longrightarrow> spec_step s (s\<lparr>phases := (phases s)(i \<mapsto> Settled)\<rparr>)"
| unsettle: "phases s i = Some Settled \<Longrightarrow> spec_step s (s\<lparr>phases := (phases s)(i \<mapsto> Sent)\<rparr>)"
| kill: "phases s i \<noteq> None \<Longrightarrow> spec_step s (s\<lparr>phases := (phases s)(i \<mapsto> Dead)\<rparr>)"
| idle: "spec_step s s"

inductive_cases spec_stepE: "spec_step s t"

text \<open>No withdrawal is submitted twice; a submitted one is past signing; every live one was approved.\<close>

definition spec_inv :: "spec_state \<Rightarrow> bool" where
  "spec_inv s = (distinct (submissions s) \<and> set (submissions s) \<subseteq> grants s
     \<and> (\<forall>i \<in> set (submissions s). phases s i \<in> {Some Sent, Some Settled, Some Dead})
     \<and> (\<forall>i. phases s i \<notin> {None, Some Dead} \<longrightarrow> i \<in> grants s))"

interpretation saga_spec: inductive_inv spec_init spec_step spec_inv
proof
  fix s t
  assume inv: "spec_inv s" and "spec_step s t"
  from this(2) show "spec_inv t"
  proof cases
    case (send i p)
    then have "i \<notin> set (submissions s)" "i \<in> grants s" using inv unfolding spec_inv_def by force+
    then show ?thesis using inv send unfolding spec_inv_def by (auto simp: image_iff)
  qed (use inv in \<open>force simp: spec_inv_def\<close>)+
qed (simp add: spec_init_def spec_inv_def)

section \<open>The machine of the code\<close>

text \<open>
  A state of the program with two histories: the withdrawals whose bytes were handed to the gateway,
  in order, and those whose policy check answered approved. Every step may meet another environment:
  the policy engine, the signer and the gateway answer as they like each time.
\<close>

record saga =
  sw :: world
  sSubmitted :: "uuid list"
  sApproved :: "uuid set"

definition saga_init :: "saga \<Rightarrow> bool" where
  "saga_init s = (withdrawals (db (sw s)) = [] \<and> sSubmitted s = [] \<and> sApproved s = {})"

inductive saga_step :: "saga \<Rightarrow> saga \<Rightarrow> bool" where
  create: "Withdrawal_Create E req (sw s) = (r, w') \<Longrightarrow>
    saga_step s (s\<lparr>sw := w', sApproved := sApproved s \<union> (case r of Inr wr \<Rightarrow> if approves E req then {wrID wr} else {} | Inl _ \<Rightarrow> {})\<rparr>)"
| sign: "quiet E \<Longrightarrow> ConstructAndSign E i (sw s) = (u, w') \<Longrightarrow> saga_step s (s\<lparr>sw := w'\<rparr>)"
| broadcast: "Broadcast E i (sw s) = (u, w') \<Longrightarrow>
    saga_step s (s\<lparr>sw := w', sSubmitted := sSubmitted s @ (if gateway_called i (sw s) then [i] else [])\<rparr>)"
| confirm: "Confirm E i h (sw s) = (u, w') \<Longrightarrow> saga_step s (s\<lparr>sw := w'\<rparr>)"
| fail: "Fail E i reason (sw s) = (u, w') \<Longrightarrow> saga_step s (s\<lparr>sw := w'\<rparr>)"
| reorg: "OnReorg i ops (sw s) = (u, w') \<Longrightarrow> saga_step s (s\<lparr>sw := w'\<rparr>)"
| other: "withdrawals (db w') = withdrawals (db (sw s)) \<Longrightarrow> saga_step s (s\<lparr>sw := w'\<rparr>)"

definition phase_of :: "string \<Rightarrow> phase" where
  "phase_of st =
     (if st = WithdrawalStateWhitelisted then Approved
      else if st = WithdrawalStateSigned then Ready
      else if st = WithdrawalStateBroadcast then Sent
      else if st = WithdrawalStateConfirmed then Settled
      else if st = WithdrawalStateFailed then Dead
      else Waiting)"

lemma phase_of_simps [simp]:
  "phase_of WithdrawalStateWhitelisted = Approved" "phase_of WithdrawalStateSigned = Ready"
  "phase_of WithdrawalStateBroadcast = Sent" "phase_of WithdrawalStateConfirmed = Settled"
  "phase_of WithdrawalStateFailed = Dead"
  by (simp_all add: phase_of_def)

definition abs_saga :: "saga \<Rightarrow> spec_state" where
  "abs_saga s = \<lparr>phases = (\<lambda>i. map_option phase_of (wstate (sw s) i)), submissions = sSubmitted s, grants = sApproved s\<rparr>"

lemma abs_same: "wstate w' = wstate (sw s) \<Longrightarrow> abs_saga (s\<lparr>sw := w'\<rparr>) = abs_saga s"
  by (simp add: abs_saga_def)

lemma abs_touch:
  "wr_touch i (\<lambda>_. st) (sw s) w' \<Longrightarrow> wstate (sw s) i = Some s0 \<Longrightarrow>
   abs_saga (s\<lparr>sw := w'\<rparr>) = (abs_saga s)\<lparr>phases := (phases (abs_saga s))(i \<mapsto> phase_of st)\<rparr>"
  by (auto simp: abs_saga_def fun_eq_iff touch_wstate)

lemma touch_id_wstate: "wr_touch i (\<lambda>x. x) w w' \<Longrightarrow> wstate w' = wstate w"
  by (simp add: touch_wstate option.map_ident)

lemma abs_phase: "phases (abs_saga s) i = map_option phase_of (wstate (sw s) i)"
  by (simp add: abs_saga_def)

lemma sim_create:
  assumes "Withdrawal_Create E req (sw s) = (r, w')"
  shows "spec_step (abs_saga s) (abs_saga (s\<lparr>sw := w', sApproved := sApproved s
    \<union> (case r of Inr wr \<Rightarrow> if approves E req then {wrID wr} else {} | Inl _ \<Rightarrow> {})\<rparr>))"
  using Create_wstate [OF assms]
proof (elim disjE exE conjE)
  assume "wstate w' = wstate (sw s)" "\<not> is_ok r"
  then have "abs_saga (s\<lparr>sw := w', sApproved := sApproved s
      \<union> (case r of Inr wr \<Rightarrow> if approves E req then {wrID wr} else {} | Inl _ \<Rightarrow> {})\<rparr>) = abs_saga s"
    by (cases r) (auto simp: abs_saga_def)
  then show ?thesis using spec_step.idle by simp
next
  fix wr
  assume c: "r = Inr wr" "wstate (sw s) (wrID wr) = None" "wstate w' = (wstate (sw s))(wrID wr \<mapsto> wrState wr)"
    "wrState wr = (if approves E req then WithdrawalStateWhitelisted else WithdrawalStateFailed)"
  have none: "phases (abs_saga s) (wrID wr) = None" using c(2) by (simp add: abs_phase)
  show ?thesis
  proof (cases "approves E req")
    case True
    then have "abs_saga (s\<lparr>sw := w', sApproved := sApproved s \<union> {wrID wr}\<rparr>)
        = (abs_saga s)\<lparr>phases := (phases (abs_saga s))(wrID wr \<mapsto> Approved), grants := insert (wrID wr) (grants (abs_saga s))\<rparr>"
      using c by (auto simp: abs_saga_def fun_eq_iff)
    then show ?thesis using spec_step.open_granted [OF none] True c(1) by simp
  next
    case False
    then have "abs_saga (s\<lparr>sw := w'\<rparr>) = (abs_saga s)\<lparr>phases := (phases (abs_saga s))(wrID wr \<mapsto> Dead)\<rparr>"
      using c by (auto simp: abs_saga_def fun_eq_iff)
    then show ?thesis using spec_step.open_denied [OF none] False c(1) by simp
  qed
qed

lemma sim_broadcast:
  assumes "Broadcast E i (sw s) = (u, w')"
  shows "spec_step (abs_saga s) (abs_saga (s\<lparr>sw := w', sSubmitted := sSubmitted s @ (if gateway_called i (sw s) then [i] else [])\<rparr>))"
proof (cases "gateway_called i (sw s)")
  case False
  then show ?thesis using Broadcast_touch [OF assms] spec_step.idle [of "abs_saga s"] by (simp add: abs_saga_def)
next
  case True
  then obtain st where st: "wstate (sw s) i = Some WithdrawalStateSigned" "wr_touch i (\<lambda>_. st) (sw s) w'"
    "phase_of st = Sent \<or> phase_of st = Dead"
    using Broadcast_touch [OF assms] by (metis phase_of_simps(3,5))
  have "abs_saga (s\<lparr>sw := w', sSubmitted := sSubmitted s @ [i]\<rparr>)
      = (abs_saga s)\<lparr>phases := (phases (abs_saga s))(i \<mapsto> phase_of st), submissions := submissions (abs_saga s) @ [i]\<rparr>"
    using abs_touch [OF st(2,1)] by (simp add: abs_saga_def)
  then show ?thesis using spec_step.send [OF _ st(3), of "abs_saga s" i] st(1) True by (simp add: abs_phase)
qed

lemma saga_sim: "saga_step s t \<Longrightarrow> spec_step (abs_saga s) (abs_saga t)"
proof (induction rule: saga_step.induct)
  case (create E req s r w')
  then show ?case by (rule sim_create)
next
  case (sign E i s u w')
  note t = ConstructAndSign_touch [OF sign]
  show ?case
    using t abs_same [OF touch_id_wstate] abs_touch
      spec_step.prepare [of "abs_saga s" i] spec_step.kill [of "abs_saga s" i] spec_step.idle [of "abs_saga s"]
    by (force simp: abs_phase)
next
  case (broadcast E i s u w')
  then show ?case by (rule sim_broadcast)
next
  case (confirm E i h s u w')
  show ?case
    using Confirm_touch [OF confirm] abs_same abs_touch spec_step.settle [of "abs_saga s" i] spec_step.idle [of "abs_saga s"]
    by (force simp: abs_phase)
next
  case (fail E i reason s u w')
  show ?case
    using Fail_touch [OF fail] abs_same abs_touch spec_step.kill [of "abs_saga s" i] spec_step.idle [of "abs_saga s"]
    by (force simp: abs_phase)
next
  case (reorg i ops s u w')
  show ?case
    using OnReorg_touch [OF reorg] abs_same [OF touch_id_wstate] abs_touch
      spec_step.unsettle [of "abs_saga s" i] spec_step.idle [of "abs_saga s"]
    by (force simp: abs_phase)
next
  case (other w' s)
  then show ?case using abs_same [OF wstate_frame] spec_step.idle by simp
qed

interpretation saga_impl: simulated_inv saga_init saga_step spec_init spec_step abs_saga spec_inv
proof unfold_locales
  show "spec_init (abs_saga s)" if "saga_init s" for s
    using that by (simp add: saga_init_def spec_init_def abs_saga_def wstate_def)
qed (rule saga_sim)

section \<open>A withdrawal from an EVM wallet\<close>

text \<open>What the signer answers: a header byte from 27 to 34, then two 32-byte numbers.\<close>

definition mpc_signature :: "bytes \<Rightarrow> bool" where
  "mpc_signature sig = (length sig = 65 \<and> 27 \<le> hd sig \<and> hd sig \<le> 34)"

definition evm_payload :: "txlib \<Rightarrow> bytes \<Rightarrow> int \<Rightarrow> int \<Rightarrow> bytes" where
  "evm_payload T to amt n = keccak256 T (evmEncodeList (evm_request_fields to amt n @ [be_bytes 1, [], []]))"

lemma evm_assembles:
  assumes "parseEVMAddress (wrToAddress wr) = Inr to" and "big_SetString (wrAmount wr) = Some amt"
    and "0 \<le> n" and "n < 2 ^ 63" and "length (wrAmount wr) \<le> 2 ^ 32" and "mpc_signature sig"
  obtains u bs rid where "buildEVMUnsignedTx T wl wr n = Inr u" "utAssemble u sig = Inr bs"
    "utPayload u = evm_payload T to amt n" "rid \<in> {0..3}" "uint (hd sig) \<in> {27 + rid, 31 + rid}"
    "rlp_list bs = Some (evm_request_fields to amt n @ evm_sig_fields sig rid)" "bs \<noteq> []"
proof -
  obtain u where u: "buildEVMUnsignedTx T wl wr n = Inr u"
    using assms(1,2) by (simp add: buildEVMUnsignedTx_def Let_def)
  obtain rsv where "evmSigFromMPC sig EVMChainID = Inr rsv"
    using assms(6) by (auto simp: evmSigFromMPC_def mpc_signature_def Let_def not_less)
  then obtain bs where bs: "utAssemble u sig = Inr bs"
    using u assms(1,2) by (cases rsv) (auto simp: buildEVMUnsignedTx_def Let_def)
  obtain rid where rid: "rid \<in> {0..3}" "uint (hd sig) \<in> {27 + rid, 31 + rid}" "utPayload u = evm_payload T to amt n"
    and enc: "bs = evmEncodeList (evm_request_fields to amt n @ evm_sig_fields sig rid)"
    "evm_small (evm_request_fields to amt n @ evm_sig_fields sig rid)"
    using evm_assembled [OF u assms(3-5) bs] assms(1,2) by (auto simp: evm_payload_def)
  have dec: "rlp_list bs = Some (evm_request_fields to amt n @ evm_sig_fields sig rid)"
    using evm_list_decode [OF enc(2)] enc(1) by simp
  then have "bs \<noteq> []" by (auto simp: rlp_list_def)
  then show thesis using that [OF u bs rid(3,1,2) dec] by simp
qed

lemma reserve_evm:
  assumes "GetWithdrawal i (db w) = Inr wr" and "IsEVM (wChain wl)" and "lock_free (wrWalletID wr) (wChain wl) w"
  obtains L where "map_of L = map_of (locks w)" "reserve_resources E wr wl i w = (Inr (pending_of (wrWalletID wr) (wChain wl) w, []),
     w\<lparr>nid := Suc (nid w), locks := L, db := (snd (IncrementPendingNonce (now w) (wrWalletID wr) (wChain wl) (db w)))
       \<lparr>withdrawals := AList.map_entry i (\<lambda>x. x\<lparr>wrNonceValue := Some (pending_of (wrWalletID wr) (wChain wl) w), wrUpdatedAt := now w\<rparr>)
          (withdrawals (db w))\<rparr>\<rparr>)"
proof -
  obtain L where L: "ReserveNonce (sOthers E) (wrWalletID wr) (wChain wl) w = (Inr (pending_of (wrWalletID wr) (wChain wl) w),
      w\<lparr>nid := Suc (nid w), locks := L, db := snd (IncrementPendingNonce (now w) (wrWalletID wr) (wChain wl) (db w))\<rparr>)"
    "map_of L = map_of (locks w)"
    using reserve_loop_free [OF assms(3), of 49 "sOthers E"] by (auto simp: ReserveNonce_def numeral_eq_Suc)
  moreover have "withdrawals (snd (IncrementPendingNonce (now w) (wrWalletID wr) (wChain wl) (db w))) = withdrawals (db w)"
    by (simp add: IncrementPendingNonce_def Let_def)
  moreover obtain row where "map_of (withdrawals (db w)) i = Some row"
    using assms(1) by (auto simp: GetWithdrawal_def split: option.splits)
  ultimately show thesis
    using assms(2) by (intro that [OF L(2)]) (simp add: reserve_resources_def UpdateWithdrawalNonce_def on_db_def)
qed

text \<open>The hypotheses under which nothing but the services decides what happens to withdrawal \<open>i\<close>.\<close>

definition evm_ready :: "saga_env \<Rightarrow> uuid \<Rightarrow> WithdrawalRequest \<Rightarrow> Wallet \<Rightarrow> string \<Rightarrow> bytes \<Rightarrow> int \<Rightarrow> int \<Rightarrow> world \<Rightarrow> bool" where
  "evm_ready E i wr wl keyID to amt n w =
     (GetWithdrawal i (db w) = Inr wr \<and> wrState wr = WithdrawalStateWhitelisted
      \<and> GetWallet (wrWalletID wr) (db w) = Inr wl \<and> IsEVM (wChain wl)
      \<and> (case sKeyLookup E of None \<Rightarrow> Inr [] | Some f \<Rightarrow> f (wrWalletID wr) w) = Inr keyID
      \<and> lock_free (wrWalletID wr) (wChain wl) w \<and> pending_of (wrWalletID wr) (wChain wl) w = n \<and> 0 \<le> n \<and> n < max_nonce
      \<and> parseEVMAddress (wrToAddress wr) = Inr to \<and> big_SetString (wrAmount wr) = Some amt \<and> length (wrAmount wr) \<le> 2 ^ 32)"

lemma evm_opts: "IsEVM (wChain wl) \<Longrightarrow> \<exists>opts. resolveBuildOpts E wl w = Inr opts"
  by (cases "sBTCKeys E"; cases "sSolanaKeys E") (auto simp: resolveBuildOpts_def IsEVM_def Let_def)

text \<open>Signing with a nonce in hand. The row may be in any state by now; it ends signed.\<close>

lemma sign_with_nonce:
  assumes row: "map_of (withdrawals (db w)) i = Some row" and evm: "IsEVM (wChain wl)"
    and req: "parseEVMAddress (wrToAddress wr) = Inr to" "big_SetString (wrAmount wr) = Some amt" "length (wrAmount wr) \<le> 2 ^ 32"
    and n: "0 \<le> n" "n \<le> max_nonce"
    and signed: "sSigner E \<lparr>sgKeyID = keyID, sgTxBytes = evm_payload (sT E) to amt n, sgWalletID = wrWalletID wr\<rparr> = Inr sig"
    and sig: "mpc_signature sig"
  obtains w' bs rid where "sign_reserved E wr wl keyID i n [] w = (Inr (), w')"
    "rid \<in> {0..3}" "uint (hd sig) \<in> {27 + rid, 31 + rid}"
    "rlp_list bs = Some (evm_request_fields to amt n @ evm_sig_fields sig rid)" "bs \<noteq> []"
    "map_of (withdrawals (db w')) i = Some (row\<lparr>wrState := WithdrawalStateSigned, wrSignedTxBytes := bs, wrUpdatedAt := now w\<rparr>)"
    "wallets (db w') = wallets (db w)" "nonces (db w') = nonces (db w)" "locks w' = locks w"
proof -
  obtain u bs rid where u: "buildEVMUnsignedTx (sT E) wl wr n = Inr u" "utAssemble u sig = Inr bs"
    "utPayload u = evm_payload (sT E) to amt n" and rid: "rid \<in> {0..3}" "uint (hd sig) \<in> {27 + rid, 31 + rid}"
    "rlp_list bs = Some (evm_request_fields to amt n @ evm_sig_fields sig rid)" "bs \<noteq> []"
    using evm_assembles [OF req(1,2) n(1) _ req(3) sig, of "sT E" wl] n(2) by auto
  obtain opts where opts: "resolveBuildOpts E wl w = Inr opts" using evm_opts [OF evm] by blast
  define w2 where "w2 = w\<lparr>db := (db w)\<lparr>withdrawals := AList.map_entry i (set_withdrawal_state (now w) WithdrawalStateSigned [] [] [])
      (AList.map_entry i (\<lambda>x. x\<lparr>wrSignedTxBytes := bs, wrUpdatedAt := now w\<rparr>) (withdrawals (db w)))\<rparr>\<rparr>"
  have sgn: "sign_reserved E wr wl keyID i n [] w = (Inr (), emit (sEmitter E)
      (withdrawal_event ''withdrawal.signed'' (wrWalletID wr) [(''id'', PStr i), (''nonce'', PInt n), (''utxos'', PStrs []),
        (''signed_bytes_len'', PInt (int (length bs)))]) w2)"
    using opts u signed evm row
    by (simp add: sign_reserved_def BuildUnsignedTx_def w2_def on_db_def UpdateWithdrawalSignedTx_def UpdateWithdrawalState_def)
  show thesis
    by (rule that [OF sgn rid]) (simp_all add: frame_simps w2_def row set_withdrawal_state_def)
qed

lemma nonce_frame:
  "nonces (db w') = nonces (db w) \<Longrightarrow> nonce_Get wid ch w' = nonce_Get wid ch w"
  by (simp add: nonce_Get_def GetNonce_def)

lemma sign_evm:
  assumes ready: "evm_ready E i wr wl keyID to amt n w"
    and signed: "sSigner E \<lparr>sgKeyID = keyID, sgTxBytes = evm_payload (sT E) to amt n, sgWalletID = wrWalletID wr\<rparr> = Inr sig"
    and sig: "mpc_signature sig"
  obtains w' bs rid wr' where "ConstructAndSign E i w = (Inr (), w')"
    "rid \<in> {0..3}" "uint (hd sig) \<in> {27 + rid, 31 + rid}"
    "rlp_list bs = Some (evm_request_fields to amt n @ evm_sig_fields sig rid)" "bs \<noteq> []"
    "GetWithdrawal i (db w') = Inr wr'" "wrState wr' = WithdrawalStateSigned" "wrSignedTxBytes wr' = bs"
    "wrNonceValue wr' = Some n" "wrWalletID wr' = wrWalletID wr"
    "GetWallet (wrWalletID wr) (db w') = Inr wl" "lock_free (wrWalletID wr) (wChain wl) w'"
    "pending_of (wrWalletID wr) (wChain wl) w' = n + 1"
    "broadcast_of (wrWalletID wr) (wChain wl) w' = broadcast_of (wrWalletID wr) (wChain wl) w"
proof -
  let ?wid = "wrWalletID wr" and ?ch = "wChain wl"
  have r: "GetWithdrawal i (db w) = Inr wr" "wrState wr = WithdrawalStateWhitelisted" "GetWallet ?wid (db w) = Inr wl"
    "IsEVM ?ch" "(case sKeyLookup E of None \<Rightarrow> Inr [] | Some f \<Rightarrow> f ?wid w) = Inr keyID" "lock_free ?wid ?ch w"
    "pending_of ?wid ?ch w = n" "0 \<le> n" "n < max_nonce" "parseEVMAddress (wrToAddress wr) = Inr to"
    "big_SetString (wrAmount wr) = Some amt" "length (wrAmount wr) \<le> 2 ^ 32"
    using ready by (simp_all add: evm_ready_def)
  obtain L where L: "map_of L = map_of (locks w)" and res: "reserve_resources E wr wl i w = (Inr (n, []),
     w\<lparr>nid := Suc (nid w), locks := L, db := (snd (IncrementPendingNonce (now w) ?wid ?ch (db w)))
       \<lparr>withdrawals := AList.map_entry i (\<lambda>x. x\<lparr>wrNonceValue := Some n, wrUpdatedAt := now w\<rparr>) (withdrawals (db w))\<rparr>\<rparr>)"
    using reserve_evm [OF r(1,4,6), of E] unfolding r(7) by blast
  define w1 where "w1 = w\<lparr>nid := Suc (nid w), locks := L, db := (snd (IncrementPendingNonce (now w) ?wid ?ch (db w)))
       \<lparr>withdrawals := AList.map_entry i (\<lambda>x. x\<lparr>wrNonceValue := Some n, wrUpdatedAt := now w\<rparr>) (withdrawals (db w))\<rparr>\<rparr>"
  have row: "map_of (withdrawals (db w)) i = Some wr" using r(1) by (simp add: GetWithdrawal_def split: option.splits)
  then have row1: "map_of (withdrawals (db w1)) i = Some (wr\<lparr>wrNonceValue := Some n, wrUpdatedAt := now w\<rparr>)" by (simp add: w1_def)
  obtain w' bs rid where sgn: "sign_reserved E wr wl keyID i n [] w1 = (Inr (), w')"
    and rid: "rid \<in> {0..3}" "uint (hd sig) \<in> {27 + rid, 31 + rid}"
      "rlp_list bs = Some (evm_request_fields to amt n @ evm_sig_fields sig rid)" "bs \<noteq> []"
    and w': "map_of (withdrawals (db w')) i = Some (wr\<lparr>wrNonceValue := Some n, wrUpdatedAt := now w,
        wrState := WithdrawalStateSigned, wrSignedTxBytes := bs, wrUpdatedAt := now w1\<rparr>)"
      "wallets (db w') = wallets (db w1)" "nonces (db w') = nonces (db w1)" "locks w' = locks w1"
    by (rule sign_with_nonce [OF row1 r(4,10,11,12,8) less_imp_le [OF r(9)] signed sig])
  have cs: "ConstructAndSign E i w = (Inr (), w')"
    using r(1-5) res sgn by (simp add: ConstructAndSign_def w1_def)
  have nonce: "nonce_Get ?wid ?ch w' = nonce_Get ?wid ?ch w1" using w'(3) by (rule nonce_frame)
  show thesis
    by (rule that [OF cs rid, of "wr\<lparr>wrNonceValue := Some n, wrState := WithdrawalStateSigned, wrSignedTxBytes := bs, wrUpdatedAt := now w1\<rparr>"];
        use r row L w' in \<open>simp add: GetWithdrawal_def GetWallet_def lock_free_def nonce w1_def
        nonce_Get_def GetNonce_def IncrementPendingNonce_def Let_def\<close>)
qed

lemma broadcast_evm:
  assumes "GetWithdrawal i (db w) = Inr wr" "wrState wr = WithdrawalStateSigned" "GetWallet (wrWalletID wr) (db w) = Inr wl"
    "IsEVM (wChain wl)" "wrNonceValue wr = Some n" "0 \<le> n" "n < max_nonce" "wrSignedTxBytes wr \<noteq> []"
    and gw: "sGateway E \<lparr>brChain = wChain wl, brTxBytes = wrSignedTxBytes wr, brWalletID = wrWalletID wr\<rparr> = Inr h"
  obtains w' where "Broadcast E i w = (Inr (), w')" "gateway_called i w"
    "GetWithdrawal i (db w') = Inr (wr\<lparr>wrState := WithdrawalStateBroadcast,
        wrTxHash := (if h = [] then wrTxHash wr else h), wrUpdatedAt := now w\<rparr>)"
    "wallets (db w') = wallets (db w)" "locks w' = locks w"
    "pending_of (wrWalletID wr) (wChain wl) w' = pending_of (wrWalletID wr) (wChain wl) w"
    "broadcast_of (wrWalletID wr) (wChain wl) w' = max (broadcast_of (wrWalletID wr) (wChain wl) w) (n + 1)"
proof -
  let ?wid = "wrWalletID wr" and ?ch = "wChain wl"
  have row: "map_of (withdrawals (db w)) i = Some wr" using assms(1) by (simp add: GetWithdrawal_def split: option.splits)
  obtain w1 where w1: "snd (CommitNonce ?wid ?ch n w) = w1" by blast
  have c: "withdrawals (db w1) = withdrawals (db w)" "wallets (db w1) = wallets (db w)" "locks w1 = locks w" "now w1 = now w"
    "pending_of ?wid ?ch w1 = pending_of ?wid ?ch w" "broadcast_of ?wid ?ch w1 = max (broadcast_of ?wid ?ch w) (n + 1)"
    using assms(6,7) unfolding w1 [symmetric] by (auto simp: nonce_op_defs max_def)
  obtain w2 where w2: "on_db (UpdateWithdrawalState (now w1) i WithdrawalStateBroadcast [] h []) w1 = (Inr (), w2)"
    "map_of (withdrawals (db w2)) i = Some (set_withdrawal_state (now w1) WithdrawalStateBroadcast [] h [] wr)"
    "wallets (db w2) = wallets (db w1)" "nonces (db w2) = nonces (db w1)" "locks w2 = locks w1"
    using row c(1) by (simp add: UpdateWithdrawalState_def on_db_def)
  have "\<not> wChain wl = ChainBitcoin" using assms(4) by (auto simp: IsEVM_def)
  then have b: "Broadcast E i w = (Inr (), emit (sEmitter E) (withdrawal_event ''withdrawal.broadcast'' ?wid
      [(''id'', PStr i), (''tx_hash'', PStr h)]) w2)"
    using assms w1 w2(1) by (simp add: Broadcast_def record_broadcast_def)
  show thesis
    by (rule that [OF b]; use assms(1-3,8) w2 c in \<open>simp add: gateway_called_def frame_simps GetWithdrawal_def
        set_withdrawal_state_def nonce_Get_def GetNonce_def\<close>)
qed

section \<open>A sample run\<close>

definition sample_env :: saga_env where
  "sample_env = \<lparr>sD = frac_lib, sT = sample_txlib,
     sPolicy = (\<lambda>_. (Some \<lparr>cdApproved = True, cdDecisionID = ''d'', cdReason = []\<rparr>, None)),
     sSigner = (\<lambda>_. Inr sample_sig), sGateway = (\<lambda>_. Inr ''0xab''), sKeyLookup = None, sBTCKeys = None,
     sSolanaKeys = None, sSolanaBlockhash = None, sEmitter = NilEmitter, sOthers = (\<lambda>x. x), sOthersDB = (\<lambda>x. x)\<rparr>"

definition sample_payout :: WithdrawalCreate where
  "sample_payout = \<lparr>wcWalletID = ''w'', wcToAddress = sample_to, wcAsset = ''ETH'', wcAmount = ''5''\<rparr>"

definition payout_start :: world where
  "payout_start = start_world\<lparr>db := New\<lparr>wallets := [(''w'', sample_wallet ChainBase)]\<rparr>\<rparr>"

definition payout_created :: world where
  "payout_created = snd (Withdrawal_Create sample_env sample_payout payout_start)"

abbreviation payout_row :: WithdrawalRequest where
  "payout_row \<equiv> (new_withdrawal sample_payout (show_nat 0) 1)\<lparr>wrState := WithdrawalStateWhitelisted, wrPolicyDecisionID := ''d''\<rparr>"

lemma payout_created_eq:
  "Withdrawal_Create sample_env sample_payout payout_start = (Inr payout_row, payout_created)"
  "wallets (db payout_created) = [(''w'', sample_wallet ChainBase)]"
  "withdrawals (db payout_created) = [(show_nat 0, payout_row)]"
  "nonces (db payout_created) = []" "locks payout_created = []" "now payout_created = 1"
  by (simp_all add: payout_created_def payout_start_def Withdrawal_Create_def sample_env_def sample_payout_def GetWallet_def
      sample_wallet_def NewUUID_def Let_def new_withdrawal_def on_db_def CreateWithdrawal_def New_def get_bool_def IsZero_def
      emit_def apply_verdict_def UpdateWithdrawalState_def set_withdrawal_state_def)

lemma sample_env_simps [simp]:
  "sT sample_env = sample_txlib" "sSigner sample_env rq = Inr sample_sig" "sGateway sample_env bq = Inr ''0xab''"
  "sKeyLookup sample_env = None" "quiet sample_env" "approves sample_env req" "mpc_signature sample_sig"
  by (simp_all add: sample_env_def quiet_def approves_def mpc_signature_def)

lemma payout_ready:
  "evm_ready sample_env (show_nat 0) payout_row (sample_wallet ChainBase) [] (replicate 20 10) 5 0 payout_created"
  by (simp add: evm_ready_def GetWithdrawal_def GetWallet_def payout_created_eq new_withdrawal_def sample_payout_def
      sample_to_parse sample_amounts lock_free_def nonce_Get_def GetNonce_def zero_nonce_def sample_wallet_def IsEVM_def)

definition payout_signed :: world where
  "payout_signed = snd (ConstructAndSign sample_env (show_nat 0) payout_created)"

definition payout_sent :: world where
  "payout_sent = snd (Broadcast sample_env (show_nat 0) payout_signed)"

lemma payout_signed_eq:
  "ConstructAndSign sample_env (show_nat 0) payout_created = (Inr (), payout_signed)"
  "gateway_called (show_nat 0) payout_signed"
  "Broadcast sample_env (show_nat 0) payout_signed = (Inr (), payout_sent)"
  "\<exists>wr. GetWithdrawal (show_nat 0) (db payout_sent) = Inr wr \<and> wrState wr = WithdrawalStateBroadcast
     \<and> wrWalletID wr = ''w'' \<and> wrNonceValue wr = Some 0"
  "GetWallet ''w'' (db payout_sent) = Inr (sample_wallet ChainBase)" "lock_free ''w'' ChainBase payout_sent"
  "pending_of ''w'' ChainBase payout_sent = 1"
proof -
  have wid: "wrWalletID payout_row = ''w''" and ch: "wChain (sample_wallet ChainBase) = ChainBase"
    by (simp_all add: new_withdrawal_def sample_payout_def sample_wallet_def)
  obtain w' bs rid wr' where s: "ConstructAndSign sample_env (show_nat 0) payout_created = (Inr (), w')" "bs \<noteq> []"
    "GetWithdrawal (show_nat 0) (db w') = Inr wr'" "wrState wr' = WithdrawalStateSigned" "wrSignedTxBytes wr' = bs"
    "wrNonceValue wr' = Some 0" "wrWalletID wr' = ''w''" "GetWallet ''w'' (db w') = Inr (sample_wallet ChainBase)"
    "lock_free ''w'' ChainBase w'" "pending_of ''w'' ChainBase w' = 1"
    by (rule sign_evm [OF payout_ready, of sample_sig, unfolded wid ch]) simp_all
  have w': "w' = payout_signed" by (simp add: payout_signed_def s)
  have evm: "IsEVM (wChain (sample_wallet ChainBase))" by (simp add: ch IsEVM_def)
  obtain w2 where b: "Broadcast sample_env (show_nat 0) w' = (Inr (), w2)" "gateway_called (show_nat 0) w'"
    "GetWithdrawal (show_nat 0) (db w2) = Inr (wr'\<lparr>wrState := WithdrawalStateBroadcast,
        wrTxHash := (if ''0xab'' = [] then wrTxHash wr' else ''0xab''), wrUpdatedAt := now w'\<rparr>)"
    "wallets (db w2) = wallets (db w')" "locks w2 = locks w'" "pending_of (wrWalletID wr') (wChain (sample_wallet ChainBase)) w2
      = pending_of (wrWalletID wr') (wChain (sample_wallet ChainBase)) w'"
    by (rule broadcast_evm [OF s(3,4) _ evm s(6), of sample_env "''0xab''"]) (use s in simp_all)
  have w2: "w2 = payout_sent" using b(1) by (simp add: payout_sent_def w')
  show "ConstructAndSign sample_env (show_nat 0) payout_created = (Inr (), payout_signed)"
    "gateway_called (show_nat 0) payout_signed" "Broadcast sample_env (show_nat 0) payout_signed = (Inr (), payout_sent)"
    using s(1) b(1,2) by (simp_all add: w' w2)
  show "\<exists>wr. GetWithdrawal (show_nat 0) (db payout_sent) = Inr wr \<and> wrState wr = WithdrawalStateBroadcast
     \<and> wrWalletID wr = ''w'' \<and> wrNonceValue wr = Some 0" using b(3) s(6,7) by (simp add: w2)
  show "GetWallet ''w'' (db payout_sent) = Inr (sample_wallet ChainBase)" "lock_free ''w'' ChainBase payout_sent"
    "pending_of ''w'' ChainBase payout_sent = 1"
    using b(4-6) s(7-10) by (simp_all add: w2 ch GetWallet_def lock_free_def)
qed

lemma payout_sent_state: "wstate payout_sent (show_nat 0) = Some WithdrawalStateBroadcast"
  using payout_signed_eq(4) GetWithdrawal_state by auto

abbreviation payout_saga :: saga where
  "payout_saga \<equiv> \<lparr>sw = payout_sent, sSubmitted = [show_nat 0], sApproved = {show_nat 0}\<rparr>"

lemma payout_reached: "reaches saga_init saga_step payout_saga"
proof -
  define s0 s1 s2 where "s0 = \<lparr>sw = payout_start, sSubmitted = [], sApproved = {}\<rparr>"
    and "s1 = \<lparr>sw = payout_created, sSubmitted = [], sApproved = {show_nat 0}\<rparr>"
    and "s2 = \<lparr>sw = payout_signed, sSubmitted = [], sApproved = {show_nat 0}\<rparr>"
  have "reaches saga_init saga_step s0" by (rule reaches_init) (simp add: saga_init_def payout_start_def New_def s0_def)
  moreover have "saga_step s0 s1"
    using saga_step.create [of sample_env sample_payout s0 "Inr payout_row" payout_created] payout_created_eq(1)
    by (simp add: s0_def s1_def new_withdrawal_def)
  moreover have "saga_step s1 s2"
    using saga_step.sign [of sample_env "show_nat 0" s1 "Inr ()" payout_signed] payout_signed_eq(1)
    by (simp add: s1_def s2_def)
  moreover have "saga_step s2 payout_saga"
    using saga_step.broadcast [of sample_env "show_nat 0" s2 "Inr ()" payout_sent] payout_signed_eq(2,3)
    by (simp add: s2_def)
  ultimately show ?thesis by (blast intro: reaches_step)
qed

section \<open>Properties\<close>

lemma Dead_iff: "phase_of st = Dead \<longleftrightarrow> st = WithdrawalStateFailed"
  by (auto simp: phase_of_def)

lemma spec_dead_stays: "spec_step s t \<Longrightarrow> phases s i = Some Dead \<Longrightarrow> phases t i = Some Dead"
  by (cases rule: spec_step.cases) auto





text \<open>
  A failed withdrawal stays failed. No sequence of calls of the saga takes a withdrawal out of
  the FAILED state.
\<close>

lemma failed_is_final:
  assumes "wstate (sw s) i = Some WithdrawalStateFailed" and "saga_step\<^sup>*\<^sup>* s t"
  shows "wstate (sw t) i = Some WithdrawalStateFailed"
  using assms(2,1)
proof (induction rule: rtranclp_induct)
  case (step t u)
  then have "phases (abs_saga u) i = Some Dead"
    using spec_dead_stays [OF saga_sim [OF step(2)], of i] by (simp add: abs_phase)
  then show ?case by (auto simp: abs_phase Dead_iff)
qed

text \<open>
  C7: a withdrawal from an EVM wallet is paid out as requested. Let it be approved, its address and
  amount well formed, its key found and the nonce lock free. If the signer signs the hash of exactly
  the requested transfer, and the gateway accepts exactly the transaction that decodes to this
  transfer and this signature, then \<open>ConstructAndSign\<close> and \<open>Broadcast\<close> both succeed: the
  withdrawal is broadcast with the gateway's hash and the wallet's pending nonce, that nonce is
  committed, and the next one is free.
\<close>

theorem evm_payout:
  assumes "evm_ready E i wr wl keyID to amt n w"
    and "sSigner E \<lparr>sgKeyID = keyID, sgTxBytes = evm_payload (sT E) to amt n, sgWalletID = wrWalletID wr\<rparr> = Inr sig"
    and "mpc_signature sig"
    and "\<forall>bs rid. uint (hd sig) \<in> {27 + rid, 31 + rid} \<longrightarrow>
           rlp_list bs = Some (evm_request_fields to amt n @ evm_sig_fields sig rid) \<longrightarrow>
           sGateway E \<lparr>brChain = wChain wl, brTxBytes = bs, brWalletID = wrWalletID wr\<rparr> = Inr h"
    and "h \<noteq> []"
  shows "\<exists>w1 w2 wr'. ConstructAndSign E i w = (Inr (), w1) \<and> Broadcast E i w1 = (Inr (), w2)
    \<and> GetWithdrawal i (db w2) = Inr wr' \<and> wrState wr' = WithdrawalStateBroadcast \<and> wrTxHash wr' = h
    \<and> wrNonceValue wr' = Some n
    \<and> pending_of (wrWalletID wr) (wChain wl) w2 = n + 1
    \<and> broadcast_of (wrWalletID wr) (wChain wl) w2 = max (broadcast_of (wrWalletID wr) (wChain wl) w) (n + 1)
    \<and> lock_free (wrWalletID wr) (wChain wl) w2"
proof -
  let ?wid = "wrWalletID wr" and ?ch = "wChain wl"
  obtain w1 bs rid wr' where s: "ConstructAndSign E i w = (Inr (), w1)" "uint (hd sig) \<in> {27 + rid, 31 + rid}"
    "rlp_list bs = Some (evm_request_fields to amt n @ evm_sig_fields sig rid)" "bs \<noteq> []"
    and row: "GetWithdrawal i (db w1) = Inr wr'" "wrState wr' = WithdrawalStateSigned" "wrSignedTxBytes wr' = bs"
    "wrNonceValue wr' = Some n" "wrWalletID wr' = ?wid"
    and st: "GetWallet ?wid (db w1) = Inr wl" "lock_free ?wid ?ch w1" "pending_of ?wid ?ch w1 = n + 1"
    "broadcast_of ?wid ?ch w1 = broadcast_of ?wid ?ch w"
    using assms(1-3) by (rule sign_evm)
  have evm: "IsEVM ?ch" "0 \<le> n" "n < max_nonce" using assms(1) by (simp_all add: evm_ready_def)
  have gw: "sGateway E \<lparr>brChain = ?ch, brTxBytes = wrSignedTxBytes wr', brWalletID = wrWalletID wr'\<rparr> = Inr h"
    using assms(4) [rule_format, OF s(2,3)] unfolding row(3,5) .
  obtain w2 where b: "Broadcast E i w1 = (Inr (), w2)" "GetWithdrawal i (db w2) = Inr (wr'\<lparr>wrState := WithdrawalStateBroadcast,
        wrTxHash := (if h = [] then wrTxHash wr' else h), wrUpdatedAt := now w1\<rparr>)" "locks w2 = locks w1"
    "pending_of (wrWalletID wr') ?ch w2 = pending_of (wrWalletID wr') ?ch w1"
    "broadcast_of (wrWalletID wr') ?ch w2 = max (broadcast_of (wrWalletID wr') ?ch w1) (n + 1)"
    by (rule broadcast_evm [OF row(1,2) _ evm(1) row(4) evm(2,3) _ gw]) (use s row st in auto)
  show ?thesis
    by (intro exI [of _ w1] exI [of _ w2] exI conjI, rule s(1), rule b(1), rule b(2)) (use assms(5) row st b in \<open>auto simp: lock_free_def\<close>)
qed

theorem evm_payout_witness:
  "\<exists>w1 w2. ConstructAndSign sample_env (show_nat 0) payout_created = (Inr (), w1) \<and> Broadcast sample_env (show_nat 0) w1 = (Inr (), w2)
     \<and> pending_of ''w'' ChainBase w2 = 1 \<and> broadcast_of ''w'' ChainBase w2 = 1"
proof -
  have "wrWalletID payout_row = ''w''" "wChain (sample_wallet ChainBase) = ChainBase" "broadcast_of ''w'' ChainBase payout_created = 0"
    by (simp_all add: new_withdrawal_def sample_payout_def sample_wallet_def nonce_Get_def GetNonce_def payout_created_eq zero_nonce_def)
  with evm_payout [OF payout_ready, of sample_sig "''0xab''"] show ?thesis by auto
qed

text \<open>What \<open>rollback\<close> does to the nonce of an EVM account, and to everything else.\<close>

lemma rollback_nonce:
  assumes "n < max_nonce"
  shows "pending_of (wID wl) (wChain wl) (rollback wl n [] w) =
      (if 0 \<le> n \<and> IsEVM (wChain wl) \<and> pending_of (wID wl) (wChain wl) w = n + 1 then n else pending_of (wID wl) (wChain wl) w)"
    and "broadcast_of (wID wl) (wChain wl) (rollback wl n [] w) = broadcast_of (wID wl) (wChain wl) w"
  using assms by (auto simp: rollback_def nonce_op_defs split: option.splits)

lemma rollback_frame:
  "utxos (db (rollback wl n [] w)) = utxos (db w)" "locks (rollback wl n [] w) = locks w" "now (rollback wl n [] w) = now w"
  "wallets (db (rollback wl n [] w)) = wallets (db w)"
  by (auto simp: rollback_def nonce_op_defs split: option.splits)

lemma fail_row:
  assumes "map_of (withdrawals (db w)) i = Some row"
  obtains w' where "on_db (UpdateWithdrawalState t i WithdrawalStateFailed reason [] []) w = (Inr (), w')"
    "wstate w' = (wstate w)(i \<mapsto> WithdrawalStateFailed)"
    "map_of (withdrawals (db w')) i = Some (set_withdrawal_state t WithdrawalStateFailed reason [] [] row)"
    "\<not> get_bool (inflightWithdrawals (db w')) (withdrawalDedupKey (wrWalletID row) (wrToAddress row) (wrAmount row) (wrAsset row))"
    "nonces (db w') = nonces (db w)" "utxos (db w') = utxos (db w)" "locks w' = locks w"
  using assms
  by (simp add: on_db_def UpdateWithdrawalState_def Let_def get_bool_def wstate_def fun_eq_iff set_withdrawal_state_def)

text \<open>
  C32: when the signer refuses, the withdrawal fails and leaves nothing behind: the nonce it had
  reserved is the next one again, the lock is free, and the same withdrawal can be requested anew.
\<close>

theorem sign_failure_releases:
  assumes "evm_ready E i wr wl keyID to amt n w" and "wID wl = wrWalletID wr"
    and "sSigner E \<lparr>sgKeyID = keyID, sgTxBytes = evm_payload (sT E) to amt n, sgWalletID = wrWalletID wr\<rparr> = Inl e"
  shows "\<exists>w' wr'. ConstructAndSign E i w = (Inl (ErrWrap ''sign'' e), w')
    \<and> GetWithdrawal i (db w') = Inr wr' \<and> wrState wr' = WithdrawalStateFailed \<and> wrFailureReason wr' = ''sign_failed''
    \<and> pending_of (wrWalletID wr) (wChain wl) w' = n
    \<and> broadcast_of (wrWalletID wr) (wChain wl) w' = broadcast_of (wrWalletID wr) (wChain wl) w
    \<and> lock_free (wrWalletID wr) (wChain wl) w'
    \<and> \<not> get_bool (inflightWithdrawals (db w')) (withdrawalDedupKey (wrWalletID wr) (wrToAddress wr) (wrAmount wr) (wrAsset wr))"
proof -
  let ?wid = "wrWalletID wr" and ?ch = "wChain wl"
  have r: "GetWithdrawal i (db w) = Inr wr" "wrState wr = WithdrawalStateWhitelisted" "GetWallet ?wid (db w) = Inr wl"
    "IsEVM ?ch" "(case sKeyLookup E of None \<Rightarrow> Inr [] | Some f \<Rightarrow> f ?wid w) = Inr keyID" "lock_free ?wid ?ch w"
    "pending_of ?wid ?ch w = n" "0 \<le> n" "n < max_nonce" "parseEVMAddress (wrToAddress wr) = Inr to"
    "big_SetString (wrAmount wr) = Some amt" "length (wrAmount wr) \<le> 2 ^ 32"
    using assms(1) by (simp_all add: evm_ready_def)
  define w1 where "w1 = snd (reserve_resources E wr wl i w)"
  obtain L where L: "map_of L = map_of (locks w)" and res: "reserve_resources E wr wl i w = (Inr (n, []), w1)"
    and w1: "w1 = w\<lparr>nid := Suc (nid w), locks := L, db := (snd (IncrementPendingNonce (now w) ?wid ?ch (db w)))
       \<lparr>withdrawals := AList.map_entry i (\<lambda>x. x\<lparr>wrNonceValue := Some n, wrUpdatedAt := now w\<rparr>) (withdrawals (db w))\<rparr>\<rparr>"
    using reserve_evm [OF r(1,4,6), of E] unfolding r(7) w1_def by auto
  have pend: "pending_of ?wid ?ch w1 = n + 1" "broadcast_of ?wid ?ch w1 = broadcast_of ?wid ?ch w"
    using r(7-9) by (simp_all add: w1 nonce_Get_def GetNonce_def IncrementPendingNonce_def Let_def)
  have row: "map_of (withdrawals (db (rollback wl n [] w1))) i = Some (wr\<lparr>wrNonceValue := Some n, wrUpdatedAt := now w\<rparr>)"
    using r(1) by (simp add: frame_simps w1 GetWithdrawal_def split: option.splits)
  obtain w' where w': "on_db (UpdateWithdrawalState (now w1) i WithdrawalStateFailed ''sign_failed'' [] []) (rollback wl n [] w1) = (Inr (), w')"
    "map_of (withdrawals (db w')) i = Some (set_withdrawal_state (now w1) WithdrawalStateFailed ''sign_failed'' [] []
        (wr\<lparr>wrNonceValue := Some n, wrUpdatedAt := now w\<rparr>))"
    "\<not> get_bool (inflightWithdrawals (db w')) (withdrawalDedupKey ?wid (wrToAddress wr) (wrAmount wr) (wrAsset wr))"
    "nonces (db w') = nonces (db (rollback wl n [] w1))" "locks w' = locks (rollback wl n [] w1)"
    by (rule fail_row [OF row, of "now w1" "''sign_failed''"]) simp
  obtain u where u: "buildEVMUnsignedTx (sT E) wl wr n = Inr u" "utPayload u = evm_payload (sT E) to amt n"
    by (rule evm_assembles [OF r(10,11,8) _ r(12) sample_env_simps(7)]) (use r(9) in simp_all)
  obtain opts where opts: "resolveBuildOpts E wl w1 = Inr opts" using evm_opts [OF r(4)] by blast
  have "sign_reserved E wr wl keyID i n [] w1 = (Inl (ErrWrap ''sign'' e), w')"
    using opts u assms(3) r(4) w'(1) by (simp add: sign_reserved_def BuildUnsignedTx_def)
  then have cs: "ConstructAndSign E i w = (Inl (ErrWrap ''sign'' e), w')"
    using r(1-5) res by (simp add: ConstructAndSign_def)
  have "nonce_Get ?wid ?ch w' = nonce_Get ?wid ?ch (rollback wl n [] w1)" using w'(4) by (rule nonce_frame)
  then have "pending_of ?wid ?ch w' = n" "broadcast_of ?wid ?ch w' = broadcast_of ?wid ?ch w"
    using rollback_nonce [OF r(9), of wl w1] pend r(4,8) assms(2) by simp_all
  moreover have "lock_free ?wid ?ch w'" using r(6) L w'(5) by (simp add: lock_free_def rollback_frame w1)
  ultimately show ?thesis using cs w'(2,3) by (auto simp: GetWithdrawal_def set_withdrawal_state_def)
qed

theorem sign_failure_releases_witness:
  "\<exists>w'. ConstructAndSign (sample_env\<lparr>sSigner := (\<lambda>_. Inl ErrNoRows)\<rparr>) (show_nat 0) payout_created = (Inl (ErrWrap ''sign'' ErrNoRows), w')
     \<and> pending_of ''w'' ChainBase w' = 0"
proof -
  have "evm_ready (sample_env\<lparr>sSigner := (\<lambda>_. Inl ErrNoRows)\<rparr>) (show_nat 0) payout_row (sample_wallet ChainBase) [] (replicate 20 10) 5 0 payout_created"
    using payout_ready by (simp add: evm_ready_def)
  moreover have "wrWalletID payout_row = ''w''" "wChain (sample_wallet ChainBase) = ChainBase" "wID (sample_wallet ChainBase) = ''w''"
    by (simp_all add: new_withdrawal_def sample_payout_def sample_wallet_def)
  ultimately show ?thesis using sign_failure_releases by fastforce
qed

text \<open>
  \<open>Fail\<close> works in every state of the withdrawal, a broadcast one included, and gives its nonce
  back whenever that nonce is the wallet's last one. The coins a Bitcoin withdrawal had locked stay
  as they are.
\<close>

lemma Fail_effect:
  assumes "GetWithdrawal i (db w) = Inr wr" and "GetWallet (wrWalletID wr) (db w) = Inr wl" and "wID wl = wrWalletID wr"
    and "noncePtr wr < max_nonce"
  shows "\<exists>w'. Fail E i reason w = (Inr (), w') \<and> wstate w' = (wstate w)(i \<mapsto> WithdrawalStateFailed)
    \<and> utxos (db w') = utxos (db w)
    \<and> (\<forall>n. wrNonceValue wr = Some n \<and> 0 \<le> n \<and> IsEVM (wChain wl) \<and> pending_of (wrWalletID wr) (wChain wl) w = n + 1
          \<and> lock_free (wrWalletID wr) (wChain wl) w \<longrightarrow>
        (\<forall>others. fst (ReserveNonce others (wrWalletID wr) (wChain wl) w') = Inr n))"
proof -
  let ?wid = "wrWalletID wr" and ?ch = "wChain wl"
  define w1 where "w1 = rollback wl (noncePtr wr) [] w"
  have same: "withdrawals (db w1) = withdrawals (db w)" by (simp add: w1_def frame_simps)
  have row: "map_of (withdrawals (db w1)) i = Some wr"
    using assms(1) by (simp add: same GetWithdrawal_def split: option.splits)
  obtain w2 where w2: "on_db (UpdateWithdrawalState (now w1) i WithdrawalStateFailed reason [] []) w1 = (Inr (), w2)"
    "wstate w2 = (wstate w1)(i \<mapsto> WithdrawalStateFailed)" "nonces (db w2) = nonces (db w1)" "utxos (db w2) = utxos (db w1)"
    "locks w2 = locks w1"
    by (rule fail_row [OF row, of "now w1" reason])
  let ?w' = "emit (sEmitter E) (withdrawal_event ''withdrawal.failed'' ?wid [(''id'', PStr i), (''reason'', PStr reason)]) w2"
  have f: "Fail E i reason w = (Inr (), ?w')"
    using assms(1,2) w2(1) by (simp add: Fail_def Let_def w1_def [symmetric])
  have "wstate ?w' = (wstate w)(i \<mapsto> WithdrawalStateFailed)"
    using wstate_frame [of ?w' w2] wstate_frame [OF same] w2(2) by (simp add: frame_simps)
  moreover have "utxos (db ?w') = utxos (db w)" by (simp add: frame_simps w2(4) w1_def rollback_frame)
  moreover have "fst (ReserveNonce others ?wid ?ch ?w') = Inr n"
    if "wrNonceValue wr = Some n" "0 \<le> n" "IsEVM ?ch" "pending_of ?wid ?ch w = n + 1" "lock_free ?wid ?ch w" for n others
  proof -
    have "nonce_Get ?wid ?ch ?w' = nonce_Get ?wid ?ch w1" using w2(3) by (intro nonce_frame) (simp add: frame_simps)
    then have p: "pending_of ?wid ?ch ?w' = n"
      using rollback_nonce(1) [OF assms(4), of wl w] that assms(3) by (simp add: w1_def noncePtr_def)
    have "lock_free ?wid ?ch ?w'" using that(5) by (simp add: lock_free_def frame_simps w2(5) w1_def rollback_frame)
    then show ?thesis
      using ReserveNonce_free [of ?wid ?ch ?w' others] p that assms(4) by (simp add: noncePtr_def)
  qed
  ultimately show ?thesis using f by blast
qed

text \<open>
  C39: a confirmed withdrawal that a chain reorganisation undoes cannot be sent again: \<open>OnReorg\<close>
  makes it broadcast, and \<open>Broadcast\<close> refuses every withdrawal that is not signed. Nor is the entry
  put back that keeps the same request from being made a second time.
\<close>

theorem reorg_not_rebroadcastable:
  assumes "GetWithdrawal i (db w) = Inr wr" and "wrState wr = WithdrawalStateConfirmed" and "OnReorg i ops w = (Inr (), w')"
  shows "wstate w' i = Some WithdrawalStateBroadcast \<and> inflightWithdrawals (db w') = inflightWithdrawals (db w)
    \<and> Broadcast E i w' = (Inl (ErrText ''withdrawal not signed''), w')"
proof -
  obtain w1 where w1: "on_db (RestoreOnReorg (now w) ops) w = (Inr (), w1)"
    "on_db (UpdateWithdrawalState (now w1) i WithdrawalStateBroadcast ''reorg'' [] []) w1 = (Inr (), w')"
    using assms by (auto simp: OnReorg_def split: sum.splits prod.splits)
  have "db w1 = snd (RestoreUTXOs (now w) ops (db w))" using w1(1) by (auto simp: on_db_def RestoreOnReorg_def split: prod.splits)
  then have same: "withdrawals (db w1) = withdrawals (db w)" "inflightWithdrawals (db w1) = inflightWithdrawals (db w)"
    by (simp_all add: RestoreUTXOs_def split: prod.split)
  have "map_of (withdrawals (db w1)) i = Some wr" using assms(1) by (simp add: same GetWithdrawal_def split: option.splits)
  then have row: "map_of (withdrawals (db w')) i = Some (set_withdrawal_state (now w1) WithdrawalStateBroadcast ''reorg'' [] [] wr)"
    "inflightWithdrawals (db w') = inflightWithdrawals (db w)"
    using w1(2) same by (auto simp: on_db_def UpdateWithdrawalState_def)
  then show ?thesis
    by (simp add: wstate_def Broadcast_def GetWithdrawal_def set_withdrawal_state_def)
qed

theorem reorg_not_rebroadcastable_witness:
  "\<exists>w w'. wstate w (show_nat 0) = Some WithdrawalStateConfirmed \<and> OnReorg (show_nat 0) [] w = (Inr (), w')
     \<and> Broadcast sample_env (show_nat 0) w' = (Inl (ErrText ''withdrawal not signed''), w')"
proof -
  obtain w where c: "Confirm sample_env (show_nat 0) ''h'' payout_sent = (Inr (), w)" "wstate w (show_nat 0) = Some WithdrawalStateConfirmed"
  proof -
    obtain r w where rw: "Confirm sample_env (show_nat 0) ''h'' payout_sent = (r, w)" by fastforce
    moreover have "is_ok r"
      using rw payout_signed_eq(4) by (auto simp: Confirm_def on_db_def UpdateWithdrawalState_def GetWithdrawal_def split: option.splits)
    ultimately show ?thesis
      using that Confirm_touch [OF rw] payout_sent_state by (cases r) (auto simp: touch_wstate)
  qed
  obtain wr where wr: "GetWithdrawal (show_nat 0) (db w) = Inr wr" "wrState wr = WithdrawalStateConfirmed"
    using c(2) by (auto simp: wstate_def GetWithdrawal_def)
  obtain w' where o: "OnReorg (show_nat 0) [] w = (Inr (), w')"
    using wr by (auto simp: OnReorg_def RestoreOnReorg_def RestoreUTXOs_def on_db_def UpdateWithdrawalState_def GetWithdrawal_def Let_def
        split: option.splits)
  show ?thesis using reorg_not_rebroadcastable [OF wr o] c(2) o by blast
qed

text \<open>A reservation that found the lock taken and, after one sleep, free.\<close>

lemma reserve_after_wait:
  assumes "\<not> lock_free (wrWalletID wr) (wChain wl) w" and "lock_free (wrWalletID wr) (wChain wl) w2" and "sOthers E w = w2"
    and "IsEVM (wChain wl)" and "map_of (withdrawals (db w2)) i = Some row"
  obtains w3 where "reserve_resources E wr wl i w = (Inr (pending_of (wrWalletID wr) (wChain wl) w2, []), w3)"
    "map_of (withdrawals (db w3)) i = Some (row\<lparr>wrNonceValue := Some (pending_of (wrWalletID wr) (wChain wl) w2), wrUpdatedAt := now w2\<rparr>)"
    "wallets (db w3) = wallets (db w2)"
proof -
  let ?n = "pending_of (wrWalletID wr) (wChain wl) w2"
  obtain L where L: "reserve_loop 49 (sOthers E) (wrWalletID wr) (wChain wl) w2 = (Inr ?n,
      w2\<lparr>nid := Suc (nid w2), locks := L, db := snd (IncrementPendingNonce (now w2) (wrWalletID wr) (wChain wl) (db w2))\<rparr>)"
    using reserve_loop_free [OF assms(2), of 48 "sOthers E"] by (auto simp: numeral_eq_Suc)
  have "reserve_loop (Suc 49) (sOthers E) (wrWalletID wr) (wChain wl) w = reserve_loop 49 (sOthers E) (wrWalletID wr) (wChain wl) w2"
    using reserve_loop_held [OF assms(1), of 49 "sOthers E"] assms(3) by (simp only:)
  then have "ReserveNonce (sOthers E) (wrWalletID wr) (wChain wl) w = (Inr ?n,
      w2\<lparr>nid := Suc (nid w2), locks := L, db := snd (IncrementPendingNonce (now w2) (wrWalletID wr) (wChain wl) (db w2))\<rparr>)"
    using L by (simp add: ReserveNonce_def)
  then show thesis
    using assms(4,5) by (intro that [of "snd (reserve_resources E wr wl i w)"])
      (simp_all add: reserve_resources_def UpdateWithdrawalNonce_def on_db_def IncrementPendingNonce_def Let_def)
qed

text \<open>
  C37: two concurrent calls of \<open>ConstructAndSign\<close> for one withdrawal pay it out twice. The state of
  the withdrawal is checked before the call waits for the nonce lock and not again after. If the
  holder of the lock meanwhile signs and broadcasts the same withdrawal, the waiting call takes the
  next nonce and sets the withdrawal back to signed, and \<open>Broadcast\<close> hands a second transfer to
  the gateway.
\<close>

theorem concurrent_sign_broadcasts_twice:
  assumes "evm_ready E i wr wl keyID to amt n w0" and "n + 1 < max_nonce" and "sKeyLookup E = None"
    and "\<forall>rq. sSigner E rq = Inr sig" and "mpc_signature sig" and "\<forall>bq. sGateway E bq = Inr h"
    and "ConstructAndSign E i w0 = (r1, w1)" and "Broadcast E i w1 = (r2, w2)"
    and "ConstructAndSign (E\<lparr>sOthers := (\<lambda>_. w2)\<rparr>) i (w0\<lparr>locks := (nonce_lock (wrWalletID wr) (wChain wl), tok) # locks w0\<rparr>) = (r3, w3)"
  shows "gateway_called i w1 \<and> gateway_called i w3
    \<and> (\<exists>a b. GetWithdrawal i (db w1) = Inr a \<and> wrNonceValue a = Some n \<and> GetWithdrawal i (db w3) = Inr b \<and> wrNonceValue b = Some (n + 1))"
proof -
  let ?wid = "wrWalletID wr" and ?ch = "wChain wl" and ?E = "E\<lparr>sOthers := (\<lambda>_. w2)\<rparr>"
    and ?w = "w0\<lparr>locks := (nonce_lock (wrWalletID wr) (wChain wl), tok) # locks w0\<rparr>"
  have r: "GetWithdrawal i (db w0) = Inr wr" "wrState wr = WithdrawalStateWhitelisted" "GetWallet ?wid (db w0) = Inr wl"
    "IsEVM ?ch" "0 \<le> n" "n < max_nonce" "parseEVMAddress (wrToAddress wr) = Inr to" "big_SetString (wrAmount wr) = Some amt"
    "length (wrAmount wr) \<le> 2 ^ 32" "keyID = []"
    using assms(1,3) by (simp_all add: evm_ready_def)
  obtain a where a: "GetWithdrawal i (db w1) = Inr a" "wrState a = WithdrawalStateSigned" "wrSignedTxBytes a \<noteq> []"
    "wrNonceValue a = Some n" "wrWalletID a = ?wid" "GetWallet ?wid (db w1) = Inr wl" "lock_free ?wid ?ch w1" "pending_of ?wid ?ch w1 = n + 1"
    by (rule sign_evm [OF assms(1) assms(4) [rule_format] assms(5)]) (use assms(7) in auto)
  obtain w2' where b: "Broadcast E i w1 = (Inr (), w2')" "gateway_called i w1"
    "GetWithdrawal i (db w2') = Inr (a\<lparr>wrState := WithdrawalStateBroadcast,
        wrTxHash := (if h = [] then wrTxHash a else h), wrUpdatedAt := now w1\<rparr>)"
    "wallets (db w2') = wallets (db w1)" "locks w2' = locks w1" "pending_of (wrWalletID a) ?ch w2' = pending_of (wrWalletID a) ?ch w1"
    by (rule broadcast_evm [OF a(1,2) _ r(4) a(4) r(5,6) a(3) assms(6) [rule_format]]) (use a in auto)
  have w2: "w2' = w2" using b(1) assms(8) by simp
  have free2: "lock_free ?wid ?ch w2" "pending_of ?wid ?ch w2 = n + 1" using a b(5,6) by (simp_all add: lock_free_def flip: w2)
  obtain row where row: "map_of (withdrawals (db w2)) i = Some row" "wrWalletID row = ?wid"
    using b(3) a(5) by (auto simp: w2 GetWithdrawal_def split: option.splits)
  have held: "\<not> lock_free ?wid ?ch ?w" by (simp add: lock_free_def)
  obtain w4 where w4: "reserve_resources ?E wr wl i ?w = (Inr (n + 1, []), w4)"
    "map_of (withdrawals (db w4)) i = Some (row\<lparr>wrNonceValue := Some (n + 1), wrUpdatedAt := now w2\<rparr>)" "wallets (db w4) = wallets (db w2)"
    using reserve_after_wait [OF held free2(1) _ r(4) row(1), of ?E] unfolding free2(2) by auto
  obtain w5 bs where w5: "sign_reserved ?E wr wl [] i (n + 1) [] w4 = (Inr (), w5)" "bs \<noteq> []"
    "map_of (withdrawals (db w5)) i = Some (row\<lparr>wrNonceValue := Some (n + 1), wrUpdatedAt := now w2,
       wrState := WithdrawalStateSigned, wrSignedTxBytes := bs, wrUpdatedAt := now w4\<rparr>)" "wallets (db w5) = wallets (db w4)"
    by (rule sign_with_nonce [OF w4(2) r(4,7,8,9), of "n + 1" ?E "[]" sig]) (use r(5) assms(2,4,5) in simp_all)
  have "ConstructAndSign ?E i ?w = (Inr (), w5)"
    using r(1-3) assms(3) w4(1) w5(1) by (simp add: ConstructAndSign_def)
  then have "w5 = w3" using assms(9) by simp
  moreover have "GetWallet ?wid (db w5) = Inr wl" using a(6) b(4) w4(3) w5(4) by (simp add: GetWallet_def w2)
  ultimately show ?thesis using b(2) a(1,4) w5(2,3) row(2) by (auto simp: gateway_called_def GetWithdrawal_def)
qed

theorem concurrent_sign_broadcasts_twice_witness:
  "\<exists>w1 w2 w3. ConstructAndSign sample_env (show_nat 0) payout_created = (Inr (), w1) \<and> Broadcast sample_env (show_nat 0) w1 = (Inr (), w2)
     \<and> snd (ConstructAndSign (sample_env\<lparr>sOthers := (\<lambda>_. w2)\<rparr>) (show_nat 0)
          (payout_created\<lparr>locks := (nonce_lock ''w'' ChainBase, ''t'') # locks payout_created\<rparr>)) = w3
     \<and> gateway_called (show_nat 0) w1 \<and> gateway_called (show_nat 0) w3"
proof -
  have wl: "wrWalletID payout_row = ''w''" "wChain (sample_wallet ChainBase) = ChainBase"
    by (simp_all add: new_withdrawal_def sample_payout_def sample_wallet_def)
  obtain r3 w3 where w3: "ConstructAndSign (sample_env\<lparr>sOthers := (\<lambda>_. payout_sent)\<rparr>) (show_nat 0)
      (payout_created\<lparr>locks := (nonce_lock (wrWalletID payout_row) (wChain (sample_wallet ChainBase)), ''t'') # locks payout_created\<rparr>) = (r3, w3)"
    by fastforce
  have "gateway_called (show_nat 0) payout_signed \<and> gateway_called (show_nat 0) w3"
    using concurrent_sign_broadcasts_twice [OF payout_ready _ _ _ _ _ payout_signed_eq(1,3) w3, of sample_sig "''0xab''"] by simp
  then show ?thesis using payout_signed_eq(1,3) w3 unfolding wl by auto
qed

end
