(* ===== verification/Funding.thy ===== *)
theory Funding
  imports Outbox Decimal Config "HOL-Library.Log_Nat"
begin

text \<open>
  Treasury funding requests for hot wallets, \<^verbatim>\<open>internal/funding/funding.go\<close>. The treasury service
  is a function from its request to an error or nothing; a nil client is \<open>None\<close>. Amounts are compared
  in floating point: a finite \<^verbatim>\<open>float64\<close> is the rational number it denotes, and every arithmetic
  operation rounds to nearest, ties to even, on 53 bits (the numbers are far below the largest one).
\<close>

section \<open>Floating point\<close>

definition round_even :: "rat \<Rightarrow> int" where
  "round_even x =
     (let n = \<lfloor>x\<rfloor>; d = x - of_int n
      in if d < 1 / 2 \<or> d = 1 / 2 \<and> even n then n else n + 1)"

text \<open>The exponent of the leading binary digit.\<close>

definition leading :: "rat \<Rightarrow> int" where
  "leading x =
     (case quotient_of \<bar>x\<bar> of (a, b) \<Rightarrow>
        let k = bitlen a - bitlen b in if 2 powi k \<le> \<bar>x\<bar> then k else k - 1)"

definition float64 :: "rat \<Rightarrow> rat" where
  "float64 x =
     (if x = 0 then 0
      else let e = max (leading x - 52) (- 1074) in of_int (round_even (x / 2 powi e)) * 2 powi e)"

text \<open>A number with at most 53 significant bits is its own nearest one.\<close>

lemma round_even_int [simp]: "round_even (of_int n) = n"
  by (simp add: round_even_def)

lemma leading_lower: "x \<noteq> 0 \<Longrightarrow> 2 powi leading x \<le> \<bar>x\<bar>"
proof -
  assume "x \<noteq> 0"
  obtain a b where q: "quotient_of \<bar>x\<bar> = (a, b)" by fastforce
  have b: "b > 0" using quotient_of_denom_pos [OF q] .
  have x: "\<bar>x\<bar> = of_int a / of_int b" using quotient_of_div [OF q] .
  have "0 < (of_int a / of_int b :: rat)" using \<open>x \<noteq> 0\<close> x by simp
  then have a: "a > 0" using b by (simp add: zero_less_divide_iff)
  have ba: "2 ^ nat (bitlen a - 1) \<le> a" "b < 2 ^ nat (bitlen b)" using bitlen_bounds [OF a] bitlen_bounds [OF b] by simp_all
  have "bitlen a \<noteq> 0" using bitlen_bounds [OF a] a by auto
  then have len: "1 \<le> bitlen a" "0 \<le> bitlen b" using bitlen_nonneg [of a] bitlen_nonneg [of b] by simp_all
  have "of_int (2 ^ nat (bitlen a - 1)) \<le> (of_int a :: rat)" "of_int b \<le> (of_int (2 ^ nat (bitlen b)) :: rat)"
    using ba by (simp_all only: of_int_le_iff less_imp_le)
  then have "(2 ^ nat (bitlen a - 1)) / (2 ^ nat (bitlen b)) \<le> (of_int a / of_int b :: rat)"
    using a b by (intro frac_le) simp_all
  moreover have pw: "(2 :: rat) ^ nat n = 2 powi n" if "0 \<le> n" for n using that by (simp add: power_int_def)
  have "(2 ^ nat (bitlen a - 1)) / (2 ^ nat (bitlen b)) = (2 powi (bitlen a - 1 - bitlen b) :: rat)"
    using len by (simp add: pw power_int_diff)
  ultimately have "2 powi (bitlen a - bitlen b - 1) \<le> \<bar>x\<bar>" by (simp add: x algebra_simps)
  then show ?thesis by (simp add: leading_def q Let_def)
qed

lemma float64_exact:
  assumes "\<bar>m\<bar> < 2 ^ 53" and "- 1074 \<le> e"
  shows "float64 (of_int m * 2 powi e) = of_int m * 2 powi e"
proof (cases "m = 0")
  case False
  let ?x = "of_int m * 2 powi e :: rat"
  have "2 powi leading ?x \<le> \<bar>?x\<bar>" using False by (intro leading_lower) simp
  also have "\<bar>?x\<bar> < 2 ^ 53 * 2 powi e"
    using assms(1) by (simp add: abs_mult)
  also have "\<dots> = 2 powi (53 + e)" by (simp add: power_int_add)
  finally have "leading ?x < 53 + e" 
    using power_int_increasing [of "53 + e" "leading ?x" "2 :: rat"] by force
  define e' where "e' = max (leading ?x - 52) (- 1074)"
  then have e': "e' \<le> e" using \<open>leading ?x < 53 + e\<close> assms(2) by simp
  have "2 powi e = 2 powi e' * (2 powi (e - e') :: rat)" by (simp flip: power_int_add)
  also have "(2 powi (e - e') :: rat) = of_int (2 ^ nat (e - e'))" using e' by (simp add: power_int_def)
  finally have n: "?x / 2 powi e' = of_int (m * 2 ^ nat (e - e'))" "of_int (m * 2 ^ nat (e - e')) * 2 powi e' = ?x" by simp_all
  have "float64 ?x = of_int (round_even (?x / 2 powi e')) * 2 powi e'" using False by (simp add: float64_def Let_def e'_def)
  then show ?thesis unfolding n(1) round_even_int n(2) .
qed (simp add: float64_def)

text \<open>
  \<^verbatim>\<open>InexactFloat64\<close> of the decimal library, and what the conversion of a number outside the range of
  \<^verbatim>\<open>int64\<close> gives, which the language leaves to the implementation.
\<close>

record floatlib =
  InexactFloat64 :: "rat \<Rightarrow> rat"
  conv_overflow :: "rat \<Rightarrow> int"

definition int64_of :: "floatlib \<Rightarrow> rat \<Rightarrow> int" where
  "int64_of F x =
     (let t = (if x < 0 then - \<lfloor>- x\<rfloor> else \<lfloor>x\<rfloor>)
      in if - (2 ^ 63) \<le> t \<and> t < 2 ^ 63 then t else conv_overflow F x)"

section \<open>Operations\<close>

record TreasuryRequest =
  trFundingRequestID :: uuid
  trWalletID :: uuid
  trAsset :: string
  trAmount :: string
  trIdempotencyKey :: string
  trReason :: string

record funding_service =
  fsD :: declib
  fsF :: floatlib
  fsTreasury :: "(TreasuryRequest \<Rightarrow> unit res) option"
  fsAudit :: Emitter
  fsConfig :: Config

definition new_funding :: "uuid \<Rightarrow> Wallet \<Rightarrow> string \<Rightarrow> string \<Rightarrow> string \<Rightarrow> time \<Rightarrow> FundingRequest" where
  "new_funding i wl asset amount reason t =
     \<lparr>fID = i, fWalletID = wID wl, fAsset = asset, fAmount = amount, fState = FundingStateRequested,
      fTreasuryBatchID = [], fReason = reason, fCreatedAt = t, fUpdatedAt = t\<rparr>"

definition idempotency_key :: "Wallet \<Rightarrow> string \<Rightarrow> uuid \<Rightarrow> string" where
  "idempotency_key wl asset i = ''fr:'' @ wID wl @ '':'' @ asset @ '':'' @ i"

definition createRequest ::
    "funding_service \<Rightarrow> Wallet \<Rightarrow> string \<Rightarrow> string \<Rightarrow> string \<Rightarrow> world \<Rightarrow> unit res \<times> world" where
  "createRequest s wl asset amount reason w =
     (case NewUUID w of (i, w) \<Rightarrow>
      case on_db (CreateFundingRequest (now w) (new_funding i wl asset amount reason (now w))) w of
        (Inl e, w) \<Rightarrow> (Inl e, w)
      | (Inr _, w) \<Rightarrow>
     (case (case fsTreasury s of
              None \<Rightarrow> Inr ()
            | Some request \<Rightarrow> request \<lparr>trFundingRequestID = i, trWalletID = wID wl, trAsset = asset,
                trAmount = amount, trIdempotencyKey = idempotency_key wl asset i, trReason = reason\<rparr>) of
        Inl e \<Rightarrow> (Inl (ErrWrap ''treasury request'' e), w)
      | Inr _ \<Rightarrow>
          (Inr (), emit (fsAudit s) \<lparr>evType = ''wallet.funding.requested'', evWalletID = Some (wID wl),
             evPayload = [(''asset'', PStr asset), (''amount'', PStr amount), (''reason'', PStr reason), (''id'', PStr i)]\<rparr> w)))"

definition EvaluateAndRequest :: "funding_service \<Rightarrow> uuid \<Rightarrow> string \<Rightarrow> world \<Rightarrow> unit res \<times> world" where
  "EvaluateAndRequest s wid asset w =
     (case GetWallet wid (db w) of
        Inl e \<Rightarrow> (Inl e, w)
      | Inr wl \<Rightarrow>
     (case (case GetBalance wid asset (db w) of
              Inl e \<Rightarrow> if errors_Is e ErrNoRows then Inr 0 else Inl e
            | Inr bal \<Rightarrow> Inr (parseDec (fsD s) (bConfirmed bal))) of
        Inl e \<Rightarrow> (Inl e, w)
      | Inr confirmed \<Rightarrow>
          if wType wl \<noteq> WalletTypeHot then (Inr (), w)
          else if InexactFloat64 (fsF s) confirmed \<ge> cHotWalletMinBalanceUSD (fsConfig s) then (Inr (), w)
          else (case GetOpenFundingRequest wid asset (db w) of
                  Inr _ \<Rightarrow> (Inr (), w)
                | Inl e \<Rightarrow>
                    if \<not> errors_Is e ErrNoRows then (Inl e, w)
                    else createRequest s wl asset
                      (show_int (int64_of (fsF s)
                         (float64 (cHotWalletMinBalanceUSD (fsConfig s) - InexactFloat64 (fsF s) confirmed))))
                      ''auto:below_threshold'' w)))"

definition ManualRequest ::
    "funding_service \<Rightarrow> uuid \<Rightarrow> string \<Rightarrow> string \<Rightarrow> string \<Rightarrow> world \<Rightarrow> unit res \<times> world" where
  "ManualRequest s wid asset amount reason w =
     (case GetWallet wid (db w) of
        Inl e \<Rightarrow> (Inl e, w)
      | Inr wl \<Rightarrow>
          if wState wl = WalletStateRetired then (Inl ErrWalletRetired, w)
          else (case GetOpenFundingRequest wid asset (db w) of
                  Inr _ \<Rightarrow> (Inl ErrDuplicateFunding, w)
                | Inl e \<Rightarrow>
                    if \<not> errors_Is e ErrNoRows then (Inl e, w)
                    else createRequest s wl asset amount reason w))"

definition MarkApproved :: "uuid \<Rightarrow> string \<Rightarrow> world \<Rightarrow> unit res \<times> world" where
  "MarkApproved i treasuryBatchID w = on_db (UpdateFundingState (now w) i FundingStateApproved treasuryBatchID) w"

definition MarkSettled :: "uuid \<Rightarrow> world \<Rightarrow> unit res \<times> world" where
  "MarkSettled i w = on_db (UpdateFundingState (now w) i FundingStateSettled []) w"

definition MarkRejected :: "uuid \<Rightarrow> string \<Rightarrow> world \<Rightarrow> unit res \<times> world" where
  "MarkRejected i reason w = on_db (UpdateFundingState (now w) i FundingStateRejected []) w"

section \<open>At most one open request\<close>

definition same_open :: "FundingRequest \<Rightarrow> FundingRequest \<Rightarrow> bool" where
  "same_open a b = (fState a = FundingStateRequested \<and> fState b = FundingStateRequested
     \<and> fWalletID a = fWalletID b \<and> fAsset a = fAsset b)"

abbreviation funding_ok :: "world \<Rightarrow> bool" where
  "funding_ok w \<equiv> rows_apart same_open (fundingReq (db w))"

lemma funding_frame: "fundingReq (db w') = fundingReq (db w) \<Longrightarrow> funding_ok w \<Longrightarrow> funding_ok w'"
  by simp

lemma CreateFundingRequest_ok:
  assumes "rows_apart same_open (fundingReq s)" and "CreateFundingRequest t f s = (r, s')"
  shows "rows_apart same_open (fundingReq s')"
proof (cases "r = Inr ()")
  case True
  then have no: "\<not> (\<exists>ex \<in> set (vals (fundingReq s)). fWalletID ex = fWalletID f \<and> fAsset ex = fAsset f \<and> fState ex = FundingStateRequested)"
    and s': "fundingReq s' = AList.update (fID f) (let cp = (if IsZero (fCreatedAt f) then f\<lparr>fCreatedAt := t\<rparr> else f)
      in cp\<lparr>fUpdatedAt := fCreatedAt cp\<rparr>) (fundingReq s)"
    using assms(2) by (auto simp: CreateFundingRequest_def Let_def split: if_splits)
  have "\<not> (fWalletID b = fWalletID f \<and> fAsset b = fAsset f \<and> fState b = FundingStateRequested)"
    if "map_of (fundingReq s) k = Some b" for k b
    using no map_of_SomeD [OF that] by force
  then show ?thesis
    unfolding s' by (intro rows_apart_update [OF assms(1)]) (auto simp: same_open_def Let_def)
next
  case False
  then show ?thesis using assms by (auto simp: CreateFundingRequest_def Let_def split: if_splits)
qed

lemma createRequest_ok: "funding_ok w \<Longrightarrow> funding_ok (snd (createRequest s wl asset amount reason w))"
  using CreateFundingRequest_ok [of "db w" "now w" "new_funding (ids w (nid w)) wl asset amount reason (now w)"]
  by (auto simp: createRequest_def NewUUID_def on_db_def frame_simps split: prod.split sum.split)

lemma EvaluateAndRequest_ok: "funding_ok w \<Longrightarrow> funding_ok (snd (EvaluateAndRequest s wid asset w))"
  by (auto simp: EvaluateAndRequest_def createRequest_ok split: sum.split)

lemma ManualRequest_ok: "funding_ok w \<Longrightarrow> funding_ok (snd (ManualRequest s wid asset amount reason w))"
  by (auto simp: ManualRequest_def createRequest_ok split: sum.split)

lemma UpdateFundingState_ok:
  assumes "rows_apart same_open (fundingReq s)" and "st \<noteq> FundingStateRequested"
  shows "rows_apart same_open (fundingReq (snd (UpdateFundingState t i st b s)))"
proof (cases "map_of (fundingReq s) i")
  case None
  then show ?thesis using assms(1) by (simp add: UpdateFundingState_def)
next
  case (Some f)
  have "rows_apart same_open (AList.map_entry i (\<lambda>f. f\<lparr>fState := st, fTreasuryBatchID := (if b \<noteq> [] then b else fTreasuryBatchID f),
      fUpdatedAt := t\<rparr>) (fundingReq s))"
    by (rule rows_apart_entry [OF assms(1)]) (use assms(2) in \<open>auto simp: same_open_def\<close>)
  then show ?thesis using Some by (simp add: UpdateFundingState_def)
qed

lemma open_found:
  assumes "map_of (fundingReq s) i = Some fr" and "fWalletID fr = wid" and "fAsset fr = asset" and "fState fr = FundingStateRequested"
  shows "\<exists>fr'. GetOpenFundingRequest wid asset s = Inr fr'"
proof (cases "find (\<lambda>f. fWalletID f = wid \<and> fAsset f = asset \<and> fState f = FundingStateRequested) (vals (fundingReq s))")
  case None
  have "fr \<in> set (vals (fundingReq s))" using map_of_SomeD [OF assms(1)] by force
  then show ?thesis using None assms(2-4) by (auto simp: find_None_iff simp del: set_map)
qed (simp add: GetOpenFundingRequest_def)

inductive funding_step :: "world \<Rightarrow> world \<Rightarrow> bool" where
  evaluate: "funding_step w (snd (EvaluateAndRequest s wid asset w))"
| manual: "funding_step w (snd (ManualRequest s wid asset amount reason w))"
| approve: "funding_step w (snd (MarkApproved i tb w))"
| settle_funding: "funding_step w (snd (MarkSettled i w))"
| reject: "funding_step w (snd (MarkRejected i reason w))"
| elsewhere: "fundingReq (db w') = fundingReq (db w) \<Longrightarrow> funding_step w w'"

interpretation funding_sys: inductive_inv "\<lambda>w. fundingReq (db w) = []" funding_step funding_ok
proof
  fix w w' :: world
  assume "funding_ok w" and "funding_step w w'"
  from this(2,1) show "funding_ok w'"
    by cases (simp_all add: EvaluateAndRequest_ok ManualRequest_ok MarkApproved_def MarkSettled_def MarkRejected_def UpdateFundingState_ok)
qed simp

section \<open>Properties\<close>

definition sample_funding :: "unit res \<Rightarrow> funding_service" where
  "sample_funding answer = \<lparr>fsD = frac_lib, fsF = \<lparr>InexactFloat64 = float64, conv_overflow = (\<lambda>_. - (2 ^ 63))\<rparr>,
     fsTreasury = Some (\<lambda>_. answer), fsAudit = NilEmitter, fsConfig = default_config\<rparr>"

definition sample_hot :: Wallet where
  "sample_hot = \<lparr>wID = ''w'', wChain = ChainBase, wType = WalletTypeHot, wLabel = ''hot'', wState = WalletStateActive,
     wKeyID = ''k1'', wCustodianRef = ''mpc'', wRotationDays = None, wRotationAfterReceives = None, wCreatedAt = 1, wUpdatedAt = 1\<rparr>"

definition sample_low :: "string \<Rightarrow> world" where
  "sample_low confirmed = start_world\<lparr>db := New\<lparr>wallets := [(''w'', sample_hot)],
     balances := [(balanceKey ''w'' ''USDC'', \<lparr>bWalletID = ''w'', bAsset = ''USDC'', bConfirmed = confirmed, bPending = ''0'', bLocked = ''0'',
        bLastBlockSeen = 0, bUpdatedAt = 1\<rparr>)]\<rparr>\<rparr>"

text \<open>
  C33: a wallet never has two open funding requests for one asset. In every state reached from an
  empty table by evaluations, manual requests and answers of the treasury, for any services and in
  any order, two requested rows for the same wallet and asset are the same row.
\<close>

theorem one_open_funding_request:
  assumes "reaches (\<lambda>w. fundingReq (db w) = []) funding_step w"
    and "map_of (fundingReq (db w)) i = Some a" and "map_of (fundingReq (db w)) j = Some b"
    and "fState a = FundingStateRequested" and "fState b = FundingStateRequested"
    and "fWalletID a = fWalletID b" and "fAsset a = fAsset b"
  shows "i = j"
  using rows_apartD [OF funding_sys.reaches_inv [OF assms(1)] assms(2,3)] assms(4-7) by (simp add: same_open_def)

lemmas funding_eval = sample_funding_def sample_hot_def sample_low_def ManualRequest_def EvaluateAndRequest_def createRequest_def
  NewUUID_def on_db_def CreateFundingRequest_def GetOpenFundingRequest_def GetWallet_def GetBalance_def new_funding_def New_def
  IsZero_def emit_def Let_def default_config_def

theorem one_open_funding_request_witness:
  "\<exists>w a. reaches (\<lambda>w. fundingReq (db w) = []) funding_step w \<and> map_of (fundingReq (db w)) (show_nat 0) = Some a
     \<and> fState a = FundingStateRequested \<and> show_nat 0 = show_nat 0"
proof -
  let ?w = "snd (ManualRequest (sample_funding (Inr ())) ''w'' ''USDC'' ''7'' ''top-up'' (sample_low ''1''))"
  have "reaches (\<lambda>w. fundingReq (db w) = []) funding_step ?w"
  proof (rule reaches_step)
    show "reaches (\<lambda>w. fundingReq (db w) = []) funding_step (sample_low ''1'')"
      by (rule reaches_init) (simp add: sample_low_def New_def)
  qed (rule funding_step.manual)
  moreover obtain a where "map_of (fundingReq (db ?w)) (show_nat 0) = Some a" "fState a = FundingStateRequested"
    by (simp add: funding_eval)
  ultimately show ?thesis using one_open_funding_request by blast
qed

text \<open>
  C34: a hot wallet below the threshold gets a request for what is missing. With no request open and
  the treasury accepting, \<open>EvaluateAndRequest\<close> adds one requested row for the wallet and the asset,
  whose amount is the difference of the two floating-point numbers cut to an integer. Evaluating
  again changes nothing.
\<close>

theorem EvaluateAndRequest_effect:
  assumes "GetWallet wid (db w) = Inr wl" and "wID wl = wid" and "wType wl = WalletTypeHot"
    and "GetBalance wid asset (db w) = Inr bal"
    and "f = InexactFloat64 (fsF s) (parseDec (fsD s) (bConfirmed bal))" and "f < cHotWalletMinBalanceUSD (fsConfig s)"
    and "\<forall>fr \<in> set (vals (fundingReq (db w))). \<not> (fWalletID fr = wid \<and> fAsset fr = asset \<and> fState fr = FundingStateRequested)"
    and "fsTreasury s = Some treasury" and "\<forall>rq. treasury rq = Inr ()"
  shows "\<exists>w'. EvaluateAndRequest s wid asset w = (Inr (), w')
    \<and> (\<exists>fr. fundingReq (db w') = AList.update (fID fr) fr (fundingReq (db w)) \<and> fWalletID fr = wid \<and> fAsset fr = asset
        \<and> fState fr = FundingStateRequested
        \<and> fAmount fr = show_int (int64_of (fsF s) (float64 (cHotWalletMinBalanceUSD (fsConfig s) - f))))
    \<and> EvaluateAndRequest s wid asset w' = (Inr (), w')"
proof -
  let ?amt = "show_int (int64_of (fsF s) (float64 (cHotWalletMinBalanceUSD (fsConfig s) - f)))"
  define fr where "fr = new_funding (ids w (nid w)) wl asset ?amt ''auto:below_threshold'' (now w)"
  have fr: "fWalletID fr = wid" "fAsset fr = asset" "fState fr = FundingStateRequested" "fAmount fr = ?amt" "fID fr = ids w (nid w)"
    by (simp_all add: fr_def new_funding_def assms(2))
  have none: "find (\<lambda>f. fWalletID f = wid \<and> fAsset f = asset \<and> fState f = FundingStateRequested) (vals (fundingReq (db w))) = None"
    using assms(7) by (simp add: find_None_iff)
  define w1 where "w1 = w\<lparr>nid := Suc (nid w), db := (db w)\<lparr>fundingReq := AList.update (fID fr) fr (fundingReq (db w))\<rparr>\<rparr>"
  let ?w' = "emit (fsAudit s) \<lparr>evType = ''wallet.funding.requested'', evWalletID = Some wid,
    evPayload = [(''asset'', PStr asset), (''amount'', PStr ?amt), (''reason'', PStr ''auto:below_threshold''), (''id'', PStr (ids w (nid w)))]\<rparr> w1"
  have cr: "createRequest s wl asset ?amt ''auto:below_threshold'' w = (Inr (), ?w')"
    using assms(2,7-9) fr by (simp add: createRequest_def NewUUID_def on_db_def CreateFundingRequest_def new_funding_def fr_def w1_def Let_def)
  have e: "EvaluateAndRequest s wid asset w = (Inr (), ?w')"
    using assms(1,3-6) none cr by (simp add: EvaluateAndRequest_def GetOpenFundingRequest_def)
  have "map_of (fundingReq (db ?w')) (fID fr) = Some fr" by (simp add: frame_simps w1_def)
  then obtain fr' where "GetOpenFundingRequest wid asset (db ?w') = Inr fr'" using open_found fr(1-3) by blast
  then have "EvaluateAndRequest s wid asset ?w' = (Inr (), ?w')"
    using assms(1,3-6) by (simp add: EvaluateAndRequest_def GetWallet_def GetBalance_def frame_simps w1_def)
  moreover have "fundingReq (db ?w') = AList.update (fID fr) fr (fundingReq (db w))" by (simp add: frame_simps w1_def)
  ultimately show ?thesis using e fr by blast
qed

text \<open>With 49999.5 in hand and a threshold of 50000, what is missing is below one unit.\<close>

lemma sample_gap:
  "parseDec frac_lib ''99999/2'' = 99999 / 2" "float64 (99999 / 2) = 99999 / 2" "float64 (1 / 2) = 1 / 2"
  using float64_exact [of 99999 "- 1"] float64_exact [of 1 "- 1"]
  by (simp_all add: parseDec_def frac_parse_def parse_nat_def char_digit_def Let_def power_int_def)

lemma show_zero: "show_nat 0 = ''0''"
  by code_simp

theorem EvaluateAndRequest_effect_witness:
  "\<exists>w' fr. EvaluateAndRequest (sample_funding (Inr ())) ''w'' ''USDC'' (sample_low ''99999/2'') = (Inr (), w')
     \<and> fundingReq (db w') = [(fID fr, fr)] \<and> fAmount fr = ''0''"
proof -
  let ?bal = "\<lparr>bWalletID = ''w'', bAsset = ''USDC'', bConfirmed = ''99999/2'', bPending = ''0'', bLocked = ''0'',
    bLastBlockSeen = 0, bUpdatedAt = 1\<rparr>"
  have gap: "show_int (int64_of F (1 / 2)) = ''0''" for F
    using show_zero by (simp add: int64_of_def Let_def show_int_def)
  obtain w' fr where "EvaluateAndRequest (sample_funding (Inr ())) ''w'' ''USDC'' (sample_low ''99999/2'') = (Inr (), w')"
    "fundingReq (db w') = AList.update (fID fr) fr (fundingReq (db (sample_low ''99999/2'')))"
    "fAmount fr = show_int (int64_of (fsF (sample_funding (Inr ()))) (float64 (cHotWalletMinBalanceUSD (fsConfig (sample_funding (Inr ()))) - 99999 / 2)))"
    using EvaluateAndRequest_effect [of "''w''" "sample_low ''99999/2''" sample_hot "''USDC''" ?bal "99999 / 2" "sample_funding (Inr ())" "\<lambda>_. Inr ()"]
    by (auto simp: GetWallet_def GetBalance_def sample_low_def sample_hot_def sample_funding_def New_def sample_gap default_config_def)
  then show ?thesis
    by (intro exI [of _ w'] exI [of _ fr]) (simp add: sample_low_def New_def sample_funding_def default_config_def sample_gap gap)
qed

text \<open>
  A request the treasury did not take is not sent again. When the call to the treasury fails the
  row stays requested; from then on \<open>EvaluateAndRequest\<close> for the wallet and asset reports success
  without calling the treasury, whatever its answers and the balance, and \<open>ManualRequest\<close> refuses.
\<close>

lemma failed_funding_never_retried:
  assumes "GetWallet wid (db w) = Inr wl" and "wID wl = wid" and "wState wl \<noteq> WalletStateRetired"
    and "ManualRequest s wid asset amount reason w = (Inl (ErrWrap ''treasury request'' e), w')"
  shows "fst (EvaluateAndRequest s' wid asset w') = Inr () \<and> snd (EvaluateAndRequest s' wid asset w') = w'
    \<and> ManualRequest s' wid asset amount' reason' w' = (Inl ErrDuplicateFunding, w')"
proof -
  have cr: "createRequest s wl asset amount reason w = (Inl (ErrWrap ''treasury request'' e), w')"
    using assms by (auto simp: ManualRequest_def GetOpenFundingRequest_def split: sum.splits if_splits option.splits)
  define fr where "fr = new_funding (ids w (nid w)) wl asset amount reason (now w)"
  have fr: "db w' = (db w)\<lparr>fundingReq := AList.update (fID fr) fr (fundingReq (db w))\<rparr>"
    "fWalletID fr = wid" "fAsset fr = asset" "fState fr = FundingStateRequested"
    using cr assms(2)
    by (auto simp: fr_def createRequest_def NewUUID_def on_db_def CreateFundingRequest_def new_funding_def Let_def
        split: if_splits sum.splits option.splits)
  have "map_of (fundingReq (db w')) (fID fr) = Some fr" by (simp add: fr(1))
  then obtain fr' where op: "GetOpenFundingRequest wid asset (db w') = Inr fr'" using open_found fr(2-4) by blast
  have wl: "GetWallet wid (db w') = Inr wl" using assms(1) by (simp add: GetWallet_def fr(1))
  show ?thesis
    using op wl assms(3) by (auto simp: EvaluateAndRequest_def ManualRequest_def GetBalance_def split: sum.split option.split)
qed

end
