(* ===== verification/Json.thy ===== *)
theory Json
  imports GoLib
begin

text \<open>
  What the program uses of \<^verbatim>\<open>encoding/json\<close>: the syntax of a JSON text with the limits the decoder puts
  on it, the unescaping of strings, the decoding of an object into the fields of a struct (names match
  exactly or up to case), and the escaping of a string when a struct is encoded. A text and a string
  are sequences of bytes.
\<close>

section \<open>Strings\<close>

abbreviation quot :: char where "quot \<equiv> CHR 0x22"
abbreviation bslash :: char where "bslash \<equiv> CHR 0x5C"

definition code :: "char \<Rightarrow> nat" where
  "code c = of_char c"

definition hex_value :: "char \<Rightarrow> nat option" where
  "hex_value c =
     (let n = code c
      in if 48 \<le> n \<and> n \<le> 57 then Some (n - 48)
         else if 97 \<le> n \<and> n \<le> 102 then Some (n - 87)
         else if 65 \<le> n \<and> n \<le> 70 then Some (n - 55)
         else None)"

fun hex4 :: "string \<Rightarrow> nat option" where
  "hex4 (a # b # c # d # s) =
     (case (hex_value a, hex_value b, hex_value c, hex_value d) of
        (Some a, Some b, Some c, Some d) \<Rightarrow> Some (((16 * a + b) * 16 + c) * 16 + d)
      | _ \<Rightarrow> None)"
| "hex4 _ = None"

definition escape_value :: "char \<Rightarrow> char option" where
  "escape_value c =
     map_of [(quot, quot), (bslash, bslash), (CHR ''/'', CHR ''/''), (CHR ''b'', CHR 0x08), (CHR ''f'', CHR 0x0C),
             (CHR ''n'', CHR 0x0A), (CHR ''r'', CHR 0x0D), (CHR ''t'', CHR 0x09)] c"

text \<open>The text of a string up to its closing quote, escapes included, and what follows.\<close>

fun raw_string :: "string \<Rightarrow> (string \<times> string) option" where
  "raw_string [] = None"
| "raw_string (c # s) =
     (if c = quot then Some ([], s)
      else if c = bslash then
        (case s of
           [] \<Rightarrow> None
         | e # s \<Rightarrow>
             if e = CHR ''u'' then
               (if hex4 s = None then None
                else map_option (\<lambda>(x, r). (c # e # take 4 s @ x, r)) (raw_string (drop 4 s)))
             else if escape_value e = None then None
             else map_option (\<lambda>(x, r). (c # e # x, r)) (raw_string s))
      else if code c < 32 then None
      else map_option (\<lambda>(x, r). (c # x, r)) (raw_string s))"

text \<open>UTF-8: the encoding of a code point, and the length of the valid encoding a text starts with (0 if none).\<close>

definition utf8_encode :: "nat \<Rightarrow> string" where
  "utf8_encode r =
     map char_of
       (if r < 0x80 then [r]
        else if r < 0x800 then [0xC0 + r div 64, 0x80 + r mod 64]
        else if r < 0x10000 then [0xE0 + r div 4096, 0x80 + r div 64 mod 64, 0x80 + r mod 64]
        else [0xF0 + r div 262144, 0x80 + r div 4096 mod 64, 0x80 + r div 64 mod 64, 0x80 + r mod 64])"

definition second_byte :: "nat \<Rightarrow> nat \<times> nat" where
  "second_byte b =
     (if b = 0xE0 then (0xA0, 0xBF) else if b = 0xED then (0x80, 0x9F)
      else if b = 0xF0 then (0x90, 0xBF) else if b = 0xF4 then (0x80, 0x8F) else (0x80, 0xBF))"

definition utf8_length :: "string \<Rightarrow> nat" where
  "utf8_length s =
     (case map code (take 4 s) of
        [] \<Rightarrow> 0
      | b # bs \<Rightarrow>
          (let n = (if b < 0x80 then 1 else if 0xC2 \<le> b \<and> b \<le> 0xDF then 2
                    else if 0xE0 \<le> b \<and> b \<le> 0xEF then 3 else if 0xF0 \<le> b \<and> b \<le> 0xF4 then 4 else 0);
               ok = (n \<ge> 1 \<and> length bs \<ge> n - 1
                     \<and> (n \<ge> 2 \<longrightarrow> fst (second_byte b) \<le> bs ! 0 \<and> bs ! 0 \<le> snd (second_byte b))
                     \<and> (\<forall>x \<in> set (take (n - 2) (drop 1 bs)). 0x80 \<le> x \<and> x \<le> 0xBF))
           in if ok then n else 0))"

abbreviation replacement :: nat where "replacement \<equiv> 0xFFFD"

text \<open>The string an escaped text stands for; \<open>pair\<close> combines two surrogates.\<close>

definition pair :: "nat \<Rightarrow> nat \<Rightarrow> nat option" where
  "pair a b =
     (if 0xD800 \<le> a \<and> a < 0xDC00 \<and> 0xDC00 \<le> b \<and> b < 0xE000
      then Some (0x10000 + (a - 0xD800) * 1024 + (b - 0xDC00)) else None)"

definition next_u :: "string \<Rightarrow> nat option" where
  "next_u s = (if take 2 s = [bslash, CHR ''u''] then hex4 (drop 2 s) else None)"

fun unquote :: "string \<Rightarrow> string" where
  "unquote [] = []"
| "unquote (c # s) =
     (if c = bslash then
        (case s of
           [] \<Rightarrow> []
         | e # t \<Rightarrow>
             if e = CHR ''u'' then
               (case hex4 t of
                  None \<Rightarrow> []
                | Some r \<Rightarrow>
                    if 0xD800 \<le> r \<and> r < 0xE000 then
                      (case Option.bind (next_u (drop 4 t)) (pair r) of
                         Some r2 \<Rightarrow> utf8_encode r2 @ unquote (drop 10 t)
                       | None \<Rightarrow> utf8_encode replacement @ unquote (drop 4 t))
                    else utf8_encode r @ unquote (drop 4 t))
             else (case escape_value e of None \<Rightarrow> [] | Some d \<Rightarrow> d # unquote t))
      else if code c < 0x80 then c # unquote s
      else (let n = utf8_length (c # s)
            in if n \<le> 1 then utf8_encode replacement @ unquote s
               else c # take (n - 1) s @ unquote (drop (n - 1) s)))"

section \<open>Texts\<close>

datatype json = JNull | JBool bool | JNum string | JStr string | JArr "json list" | JObj "(string \<times> json) list"

definition is_ws :: "char \<Rightarrow> bool" where
  "is_ws c = (code c \<in> {0x20, 0x09, 0x0D, 0x0A})"

definition skip_ws :: "string \<Rightarrow> string" where
  "skip_ws s = dropWhile is_ws s"

definition is_digit :: "char \<Rightarrow> bool" where
  "is_digit c = (48 \<le> code c \<and> code c \<le> 57)"

text \<open>The parts of a number: a sign, an integer without leading zeros, a fraction, an exponent.\<close>

definition digits1 :: "string \<Rightarrow> (string \<times> string) option" where
  "digits1 s = (let d = takeWhile is_digit s in if d = [] then None else Some (d, drop (length d) s))"

definition int_part :: "string \<Rightarrow> (string \<times> string) option" where
  "int_part s = (if s \<noteq> [] \<and> hd s = CHR ''0'' then Some (''0'', tl s) else digits1 s)"

definition frac_part :: "string \<Rightarrow> (string \<times> string) option" where
  "frac_part s =
     (if s \<noteq> [] \<and> hd s = CHR ''.'' then map_option (\<lambda>(d, r). (CHR ''.'' # d, r)) (digits1 (tl s))
      else Some ([], s))"

definition exp_part :: "string \<Rightarrow> (string \<times> string) option" where
  "exp_part s =
     (case s of
        [] \<Rightarrow> Some ([], [])
      | e # r \<Rightarrow>
          if e = CHR ''e'' \<or> e = CHR ''E'' then
            (let sg = (if r \<noteq> [] \<and> (hd r = CHR ''+'' \<or> hd r = CHR ''-'') then [hd r] else [])
             in map_option (\<lambda>(d, r). (e # sg @ d, r)) (digits1 (drop (length sg) r)))
          else Some ([], s))"

definition number :: "string \<Rightarrow> (string \<times> string) option" where
  "number s =
     (let sg = (if s \<noteq> [] \<and> hd s = CHR ''-'' then [CHR ''-''] else [])
      in Option.bind (int_part (drop (length sg) s)) (\<lambda>(i, r).
         Option.bind (frac_part r) (\<lambda>(f, r).
         map_option (\<lambda>(e, r). (sg @ i @ f @ e, r)) (exp_part r))))"

text \<open>
  Values, the elements of an array and the members of an object, with the fuel of the recursion (of any two
  nested calls one reads a byte) and the nesting depth, at most 10000.
\<close>

abbreviation max_depth :: nat where "max_depth \<equiv> 10000"

fun val :: "nat \<Rightarrow> nat \<Rightarrow> string \<Rightarrow> (json \<times> string) option"
  and elems :: "nat \<Rightarrow> nat \<Rightarrow> string \<Rightarrow> (json list \<times> string) option"
  and members :: "nat \<Rightarrow> nat \<Rightarrow> string \<Rightarrow> ((string \<times> json) list \<times> string) option" where
  "val 0 d s = None"
| "val (Suc n) d s =
     (case s of
        [] \<Rightarrow> None
      | c # r \<Rightarrow>
          if c = CHR ''{'' then
            (if d \<ge> max_depth then None
             else if skip_ws r \<noteq> [] \<and> hd (skip_ws r) = CHR ''}'' then Some (JObj [], tl (skip_ws r))
             else map_option (\<lambda>(ms, r). (JObj ms, r)) (members n (Suc d) (skip_ws r)))
          else if c = CHR ''['' then
            (if d \<ge> max_depth then None
             else if skip_ws r \<noteq> [] \<and> hd (skip_ws r) = CHR '']'' then Some (JArr [], tl (skip_ws r))
             else map_option (\<lambda>(vs, r). (JArr vs, r)) (elems n (Suc d) (skip_ws r)))
          else if c = quot then map_option (\<lambda>(x, r). (JStr (unquote x), r)) (raw_string r)
          else if HasPrefix s ''null'' then Some (JNull, drop 4 s)
          else if HasPrefix s ''true'' then Some (JBool True, drop 4 s)
          else if HasPrefix s ''false'' then Some (JBool False, drop 5 s)
          else map_option (\<lambda>(x, r). (JNum x, r)) (number s))"
| "elems 0 d s = None"
| "elems (Suc n) d s =
     (case val n d s of
        None \<Rightarrow> None
      | Some (v, r) \<Rightarrow>
          (case skip_ws r of
             [] \<Rightarrow> None
           | c # r \<Rightarrow>
               if c = CHR '','' then map_option (\<lambda>(vs, r). (v # vs, r)) (elems n d (skip_ws r))
               else if c = CHR '']'' then Some ([v], r)
               else None))"
| "members 0 d s = None"
| "members (Suc n) d s =
     (if s = [] \<or> hd s \<noteq> quot then None
      else case raw_string (tl s) of
        None \<Rightarrow> None
      | Some (k, r) \<Rightarrow>
          if skip_ws r = [] \<or> hd (skip_ws r) \<noteq> CHR '':'' then None
          else (case val n d (skip_ws (tl (skip_ws r))) of
             None \<Rightarrow> None
           | Some (v, r) \<Rightarrow>
               (case skip_ws r of
                  [] \<Rightarrow> None
                | c # r \<Rightarrow>
                    if c = CHR '','' then map_option (\<lambda>(ms, r). ((unquote k, v) # ms, r)) (members n d (skip_ws r))
                    else if c = CHR ''}'' then Some ([(unquote k, v)], r)
                    else None)))"

definition json_value :: "string \<Rightarrow> (json \<times> string) option" where
  "json_value s = (let t = skip_ws s in val (Suc (2 * length t)) 0 t)"

text \<open>\<^verbatim>\<open>json.Unmarshal\<close> reads one value and nothing after it; \<^verbatim>\<open>Decoder.Decode\<close> leaves the rest unread.\<close>

definition Unmarshal_json :: "string \<Rightarrow> json res" where
  "Unmarshal_json s =
     (case json_value s of
        Some (v, r) \<Rightarrow> if skip_ws r = [] then Inr v else Inl (ErrText ''invalid character after top-level value'')
      | None \<Rightarrow> Inl (ErrText ''invalid JSON''))"

definition Decode_json :: "string \<Rightarrow> json res" where
  "Decode_json s = (case json_value s of Some (v, _) \<Rightarrow> Inr v | None \<Rightarrow> Inl (ErrText ''invalid JSON''))"

section \<open>Structs\<close>

text \<open>
  Names of fields match up to case; two letters outside ASCII fold to letters inside it (the long s
  and the Kelvin sign).
\<close>

definition upcase :: "char \<Rightarrow> char" where
  "upcase c = (if 97 \<le> code c \<and> code c \<le> 122 then char_of (code c - 32) else c)"

fun foldName :: "string \<Rightarrow> string" where
  "foldName [] = []"
| "foldName (c # s) =
     (if take 2 (c # s) = [CHR 0xC5, CHR 0xBF] then CHR ''S'' # foldName (drop 1 s)
      else if take 3 (c # s) = [CHR 0xE2, CHR 0x84, CHR 0xAA] then CHR ''K'' # foldName (drop 2 s)
      else upcase c # foldName s)"

type_synonym 'r fields = "(string \<times> (json \<Rightarrow> 'r \<Rightarrow> 'r res)) list"

definition find_field :: "'r fields \<Rightarrow> string \<Rightarrow> (json \<Rightarrow> 'r \<Rightarrow> 'r res) option" where
  "find_field fs k =
     (case map_of fs k of
        Some f \<Rightarrow> Some f
      | None \<Rightarrow> map_option snd (find (\<lambda>(n, _). foldName n = foldName k) fs))"

fun set_fields :: "'r fields \<Rightarrow> (string \<times> json) list \<Rightarrow> 'r \<Rightarrow> 'r res" where
  "set_fields fs [] r = Inr r"
| "set_fields fs ((k, v) # ms) r =
     (case find_field fs k of
        None \<Rightarrow> set_fields fs ms r
      | Some f \<Rightarrow> (case f v r of Inl e \<Rightarrow> Inl e | Inr r \<Rightarrow> set_fields fs ms r))"

abbreviation type_error :: goerr where
  "type_error \<equiv> ErrText ''json: cannot unmarshal value into Go struct field''"

definition into_struct :: "'r fields \<Rightarrow> 'r \<Rightarrow> json \<Rightarrow> 'r res" where
  "into_struct fs r v = (case v of JObj ms \<Rightarrow> set_fields fs ms r | JNull \<Rightarrow> Inr r | _ \<Rightarrow> Inl type_error)"

definition into_string :: "(string \<Rightarrow> 'r \<Rightarrow> 'r) \<Rightarrow> json \<Rightarrow> 'r \<Rightarrow> 'r res" where
  "into_string put v r = (case v of JStr x \<Rightarrow> Inr (put x r) | JNull \<Rightarrow> Inr r | _ \<Rightarrow> Inl type_error)"

definition into_int :: "(int \<Rightarrow> 'r \<Rightarrow> 'r) \<Rightarrow> json \<Rightarrow> 'r \<Rightarrow> 'r res" where
  "into_int put v r =
     (case v of
        JNum x \<Rightarrow> (case Atoi x of Inr n \<Rightarrow> Inr (put n r) | Inl _ \<Rightarrow> Inl type_error)
      | JNull \<Rightarrow> Inr r
      | _ \<Rightarrow> Inl type_error)"

definition into_bool :: "(bool \<Rightarrow> 'r \<Rightarrow> 'r) \<Rightarrow> json \<Rightarrow> 'r \<Rightarrow> 'r res" where
  "into_bool put v r = (case v of JBool b \<Rightarrow> Inr (put b r) | JNull \<Rightarrow> Inr r | _ \<Rightarrow> Inl type_error)"

fun strings_of :: "string list \<Rightarrow> json list \<Rightarrow> string list res" where
  "strings_of old [] = Inr []"
| "strings_of old (v # vs) =
     (case into_string (\<lambda>x _. x) v (if old = [] then [] else hd old) of
        Inl e \<Rightarrow> Inl e
      | Inr x \<Rightarrow> map_sum (\<lambda>e. e) (\<lambda>xs. x # xs) (strings_of (drop 1 old) vs))"

definition into_strings :: "('r \<Rightarrow> string list) \<Rightarrow> (string list \<Rightarrow> 'r \<Rightarrow> 'r) \<Rightarrow> json \<Rightarrow> 'r \<Rightarrow> 'r res" where
  "into_strings get put v r =
     (case v of
        JArr vs \<Rightarrow> map_sum (\<lambda>e. e) (\<lambda>xs. put xs r) (strings_of (get r) vs)
      | JNull \<Rightarrow> Inr (put [] r)
      | _ \<Rightarrow> Inl type_error)"

section \<open>Encoding\<close>

definition hex_digit :: "nat \<Rightarrow> char" where
  "hex_digit n = (if n < 10 then char_of (48 + n) else char_of (87 + n))"

text \<open>The encoder escapes what HTML treats specially, and replaces what is not UTF-8.\<close>

definition quote_ascii :: "char \<Rightarrow> string" where
  "quote_ascii c =
     (if c = quot \<or> c = bslash then [bslash, c]
      else if c = CHR 0x08 then [bslash, CHR ''b''] else if c = CHR 0x0C then [bslash, CHR ''f'']
      else if c = CHR 0x0A then [bslash, CHR ''n''] else if c = CHR 0x0D then [bslash, CHR ''r'']
      else if c = CHR 0x09 then [bslash, CHR ''t'']
      else if code c < 32 \<or> c \<in> {CHR ''<'', CHR ''>'', CHR ''&''}
        then [bslash, CHR ''u'', CHR ''0'', CHR ''0'', hex_digit (code c div 16), hex_digit (code c mod 16)]
      else [c])"

fun quote_body :: "string \<Rightarrow> string" where
  "quote_body [] = []"
| "quote_body (c # s) =
     (if code c < 0x80 then quote_ascii c @ quote_body s
      else (let n = utf8_length (c # s)
            in if n \<le> 1 then bslash # ''ufffd'' @ quote_body s
               else if take 3 (c # s) = [CHR 0xE2, CHR 0x80, CHR 0xA8] then bslash # ''u2028'' @ quote_body (drop 2 s)
               else if take 3 (c # s) = [CHR 0xE2, CHR 0x80, CHR 0xA9] then bslash # ''u2029'' @ quote_body (drop 2 s)
               else c # take (n - 1) s @ quote_body (drop (n - 1) s)))"

definition json_quote :: "string \<Rightarrow> string" where
  "json_quote s = quot # quote_body s @ [quot]"

text \<open>An object of members whose values are already encoded.\<close>

fun json_members :: "(string \<times> string) list \<Rightarrow> string" where
  "json_members [] = []"
| "json_members [(k, v)] = json_quote k @ CHR '':'' # v"
| "json_members ((k, v) # m # ms) = json_quote k @ CHR '':'' # v @ CHR '','' # json_members (m # ms)"

fun json_elems :: "string list \<Rightarrow> string" where
  "json_elems [] = []"
| "json_elems [s] = json_quote s"
| "json_elems (s # t # ss) = json_quote s @ CHR '','' # json_elems (t # ss)"

definition json_object :: "(string \<times> string) list \<Rightarrow> string" where
  "json_object ms = CHR ''{'' # json_members ms @ [CHR ''}'']"

section \<open>The fuel is enough\<close>

lemma length_skip_ws: "length (skip_ws s) \<le> length s"
  by (simp add: skip_ws_def length_dropWhile_le)

lemma raw_string_shorter: "raw_string s = Some (x, r) \<Longrightarrow> length r < length s"
proof (induction s arbitrary: x r rule: raw_string.induct)
  case (2 c s)
  then show ?case by (fastforce split: if_splits list.splits simp del: raw_string.simps simp: raw_string.simps(2))
qed simp

lemma digits1_shorter: "digits1 s = Some (x, r) \<Longrightarrow> length r < length s"
  by (cases s) (auto simp: digits1_def Let_def split: if_splits)

lemma number_shorter: "number s = Some (x, r) \<Longrightarrow> length r < length s"
proof -
  have i: "int_part t = Some (y, q) \<Longrightarrow> length q < length t" for t y q
    using digits1_shorter [of t y q] by (cases t) (auto simp: int_part_def split: if_splits)
  have f: "frac_part t = Some (y, q) \<Longrightarrow> length q \<le> length t" for t y q
    using digits1_shorter [of "tl t" _ q] by (cases t) (fastforce simp: frac_part_def split: if_splits)+
  have e: "exp_part t = Some (y, q) \<Longrightarrow> length q \<le> length t" for t y q
    using digits1_shorter [of _ _ q] by (cases t) (fastforce simp: exp_part_def Let_def split: if_splits)+
  assume "number s = Some (x, r)"
  then obtain n y1 q1 y2 q2 y3 where "int_part (drop n s) = Some (y1, q1)" "frac_part q1 = Some (y2, q2)" "exp_part q2 = Some (y3, r)"
    by (auto simp: number_def Let_def bind_eq_Some_conv)
  then show ?thesis using i f e by fastforce
qed

lemma tl_skip_ws: "skip_ws s \<noteq> [] \<Longrightarrow> length (tl (skip_ws s)) < length s"
  using length_skip_ws [of s] by (cases "skip_ws s") auto

lemma skip_ws_Cons: "skip_ws s = c # r \<Longrightarrow> length (skip_ws r) < length s"
  using length_skip_ws [of s] length_skip_ws [of r] by simp

lemma parser_shorter:
  "val n d s = Some (v, r) \<Longrightarrow> length r < length s"
  "elems n d s = Some (vs, r) \<Longrightarrow> length r < length s"
  "members n d s = Some (ms, r) \<Longrightarrow> length r < length s"
proof (induction n d s and n d s and n d s arbitrary: v r and vs r and ms r rule: val_elems_members.induct)
  case (2 n d s)
  obtain c t where s: "s = c # t" using 2(3) by (cases s) auto
  have ws: "length q < length (skip_ws t) \<Longrightarrow> length q < Suc (length t)" for q
    using length_skip_ws [of t] by simp
  have num: "number (c # t) = Some (x, q) \<Longrightarrow> length q < Suc (length t)" for x q using number_shorter [of "c # t" x q] by simp
  show ?case
    using 2(3) 2(1,2) [OF s] ws num raw_string_shorter [of t] tl_skip_ws [of t] unfolding s
    by (fastforce split: if_splits)
next
  case (4 n d s)
  then obtain v' t c q where v: "val n d s = Some (v', t)" "skip_ws t = c # q"
    by (auto split: option.splits list.splits)
  then have "length t < length s" "length q < length t" using 4(1) length_skip_ws [of t] by auto
  then show ?case
    using 4(3) 4(2) [OF v(1) refl v(2)] length_skip_ws [of q] v by (fastforce split: if_splits)
next
  case (6 n d s)
  then obtain k t where k: "raw_string (tl s) = Some (k, t)" "s \<noteq> []" "hd s = quot" "skip_ws t \<noteq> []" "hd (skip_ws t) = CHR '':''"
    by (auto split: option.splits if_splits)
  let ?u = "skip_ws (tl (skip_ws t))"
  obtain v' q c x where v: "val n d ?u = Some (v', q)" "skip_ws q = c # x"
    using 6(3) k by (auto split: option.splits list.splits)
  have "length q < length ?u" using 6(1) k v(1) by auto
  moreover have "length ?u < length t" using tl_skip_ws [OF k(4)] length_skip_ws [of "tl (skip_ws t)"] by simp
  moreover have "length t < length s" using raw_string_shorter [OF k(1)] k(2) by (cases s) auto
  moreover have "length x < length q" using length_skip_ws [of q] v(2) by simp
  ultimately have x: "length x < length s" "length (skip_ws x) < length s" using length_skip_ws [of x] by linarith+
  show ?case
    using 6(3) 6(2) k v x by (fastforce split: if_splits)
qed simp_all

text \<open>Any fuel above twice the length of the text gives the same result: the parser never runs out of it.\<close>

lemma fuel_enough:
  "2 * length s < n \<Longrightarrow> 2 * length s < m \<Longrightarrow> val n d s = val m d s"
  "Suc (2 * length s) < n \<Longrightarrow> Suc (2 * length s) < m \<Longrightarrow> elems n d s = elems m d s"
  "2 * length s < n \<Longrightarrow> 2 * length s < m \<Longrightarrow> members n d s = members m d s"
proof (induction n arbitrary: m d s)
  case (Suc n)
  {
    case 1
    obtain k where m: "m = Suc k" using 1 by (cases m) auto
    show ?case
    proof (cases s)
      case (Cons c t)
      have e: "elems n (Suc d) (skip_ws t) = elems k (Suc d) (skip_ws t)" and
        ms: "members n (Suc d) (skip_ws t) = members k (Suc d) (skip_ws t)"
        using 1 m length_skip_ws [of t] by (auto simp: Cons intro!: Suc(2) Suc(3))
      show ?thesis unfolding m Cons val.simps list.case e ms ..
    qed (simp add: m)
  next
    case 2
    obtain k where m: "m = Suc k" using 2 by (cases m) auto
    have v: "val n d s = val k d s" using 2 m by (intro Suc(1)) auto
    have e: "elems n d (skip_ws r) = elems k d (skip_ws r)" if "val k d s = Some (x, q)" "skip_ws q = c # r" for x q c r
      using parser_shorter(1) [OF that(1)] skip_ws_Cons [OF that(2)] 2 m by (intro Suc(2)) auto
    show ?case unfolding m elems.simps v using e by (auto split: option.split list.split)
  next
    case 3
    obtain k where m: "m = Suc k" using 3 by (cases m) auto
    have len: "length (skip_ws (tl (skip_ws r))) < length s" if "raw_string (tl s) = Some (x, r)" "skip_ws r \<noteq> []" "s \<noteq> []" for x r
      using raw_string_shorter [OF that(1)] tl_skip_ws [OF that(2)] length_skip_ws [of "tl (skip_ws r)"] that(3) by (cases s) auto
    have v: "val n d (skip_ws (tl (skip_ws r))) = val k d (skip_ws (tl (skip_ws r)))"
      if "raw_string (tl s) = Some (x, r)" "skip_ws r \<noteq> []" "s \<noteq> []" for x r
      using len [OF that] 3 m by (intro Suc(1)) auto
    have e: "members n d (skip_ws r') = members k d (skip_ws r')"
      if "raw_string (tl s) = Some (x, r)" "skip_ws r \<noteq> []" "s \<noteq> []"
        "val k d (skip_ws (tl (skip_ws r))) = Some (y, q)" "skip_ws q = c # r'" for x r y q c r'
      using len [OF that(1-3)] parser_shorter(1) [OF that(4)] skip_ws_Cons [OF that(5)] 3 m by (intro Suc(3)) auto
    show ?case unfolding m members.simps using v e by (auto split: option.split list.split)
  }
qed simp_all

section \<open>Decoding what was encoded\<close>

lemma code_char [simp]: "char_of (code c) = c" "n < 256 \<Longrightarrow> code (char_of n) = n"
  by (simp_all add: code_def)

lemma code_less: "code c < 256"
  by (simp add: code_def)

lemma code_inject [simp]: "code c = code d \<longleftrightarrow> c = d"
  by (metis code_char(1))

lemma hex_value_digit [simp]: "n < 16 \<Longrightarrow> hex_value (hex_digit n) = Some n"
  by (auto simp: hex_value_def hex_digit_def Let_def)

definition ascii :: "string \<Rightarrow> bool" where
  "ascii s = (\<forall>c \<in> set s. code c < 0x80)"

lemma hex4_quote:
  assumes "code c < 0x80"
  shows "hex4 (CHR ''0'' # CHR ''0'' # hex_digit (code c div 16) # hex_digit (code c mod 16) # t) = Some (code c)"
proof -
  have "hex_value (CHR ''0'') = Some 0" by (simp add: hex_value_def code_def Let_def)
  moreover have "code c div 16 < 16" using assms by simp
  ultimately show ?thesis by simp
qed

lemma quote_ascii_cases:
  obtains "quote_ascii c = [c]" "c \<noteq> quot" "c \<noteq> bslash" "\<not> code c < 32"
  | e where "quote_ascii c = [bslash, e]" "e \<noteq> CHR ''u''" "escape_value e = Some c"
  | "quote_ascii c = [bslash, CHR ''u'', CHR ''0'', CHR ''0'', hex_digit (code c div 16), hex_digit (code c mod 16)]"
proof -
  consider "c = quot \<or> c = bslash" | "c = CHR 0x08" | "c = CHR 0x0C" | "c = CHR 0x0A" | "c = CHR 0x0D" | "c = CHR 0x09"
    | "c \<noteq> quot" "c \<noteq> bslash" "c \<noteq> CHR 0x08" "c \<noteq> CHR 0x0C" "c \<noteq> CHR 0x0A" "c \<noteq> CHR 0x0D" "c \<noteq> CHR 0x09" by blast
  then show thesis
  proof cases
    case 1
    then show ?thesis by (intro that(2) [of c]) (auto simp: quote_ascii_def escape_value_def)
  next
    case 2
    then show ?thesis by (intro that(2) [of "CHR ''b''"]) (simp_all add: quote_ascii_def escape_value_def)
  next
    case 3
    then show ?thesis by (intro that(2) [of "CHR ''f''"]) (simp_all add: quote_ascii_def escape_value_def)
  next
    case 4
    then show ?thesis by (intro that(2) [of "CHR ''n''"]) (simp_all add: quote_ascii_def escape_value_def)
  next
    case 5
    then show ?thesis by (intro that(2) [of "CHR ''r''"]) (simp_all add: quote_ascii_def escape_value_def)
  next
    case 6
    then show ?thesis by (intro that(2) [of "CHR ''t''"]) (simp_all add: quote_ascii_def escape_value_def)
  next
    case 7
    then show ?thesis
      using that(1,3) by (cases "code c < 32 \<or> c \<in> {CHR ''<'', CHR ''>'', CHR ''&''}") (simp_all add: quote_ascii_def)
  qed
qed

lemma raw_quote:
  assumes "code c < 0x80"
  shows "raw_string (quote_ascii c @ t) = map_option (\<lambda>(x, r). (quote_ascii c @ x, r)) (raw_string t)"
proof (cases rule: quote_ascii_cases [of c])
  case 3
  show ?thesis unfolding 3 using hex4_quote [OF assms, of t] by (simp del: hex4.simps)
qed simp_all

lemma unquote_quote:
  assumes "code c < 0x80"
  shows "unquote (quote_ascii c @ t) = c # unquote t"
proof (cases rule: quote_ascii_cases [of c])
  case 3
  have "\<not> 0xD800 \<le> code c" using assms by simp
  then show ?thesis unfolding 3 using hex4_quote [OF assms, of t] assms by (simp add: utf8_encode_def del: hex4.simps)
qed (use assms in simp_all)

lemma raw_quote_body:
  "ascii s \<Longrightarrow> raw_string (quote_body s @ quot # t) = Some (quote_body s, t)"
  by (induction s) (simp_all add: ascii_def raw_quote)

lemma unquote_quote_body: "ascii s \<Longrightarrow> unquote (quote_body s) = s"
  by (induction s) (simp_all add: ascii_def unquote_quote)

lemma show_nat_head: "0 < n \<Longrightarrow> hd (show_nat n) \<noteq> CHR ''0''"
proof (induction n rule: show_nat.induct)
  case (1 n)
  show ?case
  proof (cases "n < 10")
    case True
    then have "code (digit_char n) \<noteq> 48" using 1(2) by (simp add: digit_char_def)
    then show ?thesis using True by (auto simp: show_nat.simps [of n] code_def)
  next
    case False
    then show ?thesis using 1 by (simp add: show_nat.simps [of n])
  qed
qed

lemma show_nat_digits: "c \<in> set (show_nat n) \<Longrightarrow> is_digit c"
  using show_nat_char by (auto simp: is_digit_def code_def)

lemma number_show_int:
  assumes "t = [] \<or> hd t = CHR '','' \<or> hd t = CHR ''}''"
  shows "number (show_int i @ t) = Some (show_int i, t)"
proof -
  have stop: "frac_part t = Some ([], t)" "exp_part t = Some ([], t)" "takeWhile is_digit t = []"
    using assms by (cases t; auto simp: frac_part_def exp_part_def is_digit_def code_def)+
  have nat: "int_part (show_nat n @ t) = Some (show_nat n, t)" for n
  proof (cases "n = 0")
    case True
    have "show_nat 0 = ''0''" by code_simp
    then show ?thesis by (simp add: True int_part_def)
  next
    case False
    have tw: "takeWhile is_digit (show_nat n @ t) = show_nat n"
      using show_nat_digits stop(3) by (subst takeWhile_append2) auto
    have "hd (show_nat n @ t) \<noteq> CHR ''0''" using show_nat_head [of n] False by simp
    then show ?thesis by (simp add: int_part_def digits1_def tw)
  qed
  have "hd (show_nat n @ t) \<noteq> CHR ''-''" for n
    using show_nat_digits [OF hd_in_set [OF show_nat_nonempty], of n] by (auto simp: is_digit_def code_def)
  then show ?thesis
    using nat stop by (simp add: number_def show_int_def)
qed

text \<open>A text that stands for a value, nested at most \<open>h\<close> deep, wherever a comma or a closing brace follows.\<close>

definition encodes :: "nat \<Rightarrow> string \<Rightarrow> json \<Rightarrow> bool" where
  "encodes h v x = (v \<noteq> [] \<and> \<not> is_ws (hd v)
     \<and> (\<forall>n d t. t \<noteq> [] \<longrightarrow> hd t = CHR '','' \<or> hd t = CHR ''}'' \<longrightarrow> length v \<le> n \<longrightarrow> d + h \<le> max_depth
          \<longrightarrow> val n d (v @ t) = Some (x, t)))"

lemma encodesD:
  "encodes h v x \<Longrightarrow> t \<noteq> [] \<Longrightarrow> hd t = CHR '','' \<or> hd t = CHR ''}'' \<Longrightarrow> length v \<le> n \<Longrightarrow> d + h \<le> max_depth
    \<Longrightarrow> val n d (v @ t) = Some (x, t)"
  unfolding encodes_def by blast

lemma encodes_mono: "encodes h v x \<Longrightarrow> h \<le> h' \<Longrightarrow> encodes h' v x"
  unfolding encodes_def by (meson add_le_mono le_trans order_refl)

lemma val_quote: "ascii s \<Longrightarrow> n \<noteq> 0 \<Longrightarrow> val n d (json_quote s @ t) = Some (JStr s, t)"
  using raw_quote_body [of s t] unquote_quote_body [of s] by (cases n) (simp_all add: json_quote_def)

lemma encodes_quote: "ascii s \<Longrightarrow> encodes h (json_quote s) (JStr s)"
  using val_quote by (auto simp: encodes_def json_quote_def is_ws_def code_def)

lemma encodes_int: "encodes h (show_int i) (JNum (show_int i))"
proof -
  obtain c r where c: "show_int i = c # r" "c = CHR ''-'' \<or> is_digit c"
    using show_int_char [of "hd (show_int i)" i] by (cases "show_int i") (auto simp: show_int_def is_digit_def code_def split: if_splits)
  have "val n d (show_int i @ t) = Some (JNum (show_int i), t)"
    if t: "t \<noteq> []" "hd t = CHR '','' \<or> hd t = CHR ''}''" and "n \<noteq> 0" for n d t
  proof -
    obtain m where m: "n = Suc m" using \<open>n \<noteq> 0\<close> by (cases n) auto
    have "number (c # r @ t) = Some (show_int i, t)" using number_show_int [of t i] t c(1) by simp
    moreover have "c \<noteq> CHR ''{''" "c \<noteq> CHR ''[''" "c \<noteq> quot" "c \<noteq> CHR ''n''" "c \<noteq> CHR ''t''" "c \<noteq> CHR ''f''"
      using c(2) by (auto simp: is_digit_def code_def)
    ultimately show ?thesis by (simp add: m c(1) HasPrefix_def)
  qed
  moreover have "\<not> is_ws c" using c(2) by (auto simp: is_ws_def is_digit_def code_def)
  ultimately show ?thesis by (fastforce simp: encodes_def c(1))
qed

lemma skip_ws_id [simp]: "\<not> is_ws c \<Longrightarrow> skip_ws (c # s) = c # s"
  by (simp add: skip_ws_def)

lemma not_ws [simp]:
  "\<not> is_ws (CHR ''{'')" "\<not> is_ws (CHR ''}'')" "\<not> is_ws (CHR '':'')" "\<not> is_ws (CHR '','')" "\<not> is_ws quot"
  by (simp_all add: is_ws_def code_def)

lemma json_members_quot: "ms \<noteq> [] \<Longrightarrow> \<exists>y. json_members ms = quot # y"
  by (cases ms rule: json_members.cases) (auto simp: json_quote_def)

lemma members_encoded:
  assumes "ms \<noteq> []" and "\<forall>(k, v, x) \<in> set ms. ascii k \<and> encodes h v x"
    and "length (json_members (map (\<lambda>(k, v, x). (k, v)) ms)) \<le> n" and "d + h \<le> max_depth"
  shows "members n d (json_members (map (\<lambda>(k, v, x). (k, v)) ms) @ CHR ''}'' # t) = Some (map (\<lambda>(k, v, x). (k, x)) ms, t)"
  using assms(1-3)
proof (induction ms arbitrary: n)
  case (Cons m ms)
  obtain k v x where m: "m = (k, v, x)" by (cases m)
  have "length v < length (json_members (map (\<lambda>(k, v, x). (k, v)) (m # ms)))"
    by (cases "map (\<lambda>(k, v, x). (k, v)) ms") (simp_all add: m)
  then obtain j where n: "n = Suc j" "length v \<le> j" using Cons.prems(3) by (cases n) auto
  have k: "ascii k" and v: "encodes h v x" using Cons.prems(2) by (auto simp: m)
  obtain c r where c: "v = c # r" "\<not> is_ws c" using v by (cases v) (auto simp: encodes_def)
  have raw: "raw_string (quote_body k @ quot # q) = Some (quote_body k, q)" for q using raw_quote_body [OF k] by simp
  have val: "val j d (c # r @ q) = Some (x, q)" if "q \<noteq> []" "hd q = CHR '','' \<or> hd q = CHR ''}''" for q
    using encodesD [OF v that n(2) assms(4)] by (simp add: c(1))
  show ?case
  proof (cases ms)
    case Nil
    then show ?thesis using raw val unquote_quote_body [OF k] by (simp add: m n json_quote_def c)
  next
    case (Cons m2 ms2)
    let ?rest = "json_members (map (\<lambda>(k, v, x). (k, v)) ms)"
    obtain y where y: "?rest = quot # y" using json_members_quot [of "map (\<lambda>(k, v, x). (k, v)) ms"] by (auto simp: Cons)
    have j: "json_members (map (\<lambda>(k, v, x). (k, v)) (m # ms)) = json_quote k @ CHR '':'' # v @ CHR '','' # ?rest"
      by (simp add: m Cons split: prod.split)
    have "length ?rest \<le> j" using Cons.prems(3) unfolding j n(1) by simp
    then have IH: "members j d (?rest @ CHR ''}'' # t) = Some (map (\<lambda>(k, v, x). (k, x)) ms, t)"
      using Cons.IH Cons.prems(2) Cons by simp
    show ?thesis
      unfolding j n(1) using raw val unquote_quote_body [OF k] IH by (simp add: json_quote_def c y m)
  qed
qed simp

lemma encodes_bool: "encodes h (if b then ''true'' else ''false'') (JBool b)"
proof -
  have "val n d ((if b then ''true'' else ''false'') @ t) = Some (JBool b, t)" if "n \<noteq> 0" for n d t
    using that by (cases n) (simp_all add: HasPrefix_def)
  then show ?thesis by (cases b) (auto simp: encodes_def is_ws_def code_def)
qed

lemma encodes_null: "encodes h ''null'' JNull"
proof -
  have "val n d (''null'' @ t) = Some (JNull, t)" if "4 \<le> n" for n d t
    using that by (cases n) (simp_all add: HasPrefix_def)
  then show ?thesis by (simp add: encodes_def is_ws_def code_def)
qed

lemma json_elems_quot: "ss \<noteq> [] \<Longrightarrow> \<exists>y. json_elems ss = quot # y"
  by (cases ss rule: json_elems.cases) (auto simp: json_quote_def)

lemma elems_quoted:
  assumes "ss \<noteq> []" and "\<forall>s \<in> set ss. ascii s" and "length (json_elems ss) \<le> n"
  shows "elems n d (json_elems ss @ CHR '']'' # t) = Some (map JStr ss, t)"
  using assms
proof (induction ss arbitrary: n rule: json_elems.induct)
  case (2 s)
  then obtain j where "n = Suc j" "j \<noteq> 0" by (cases n) (auto simp: json_quote_def)
  moreover have "val j d (json_quote s @ CHR '']'' # t) = Some (JStr s, CHR '']'' # t)"
    using val_quote [of s j] 2 \<open>j \<noteq> 0\<close> by simp
  ultimately show ?case by (simp add: is_ws_def code_def)
next
  case (3 s s' ss)
  then obtain j where j: "n = Suc j" "j \<noteq> 0" "length (json_elems (s' # ss)) \<le> j" by (cases n) (auto simp: json_quote_def)
  obtain y where y: "json_elems (s' # ss) = quot # y" using json_elems_quot [of "s' # ss"] by auto
  have "val j d (json_quote s @ CHR '','' # quot # y @ CHR '']'' # t) = Some (JStr s, CHR '','' # quot # y @ CHR '']'' # t)"
    using val_quote [of s j] 3(3) j(2) by simp
  then show ?case using 3(1) [of j] 3(3) j y by simp
qed simp

lemma encodes_strings:
  assumes "ss \<noteq> []" and "\<forall>s \<in> set ss. ascii s"
  shows "encodes (Suc h) (CHR ''['' # json_elems ss @ '']'') (JArr (map JStr ss))"
proof -
  obtain y where y: "json_elems ss = quot # y" using json_elems_quot [OF assms(1)] by blast
  have "val n d ((CHR ''['' # json_elems ss @ '']'') @ t) = Some (JArr (map JStr ss), t)"
    if n: "length (CHR ''['' # json_elems ss @ '']'') \<le> n" and d: "d < max_depth" for n d t
  proof -
    obtain j where j: "n = Suc j" "length (json_elems ss) \<le> j" using n by (cases n) auto
    show ?thesis using elems_quoted [OF assms j(2), of "Suc d" t] d by (simp add: j(1) y)
  qed
  then show ?thesis by (simp add: encodes_def is_ws_def code_def)
qed

lemma encodes_object:
  assumes "ms \<noteq> []" and "\<forall>(k, v, x) \<in> set ms. ascii k \<and> encodes h v x"
  shows "encodes (Suc h) (json_object (map (\<lambda>(k, v, x). (k, v)) ms)) (JObj (map (\<lambda>(k, v, x). (k, x)) ms))"
proof -
  let ?t = "json_members (map (\<lambda>(k, v, x). (k, v)) ms)"
  obtain y where y: "?t = quot # y" using json_members_quot [of "map (\<lambda>(k, v, x). (k, v)) ms"] assms(1) by auto
  have "val n d (json_object (map (\<lambda>(k, v, x). (k, v)) ms) @ t) = Some (JObj (map (\<lambda>(k, v, x). (k, x)) ms), t)"
    if n: "length (json_object (map (\<lambda>(k, v, x). (k, v)) ms)) \<le> n" and d: "d + Suc h \<le> max_depth" for n d t
  proof -
    obtain j where j: "n = Suc j" "length ?t \<le> j" using n by (cases n) (auto simp: json_object_def)
    show ?thesis using members_encoded [OF assms j(2), of "Suc d" t] d by (simp add: j(1) json_object_def y)
  qed
  then show ?thesis by (simp add: encodes_def json_object_def)
qed

lemma json_value_object:
  assumes "ms \<noteq> []" and "\<forall>(k, v, x) \<in> set ms. ascii k \<and> encodes (max_depth - 1) v x"
  shows "json_value (json_object (map (\<lambda>(k, v, x). (k, v)) ms)) = Some (JObj (map (\<lambda>(k, v, x). (k, x)) ms), [])"
proof -
  let ?t = "json_members (map (\<lambda>(k, v, x). (k, v)) ms)"
  obtain y where y: "?t = quot # y" using json_members_quot [of "map (\<lambda>(k, v, x). (k, v)) ms"] assms(1) by auto
  have "length ?t \<le> 2 * length (CHR ''{'' # ?t @ [CHR ''}''])" by simp
  from members_encoded [OF assms this, of 1 "[]"] show ?thesis
    by (simp add: json_value_def json_object_def y)
qed

lemma Unmarshal_object:
  assumes "ms \<noteq> []" and "\<forall>(k, v, x) \<in> set ms. ascii k \<and> encodes (max_depth - 1) v x"
  shows "Unmarshal_json (json_object (map (\<lambda>(k, v, x). (k, v)) ms)) = Inr (JObj (map (\<lambda>(k, v, x). (k, x)) ms))"
  using json_value_object [OF assms] by (simp add: Unmarshal_json_def skip_ws_def)

lemma Decode_object:
  assumes "ms \<noteq> []" and "\<forall>(k, v, x) \<in> set ms. ascii k \<and> encodes (max_depth - 1) v x"
  shows "Decode_json (json_object (map (\<lambda>(k, v, x). (k, v)) ms)) = Inr (JObj (map (\<lambda>(k, v, x). (k, x)) ms))"
  using json_value_object [OF assms] by (simp add: Decode_json_def)

end
