(* ===== verification/Http.thy ===== *)
theory Http
  imports World Json
begin

text \<open>
  HTTP requests and responses as the handlers of \<^verbatim>\<open>internal/api/rest/rest.go\<close> see them, with the
  helpers that read a request and write a response. The body of a response is the Go value that is
  encoded, an error standing for its text.
\<close>

record request =
  rMethod :: string
  rPath :: string
  rHeader :: "string \<Rightarrow> string"
  rQuery :: "string \<Rightarrow> string"
  rParam :: string
  rBody :: string

record balanceResp =
  brAsset :: string
  brConfirmed :: string
  brPending :: string
  brLocked :: string

datatype body =
    BMap "(string, string) gomap"
  | BReady string "(string, string) gomap"
  | BError goerr
  | BUnauthorized goerr
  | BWallet Wallet
  | BWallets "Wallet list"
  | BAddress Address
  | BAddresses "Address list"
  | BBalances "balanceResp list"
  | BWithdrawal WithdrawalRequest
  | BWithdrawals "WithdrawalRequest list"
  | BFundingRequests "FundingRequest list"
  | BNonce int

record response =
  rsStatus :: int
  rsBody :: body

type_synonym handler = "request \<Rightarrow> world \<Rightarrow> response \<times> world"

abbreviation StatusOK :: int where "StatusOK \<equiv> 200"
abbreviation StatusCreated :: int where "StatusCreated \<equiv> 201"
abbreviation StatusBadRequest :: int where "StatusBadRequest \<equiv> 400"
abbreviation StatusUnauthorized :: int where "StatusUnauthorized \<equiv> 401"
abbreviation StatusNotFound :: int where "StatusNotFound \<equiv> 404"
abbreviation StatusConflict :: int where "StatusConflict \<equiv> 409"
abbreviation StatusInternalServerError :: int where "StatusInternalServerError \<equiv> 500"
abbreviation StatusServiceUnavailable :: int where "StatusServiceUnavailable \<equiv> 503"

definition writeJSON :: "int \<Rightarrow> body \<Rightarrow> response" where
  "writeJSON status v = \<lparr>rsStatus = status, rsBody = v\<rparr>"

definition writeError :: "int \<Rightarrow> goerr \<Rightarrow> response" where
  "writeError status e = writeJSON status (BError e)"

text \<open>The identifier in the path of a request; \<open>U\<close> is \<^verbatim>\<open>uuid.Parse\<close>.\<close>

definition parseID :: "(string \<Rightarrow> uuid res) \<Rightarrow> request \<Rightarrow> uuid res" where
  "parseID U r = U (rParam r)"

definition decodeJSON :: "'r fields \<Rightarrow> 'r \<Rightarrow> request \<Rightarrow> 'r res" where
  "decodeJSON fs zero r = (case Decode_json (rBody r) of Inl e \<Rightarrow> Inl e | Inr v \<Rightarrow> into_struct fs zero v)"

lemma response_simps [simp]:
  "rsStatus (writeJSON s v) = s" "rsBody (writeJSON s v) = v"
  "rsStatus (writeError s e) = s" "rsBody (writeError s e) = BError e"
  by (simp_all add: writeJSON_def writeError_def)

end
