(* ===== verification/Base64.thy ===== *)
theory Base64
  imports Bytes
begin

text \<open>
  What the service tokens use of Go's standard library: \<^verbatim>\<open>base64.RawURLEncoding\<close>
  (\<^verbatim>\<open>encoding/base64\<close>, the URL alphabet without padding) and HMAC-SHA-256 (\<^verbatim>\<open>crypto/hmac\<close>).
\<close>

section \<open>Base 64\<close>

definition b64_char :: "nat \<Rightarrow> char" where
  "b64_char n =
     (if n < 26 then char_of (65 + n)
      else if n < 52 then char_of (71 + n)
      else if n < 62 then char_of (n - 4)
      else if n = 62 then CHR ''-'' else CHR ''_'')"

definition b64_value :: "char \<Rightarrow> nat option" where
  "b64_value c =
     (let n = (of_char c :: nat)
      in if 65 \<le> n \<and> n \<le> 90 then Some (n - 65)
         else if 97 \<le> n \<and> n \<le> 122 then Some (n - 71)
         else if 48 \<le> n \<and> n \<le> 57 then Some (n + 4)
         else if c = CHR ''-'' then Some 62
         else if c = CHR ''_'' then Some 63
         else None)"

text \<open>Three bytes are four groups of six bits; a last group of one or two bytes is filled with zero bits.\<close>

fun sextets :: "bytes \<Rightarrow> nat list" where
  "sextets (a # b # c # bs) =
     (let n = 65536 * unat a + 256 * unat b + unat c
      in [n div 262144, n div 4096 mod 64, n div 64 mod 64, n mod 64] @ sextets bs)"
| "sextets [a, b] = (let n = 1024 * unat a + 4 * unat b in [n div 4096, n div 64 mod 64, n mod 64])"
| "sextets [a] = (let n = 16 * unat a in [n div 64, n mod 64])"
| "sextets [] = []"

text \<open>The decoder is not strict about the filling bits, and a single left-over character is an error.\<close>

fun octets :: "nat list \<Rightarrow> bytes option" where
  "octets (x # y # z # u # xs) =
     (let n = ((64 * x + y) * 64 + z) * 64 + u
      in map_option ((@) [word_of_nat (n div 65536), word_of_nat (n div 256 mod 256), word_of_nat (n mod 256)])
           (octets xs))"
| "octets [x, y, z] =
     (let n = (64 * x + y) * 64 + z in Some [word_of_nat (n div 1024), word_of_nat (n div 4 mod 256)])"
| "octets [x, y] = Some [word_of_nat ((64 * x + y) div 16)]"
| "octets [x] = None"
| "octets [] = Some []"

definition EncodeToString :: "bytes \<Rightarrow> string" where
  "EncodeToString bs = map b64_char (sextets bs)"

text \<open>Line breaks in the input are skipped.\<close>

definition DecodeString :: "string \<Rightarrow> bytes res" where
  "DecodeString s =
     (case Option.bind (those (map b64_value (filter (\<lambda>c. c \<notin> {CHR 0x0A, CHR 0x0D}) s))) octets of
        None \<Rightarrow> Inl (ErrText ''illegal base64 data'')
      | Some bs \<Rightarrow> Inr bs)"

section \<open>HMAC\<close>

definition hmac_key :: "bytes \<Rightarrow> bytes" where
  "hmac_key key =
     (let k = (if length key > 64 then Sum256 key else key)
      in k @ replicate (64 - length k) 0)"

definition hmac_sha256 :: "bytes \<Rightarrow> bytes \<Rightarrow> bytes" where
  "hmac_sha256 key m =
     Sum256 (map (\<lambda>b. b XOR 0x5c) (hmac_key key) @ Sum256 (map (\<lambda>b. b XOR 0x36) (hmac_key key) @ m))"

definition bytes_string :: "bytes \<Rightarrow> string" where
  "bytes_string bs = map (\<lambda>b. char_of (unat b)) bs"

section \<open>Round trips\<close>

lemma bytes_string_inverse [simp]: "bytes_string (string_bytes s) = s"
  by (induction s) (simp_all add: bytes_string_def string_bytes_def)

lemma of_b64_char:
  "n < 64 \<Longrightarrow> (of_char (b64_char n) :: nat)
     = (if n < 26 then 65 + n else if n < 52 then 71 + n else if n < 62 then n - 4 else if n = 62 then 45 else 95)"
  by (simp add: b64_char_def)

lemma b64_value_char [simp]: "n < 64 \<Longrightarrow> b64_value (b64_char n) = Some n"
  by (cases "n < 62") (auto simp: b64_value_def of_b64_char Let_def, auto simp: b64_char_def split: if_splits)

lemma b64_char_range: "n < 64 \<Longrightarrow> b64_char n \<notin> {CHR 0x0A, CHR 0x0D, CHR ''.''}"
proof -
  assume n: "n < 64"
  have "(of_char (b64_char n) :: nat) \<notin> {10, 13, 46}" using n by (auto simp: of_b64_char)
  then show ?thesis by fastforce
qed

lemma word_unat_byte [simp]: "word_of_nat (unat (b :: byte)) = b"
  by simp

lemma sextets_range: "x \<in> set (sextets bs) \<Longrightarrow> x < 64"
proof (induction bs rule: sextets.induct)
  case (1 a b c bs)
  then show ?case using unat_lt_256 [of a] unat_lt_256 [of b] unat_lt_256 [of c] by (auto simp: Let_def)
next
  case (2 a b)
  then show ?case using unat_lt_256 [of a] unat_lt_256 [of b] by (auto simp: Let_def)
next
  case (3 a)
  then show ?case using unat_lt_256 [of a] by (auto simp: Let_def)
qed simp

lemma digits_64:
  "64 * (n div 64) + n mod 64 = (n :: nat)"
  "(64 * (n div 4096) + n div 64 mod 64) * 64 + n mod 64 = n"
  "((64 * (n div 262144) + n div 4096 mod 64) * 64 + n div 64 mod 64) * 64 + n mod 64 = n"
proof -
  have d: "n div 4096 = n div 64 div 64" "n div 262144 = n div 64 div 64 div 64"
    by (simp_all add: div_mult2_eq [symmetric])
  show one: "64 * (n div 64) + n mod 64 = n" for n :: nat by simp
  show "(64 * (n div 4096) + n div 64 mod 64) * 64 + n mod 64 = n"
    by (simp only: d one div_mult_mod_eq)
  show "((64 * (n div 262144) + n div 4096 mod 64) * 64 + n div 64 mod 64) * 64 + n mod 64 = n"
    by (simp only: d one div_mult_mod_eq)
qed

lemma three_bytes:
  assumes "b < 256" and "c < (256 :: nat)"
  shows "(65536 * a + 256 * b + c) div 65536 = a" "(65536 * a + 256 * b + c) div 256 mod 256 = b"
    "(65536 * a + 256 * b + c) mod 256 = c"
proof -
  have e: "65536 * a + 256 * b + c = c + (256 * a + b) * 256" by simp
  show "(65536 * a + 256 * b + c) mod 256 = c"
    unfolding e using assms by (simp only: mod_mult_self1 mod_less)
  have d: "(65536 * a + 256 * b + c) div 256 = 256 * a + b"
    unfolding e using assms by (subst div_mult_self1) simp_all
  then show "(65536 * a + 256 * b + c) div 256 mod 256 = b" using assms by simp
  have "(65536 * a + 256 * b + c) div 65536 = (65536 * a + 256 * b + c) div 256 div 256"
    by (simp only: div_mult2_eq [symmetric]) simp
  then show "(65536 * a + 256 * b + c) div 65536 = a" using assms by (simp add: d)
qed

lemma octets_sextets [simp]: "octets (sextets bs) = Some bs"
proof (induction bs rule: sextets.induct)
  case (1 a b c bs)
  then show ?case using unat_lt_256 [of a] unat_lt_256 [of b] unat_lt_256 [of c]
    unfolding sextets.simps Let_def append.simps octets.simps digits_64 by (simp add: three_bytes)
next
  case (2 a b)
  then show ?case using unat_lt_256 [of a] unat_lt_256 [of b]
    unfolding sextets.simps Let_def octets.simps digits_64 by simp
next
  case (3 a)
  then show ?case using unat_lt_256 [of a]
    unfolding sextets.simps Let_def octets.simps digits_64 by simp
qed simp

lemma those_map_Some: "\<forall>x \<in> set xs. f x = Some (g x) \<Longrightarrow> those (map f xs) = Some (map g xs)"
  by (induction xs) auto

lemma Decode_Encode [simp]: "DecodeString (EncodeToString bs) = Inr bs"
proof -
  have "filter (\<lambda>c. c \<notin> {CHR 0x0A, CHR 0x0D}) (EncodeToString bs) = EncodeToString bs"
    unfolding filter_id_conv EncodeToString_def using b64_char_range sextets_range by fastforce
  moreover have "those (map b64_value (EncodeToString bs)) = Some (sextets bs)"
    using those_map_Some [of "sextets bs" "\<lambda>x. b64_value (b64_char x)" id] sextets_range [of _ bs]
    by (simp add: EncodeToString_def comp_def)
  ultimately show ?thesis by (simp add: DecodeString_def)
qed

lemma Encode_no_dot [simp]: "CHR ''.'' \<notin> set (EncodeToString bs)"
  unfolding EncodeToString_def using b64_char_range sextets_range by fastforce

end
