(* ===== verification/AuthToken.thy ===== *)
theory AuthToken
  imports Http Base64 Outbox
begin

text \<open>
  Service tokens, \<^verbatim>\<open>internal/authtoken\<close>: HS256 tokens signed with a shared secret, the middleware of the REST
  API (\<^verbatim>\<open>middleware.go\<close>) and the interceptor of the gRPC API (\<^verbatim>\<open>grpc_interceptor.go\<close>).
\<close>

section \<open>Tokens\<close>

text \<open>\<^verbatim>\<open>Unix\<close> is the number of whole seconds since 1970.\<close>

definition Unix :: "time \<Rightarrow> int" where
  "Unix t = t div 10 ^ 9 - 62135596800"

record Claims =
  cSub :: string
  cIat :: int
  cExp :: int

definition claims_fields :: "Claims fields" where
  "claims_fields =
     [(''sub'', into_string (\<lambda>x c. c\<lparr>cSub := x\<rparr>)),
      (''iat'', into_int (\<lambda>x c. c\<lparr>cIat := x\<rparr>)),
      (''exp'', into_int (\<lambda>x c. c\<lparr>cExp := x\<rparr>))]"

definition no_claims :: Claims where
  "no_claims = \<lparr>cSub = [], cIat = 0, cExp = 0\<rparr>"

text \<open>\<^verbatim>\<open>json.Marshal\<close> of the claims, and of the header, a map whose keys it sorts.\<close>

definition Marshal_claims :: "Claims \<Rightarrow> string" where
  "Marshal_claims c =
     json_object [(''sub'', json_quote (cSub c)), (''iat'', show_int (cIat c)), (''exp'', show_int (cExp c))]"

definition Marshal_header :: "(string, string) gomap \<Rightarrow> string" where
  "Marshal_header h =
     json_object (map (\<lambda>(k, v). (k, json_quote v)) (sort_Slice (\<lambda>(k, _) (l, _). k < l) h))"

definition encode :: "bytes \<Rightarrow> string" where
  "encode b = EncodeToString b"

definition decode :: "string \<Rightarrow> bytes res" where
  "decode s = DecodeString s"

definition mac :: "string \<Rightarrow> string \<Rightarrow> string" where
  "mac secret m = encode (hmac_sha256 (string_bytes secret) (string_bytes m))"

definition sign :: "(string, string) gomap \<Rightarrow> Claims \<Rightarrow> string \<Rightarrow> string res" where
  "sign header claims secret =
     (let head = encode (string_bytes (Marshal_header header));
          bdy = encode (string_bytes (Marshal_claims claims));
          sig = mac secret (head @ ''.'' @ bdy)
      in Inr (head @ ''.'' @ bdy @ ''.'' @ sig))"

definition verify :: "string \<Rightarrow> string \<Rightarrow> Claims res" where
  "verify token secret =
     (case Split (CHR ''.'') token of
        [p0, p1, p2] \<Rightarrow>
          (let expected = mac secret (p0 @ ''.'' @ p1)
           in if expected \<noteq> p2 then Inl (ErrText ''invalid signature'')
              else (case decode p1 of
                 Inl e \<Rightarrow> Inl (ErrWrap ''decode payload'' e)
               | Inr bs \<Rightarrow>
                   (case Unmarshal_json (bytes_string bs) of
                      Inl e \<Rightarrow> Inl (ErrWrap ''parse payload'' e)
                    | Inr v \<Rightarrow>
                        (case into_struct claims_fields no_claims v of
                           Inl e \<Rightarrow> Inl (ErrWrap ''parse payload'' e)
                         | Inr c \<Rightarrow> Inr c))))
      | _ \<Rightarrow> Inl (ErrText ''malformed token''))"

definition Issue :: "string \<Rightarrow> string \<Rightarrow> time \<Rightarrow> string res" where
  "Issue serviceName secret t =
     (if secret = [] then Inl (ErrText ''authtoken: secret is required to issue a token'')
      else sign [(''alg'', ''HS256''), (''typ'', ''JWT'')]
             \<lparr>cSub = serviceName, cIat = Unix t, cExp = Unix (t + 24 * 3600 * 10 ^ 9)\<rparr> secret)"

section \<open>Who may call\<close>

text \<open>\<^verbatim>\<open>SecretFromEnv\<close>: the secret and whether authentication is bypassed; \<open>None\<close> when the process exits.\<close>

definition SecretFromEnv :: "(string \<Rightarrow> string) \<Rightarrow> bool \<Rightarrow> (string \<times> bool) option" where
  "SecretFromEnv env testing =
     (let s = env ''SERVICE_TOKEN_SECRET''
      in if s \<noteq> [] then Some (s, False)
         else if env ''DEV_MODE'' = ''1'' \<or> testing then Some ([], True)
         else None)"

definition skipPaths :: "string \<Rightarrow> bool" where
  "skipPaths p = (p \<in> {''/healthz'', ''/readyz'', ''/metrics''})"

definition writeUnauthorized :: "goerr \<Rightarrow> response" where
  "writeUnauthorized e = \<lparr>rsStatus = StatusUnauthorized, rsBody = BUnauthorized e\<rparr>"

definition Middleware :: "string \<Rightarrow> bool \<Rightarrow> handler \<Rightarrow> handler" where
  "Middleware secret bypass h r w =
     (if bypass \<or> skipPaths (rPath r) then h r w
      else (let auth = rHeader r ''Authorization''
            in if \<not> HasPrefix auth ''Bearer '' then
                 (writeUnauthorized (ErrText ''missing or malformed Authorization header''), w)
               else (case verify (TrimPrefix auth ''Bearer '') secret of
                  Inl e \<Rightarrow> (writeUnauthorized e, w)
                | Inr claims \<Rightarrow>
                    if Unix (now w) > cExp claims then (writeUnauthorized (ErrText ''token expired''), w)
                    else h r w)))"

text \<open>gRPC: the metadata of a call gives the values of a key; \<open>None\<close> when the call carries no metadata.\<close>

datatype grpc_code = InvalidArgument | NotFound | Internal | Unauthenticated | Unimplemented

type_synonym 'a grpc_res = "(grpc_code \<times> goerr) + 'a"
type_synonym metadata = "(string \<Rightarrow> string list) option"
type_synonym 'a interceptor = "metadata \<Rightarrow> string \<Rightarrow> (world \<Rightarrow> 'a grpc_res \<times> world) \<Rightarrow> world \<Rightarrow> 'a grpc_res \<times> world"

definition grpcSkipMethods :: "string \<Rightarrow> bool" where
  "grpcSkipMethods m =
     (m \<in> {''/grpc.health.v1.Health/Check'', ''/grpc.reflection.v1alpha.ServerReflectionInfo'',
           ''/grpc.reflection.v1.ServerReflectionInfo''})"

definition grpc_token :: "(string \<Rightarrow> string list) \<Rightarrow> string" where
  "grpc_token md =
     (let token = (case md ''authorization'' of [] \<Rightarrow> [] | v # _ \<Rightarrow> TrimPrefix v ''Bearer '')
      in if token = [] then (case md ''x-service-token'' of [] \<Rightarrow> [] | v # _ \<Rightarrow> v) else token)"

definition GRPCUnaryInterceptor :: "string \<Rightarrow> bool \<Rightarrow> 'a interceptor" where
  "GRPCUnaryInterceptor secret bypass md fullMethod handler w =
     (if bypass \<or> grpcSkipMethods fullMethod then handler w
      else (case md of
         None \<Rightarrow> (Inl (Unauthenticated, ErrText ''missing metadata''), w)
       | Some md \<Rightarrow>
           (let token = grpc_token md
            in if token = [] then
                 (Inl (Unauthenticated, ErrText ''missing or malformed Authorization metadata''), w)
               else (case verify token secret of
                  Inl e \<Rightarrow> (Inl (Unauthenticated, e), w)
                | Inr claims \<Rightarrow>
                    if Unix (now w) > cExp claims then (Inl (Unauthenticated, ErrText ''token expired''), w)
                    else handler w))))"

section \<open>What a token proves\<close>

lemma Split_nonempty: "Split sep s \<noteq> []"
  by (cases s) (auto split: list.splits)

lemma Split_parts: "Split sep s = p # ps \<Longrightarrow> s = p @ concat (map (\<lambda>q. sep # q) ps)"
proof (induction s arbitrary: p ps)
  case (Cons c s)
  obtain q qs where q: "Split sep s = q # qs" using Split_nonempty [of sep s] by (cases "Split sep s") auto
  have "p # ps = (if c = sep then [] # q # qs else (c # q) # qs)" using Cons.prems by (cases "c = sep") (simp_all add: q)
  then show ?case by (subst Cons.IH [OF q]) (simp split: if_splits)
qed simp

lemma verify_signed:
  assumes "verify token secret = Inr c"
  shows "\<exists>head bdy. token = head @ ''.'' @ bdy @ ''.'' @ mac secret (head @ ''.'' @ bdy)"
proof -
  obtain p0 p1 p2 where p: "Split (CHR ''.'') token = [p0, p1, p2]" "mac secret (p0 @ ''.'' @ p1) = p2"
    using assms by (auto simp: verify_def Let_def split: list.splits if_splits)
  have "token = p0 @ ''.'' @ p1 @ ''.'' @ mac secret (p0 @ ''.'' @ p1)"
    using Split_parts [OF p(1)] p(2) by simp
  then show ?thesis by blast
qed

lemma Marshal_claims_decode:
  assumes "ascii (cSub c)" and "int64_range (cIat c)" and "int64_range (cExp c)"
  shows "Unmarshal_json (Marshal_claims c)
      = Inr (JObj [(''sub'', JStr (cSub c)), (''iat'', JNum (show_int (cIat c))), (''exp'', JNum (show_int (cExp c)))])"
    and "into_struct claims_fields no_claims
      (JObj [(''sub'', JStr (cSub c)), (''iat'', JNum (show_int (cIat c))), (''exp'', JNum (show_int (cExp c)))]) = Inr c"
proof -
  have "ascii ''sub''" "ascii ''iat''" "ascii ''exp''" by (simp_all add: ascii_def code_def)
  then show "Unmarshal_json (Marshal_claims c)
      = Inr (JObj [(''sub'', JStr (cSub c)), (''iat'', JNum (show_int (cIat c))), (''exp'', JNum (show_int (cExp c)))])"
    using Unmarshal_object [of "[(''sub'', json_quote (cSub c), JStr (cSub c)),
        (''iat'', show_int (cIat c), JNum (show_int (cIat c))), (''exp'', show_int (cExp c), JNum (show_int (cExp c)))]"]
      assms(1) encodes_quote encodes_int
    by (simp add: Marshal_claims_def)
  show "into_struct claims_fields no_claims
      (JObj [(''sub'', JStr (cSub c)), (''iat'', JNum (show_int (cIat c))), (''exp'', JNum (show_int (cExp c)))]) = Inr c"
    using assms(2,3)
    by (simp add: into_struct_def find_field_def claims_fields_def into_string_def into_int_def Atoi_def no_claims_def)
qed

lemma verify_sign:
  assumes "ascii (cSub c)" and "int64_range (cIat c)" and "int64_range (cExp c)"
    and "sign header c secret = Inr token"
  shows "verify token secret = Inr c"
  using assms(4) Marshal_claims_decode [OF assms(1-3)]
  by (auto simp: sign_def verify_def encode_def decode_def mac_def Let_def Split_append Split_no_sep)

section \<open>Both gates admit the same callers\<close>

definition token_valid :: "string \<Rightarrow> time \<Rightarrow> string \<Rightarrow> bool" where
  "token_valid secret t token = (case verify token secret of Inl _ \<Rightarrow> False | Inr c \<Rightarrow> Unix t \<le> cExp c)"

lemma token_validE:
  assumes "token_valid secret t token"
  obtains c where "verify token secret = Inr c" "Unix t \<le> cExp c"
  using assms by (auto simp: token_valid_def split: sum.splits)

definition rest_admits :: "string \<Rightarrow> bool \<Rightarrow> request \<Rightarrow> world \<Rightarrow> bool" where
  "rest_admits secret bypass r w =
     (bypass \<or> skipPaths (rPath r)
      \<or> (\<exists>token. rHeader r ''Authorization'' = ''Bearer '' @ token \<and> token_valid secret (now w) token))"

definition grpc_admits :: "string \<Rightarrow> bool \<Rightarrow> metadata \<times> string \<Rightarrow> world \<Rightarrow> bool" where
  "grpc_admits secret bypass c w =
     (bypass \<or> grpcSkipMethods (snd c)
      \<or> (\<exists>md. fst c = Some md \<and> grpc_token md \<noteq> [] \<and> token_valid secret (now w) (grpc_token md)))"

text \<open>A gate runs the handler for an admitted call; for any other it answers itself and changes nothing.\<close>

locale auth_gate =
  fixes gate :: "'q \<Rightarrow> (world \<Rightarrow> 'r \<times> world) \<Rightarrow> world \<Rightarrow> 'r \<times> world"
    and admits :: "'q \<Rightarrow> world \<Rightarrow> bool"
  assumes admit: "admits q w \<Longrightarrow> gate q h w = h w"
    and refuse: "\<not> admits q w \<Longrightarrow> gate q h w = gate q h' w \<and> snd (gate q h w) = w"
begin

lemma change_admitted: "snd (gate q h w) \<noteq> w \<Longrightarrow> admits q w"
  using refuse by blast

lemma gate_outcome: "gate q h w = h w \<or> snd (gate q h w) = w"
  using admit refuse by blast

end

lemma HasPrefix_append: "HasPrefix s p \<longleftrightarrow> (\<exists>t. s = p @ t)"
  by (metis HasPrefix_def append_eq_conv_conj append_take_drop_id)

lemma TrimPrefix_append [simp]: "TrimPrefix (p @ t) p = t"
  by (simp add: TrimPrefix_def HasPrefix_def)

lemma bearer: "HasPrefix (''Bearer '' @ t) ''Bearer ''" "TrimPrefix (''Bearer '' @ t) ''Bearer '' = t"
  by (simp_all only: HasPrefix_append TrimPrefix_append) blast

lemmas bearer_simps [simp] = bearer [simplified]

interpretation rest_gate: auth_gate "\<lambda>r h. Middleware secret bypass (\<lambda>_. h) r" "rest_admits secret bypass"
  for secret bypass
proof unfold_locales
  fix r w and h h' :: "world \<Rightarrow> response \<times> world"
  show "rest_admits secret bypass r w \<Longrightarrow> Middleware secret bypass (\<lambda>_. h) r w = h w"
    by (auto simp: rest_admits_def Middleware_def Let_def elim!: token_validE)
  show "\<not> rest_admits secret bypass r w \<Longrightarrow> Middleware secret bypass (\<lambda>_. h) r w = Middleware secret bypass (\<lambda>_. h') r w
      \<and> snd (Middleware secret bypass (\<lambda>_. h) r w) = w"
    by (auto simp: rest_admits_def Middleware_def token_valid_def HasPrefix_append Let_def split: sum.splits)
qed

interpretation grpc_gate: auth_gate "\<lambda>c. GRPCUnaryInterceptor secret bypass (fst c) (snd c)" "grpc_admits secret bypass"
  for secret bypass
proof unfold_locales
  fix c w and h h' :: "world \<Rightarrow> 'a grpc_res \<times> world"
  show "grpc_admits secret bypass c w \<Longrightarrow> GRPCUnaryInterceptor secret bypass (fst c) (snd c) h w = h w"
    by (auto simp: grpc_admits_def GRPCUnaryInterceptor_def Let_def elim!: token_validE)
  show "\<not> grpc_admits secret bypass c w \<Longrightarrow>
      GRPCUnaryInterceptor secret bypass (fst c) (snd c) h w = GRPCUnaryInterceptor secret bypass (fst c) (snd c) h' w
      \<and> snd (GRPCUnaryInterceptor secret bypass (fst c) (snd c) h w) = w"
    by (cases "fst c") (auto simp: grpc_admits_def GRPCUnaryInterceptor_def token_valid_def Let_def split: sum.splits)
qed

lemma Middleware_const: "Middleware secret bypass h r = Middleware secret bypass (\<lambda>_. h r) r"
  by (rule ext) (simp add: Middleware_def)

lemma Issue_ok: "secret \<noteq> [] \<Longrightarrow> is_ok (Issue name secret t)"
  by (simp add: Issue_def sign_def Let_def)

lemma Unix_day: "Unix (t + 86400000000000) = Unix t + 86400"
proof -
  have "(t + 86400000000000) div 10 ^ 9 = t div 10 ^ 9 + 86400"
    using div_mult_self1 [of "10 ^ 9" t 86400] by simp
  then show ?thesis by (simp add: Unix_def)
qed

lemma issued_claims:
  assumes "ascii name" and "0 \<le> t" and "t < 2 ^ 62 * 10 ^ 9" and "Issue name secret t = Inr token"
  shows "token \<noteq> [] \<and> (\<exists>c. verify token secret = Inr c \<and> cExp c = Unix t + 86400)"
proof -
  let ?c = "\<lparr>cSub = name, cIat = Unix t, cExp = Unix t + 86400\<rparr>"
  have "0 \<le> t div 10 ^ 9" "t div 10 ^ 9 < 2 ^ 62"
    using assms(2,3) by (simp_all add: pos_imp_zdiv_nonneg_iff div_less_iff_less_mult)
  then have r: "int64_range (Unix t)" "int64_range (Unix t + 86400)" by (simp_all add: Unix_def int64_range_def)
  obtain header where "sign header ?c secret = Inr token"
    using assms(4) by (auto simp: Issue_def Unix_day split: if_splits)
  then have "verify token secret = Inr ?c"
    using verify_sign [of ?c header secret token] assms(1) r by simp
  moreover have "token \<noteq> []" using assms(4) by (auto simp: Issue_def sign_def Let_def split: if_splits)
  ultimately show ?thesis by auto
qed

text \<open>
  C15: A token issued at time \<open>t\<close> opens both APIs for 24 hours and not longer: as long as at most 86400
  seconds have passed the middleware runs the handler and so does the gRPC interceptor, whichever of the
  two metadata keys carries the token; later both refuse and change nothing.
\<close>

theorem token_lifetime:
  assumes "Issue name secret t = Inr token" and "ascii name" and "0 \<le> t" and "t < 2 ^ 62 * 10 ^ 9"
    and "rHeader r ''Authorization'' = ''Bearer '' @ token" and "\<not> skipPaths (rPath r)"
    and "md ''authorization'' = [''Bearer '' @ token] \<or> md ''authorization'' = [] \<and> md ''x-service-token'' = [token]"
    and "\<not> grpcSkipMethods m"
  shows "Middleware secret False h r w
        = (if Unix (now w) \<le> Unix t + 86400 then h r w else (writeUnauthorized (ErrText ''token expired''), w))
      \<and> GRPCUnaryInterceptor secret False (Some md) m g w
        = (if Unix (now w) \<le> Unix t + 86400 then g w else (Inl (Unauthenticated, ErrText ''token expired''), w))"
proof -
  obtain c where c: "verify token secret = Inr c" "cExp c = Unix t + 86400" and ne: "token \<noteq> []"
    using issued_claims [OF assms(2-4,1)] by blast
  have md: "grpc_token md = token" using assms(7) ne by (auto simp: grpc_token_def)
  show ?thesis
    using assms(5,6,8) c ne by (simp add: Middleware_def GRPCUnaryInterceptor_def md Let_def)
qed

theorem token_lifetime_witness:
  "\<exists>token. Issue ''gateway'' ''s'' 0 = Inr token
     \<and> (let r = \<lparr>rMethod = ''GET'', rPath = ''/v1/wallets'', rHeader = (\<lambda>_. ''Bearer '' @ token), rQuery = (\<lambda>_. []),
                 rParam = [], rBody = []\<rparr>
        in Middleware ''s'' False (\<lambda>_ w. (writeJSON 200 (BMap []), w)) r start_world = (writeJSON 200 (BMap []), start_world)
           \<and> rsStatus (fst (Middleware ''s'' False (\<lambda>_ w. (writeJSON 200 (BMap []), w)) r
                (start_world\<lparr>now := 86401 * 10 ^ 9\<rparr>))) = 401)"
proof -
  obtain token where token: "Issue ''gateway'' ''s'' 0 = Inr token" using Issue_ok [of "''s''" "''gateway''" 0] by (auto elim: is_okE)
  have a: "ascii ''gateway''" by (simp add: ascii_def code_def)
  let ?r = "\<lparr>rMethod = ''GET'', rPath = ''/v1/wallets'', rHeader = (\<lambda>_. ''Bearer '' @ token), rQuery = (\<lambda>_. []),
                 rParam = [], rBody = []\<rparr>"
  have l: "Middleware ''s'' False (\<lambda>_ w. (writeJSON 200 (BMap []), w)) ?r w
      = (if Unix (now w) \<le> Unix 0 + 86400 then (writeJSON 200 (BMap []), w)
         else (writeUnauthorized (ErrText ''token expired''), w))" for w
    using token_lifetime [OF token a, of ?r "\<lambda>k. [''Bearer '' @ token]" "''/x''" "\<lambda>_ w. (writeJSON 200 (BMap []), w)" w
        "\<lambda>w. (Inr (), w)"]
    by (simp add: skipPaths_def grpcSkipMethods_def)
  show ?thesis
    unfolding Let_def
    by (rule exI [of _ token], intro conjI, rule token)
       (simp_all only: l, simp_all add: Unix_def writeUnauthorized_def)
qed

end
