(* ===== verification/Rest.thy ===== *)
theory Rest
  imports AuthToken Wallets Saga Funding Balance
begin

text \<open>
  The REST API, \<^verbatim>\<open>internal/api/rest/rest.go\<close>: one handler per endpoint over the services, and the routing
  table behind the authentication middleware. \<^verbatim>\<open>uuid.Parse\<close> and the router are third-party code: the
  parser is a field of the dependencies and the router a record of what it matches.
\<close>

section \<open>Dependencies\<close>

text \<open>The outcome of a readiness probe is a parameter; \<open>None\<close> is a nil \<^verbatim>\<open>Check\<close>. \<open>dNonce\<close>: the nonce service is wired.\<close>

record ReadinessCheck =
  rcName :: string
  rcCheck :: "unit res option"

record rest_deps =
  dWallets :: Service
  dFunding :: funding_service
  dWithdrawal :: saga_env
  dNonce :: bool
  dReadiness :: "ReadinessCheck list"
  dParse :: "string \<Rightarrow> uuid res"
  dOthers :: "world \<Rightarrow> world"

section \<open>Health\<close>

definition healthz :: handler where
  "healthz r w = (writeJSON StatusOK (BMap [(''status'', ''ok'')]), w)"

fun probe :: "ReadinessCheck list \<Rightarrow> (string, string) gomap \<Rightarrow> int \<Rightarrow> (string, string) gomap \<times> int" where
  "probe [] results failed = (results, failed)"
| "probe (c # cs) results failed =
     (case rcCheck c of
        None \<Rightarrow> probe cs (AList.update (rcName c) ''ok'' results) failed
      | Some (Inl _) \<Rightarrow> probe cs (AList.update (rcName c) ''down'' results) (failed + 1)
      | Some (Inr _) \<Rightarrow> probe cs (AList.update (rcName c) ''ok'' results) failed)"

definition readyz :: "rest_deps \<Rightarrow> handler" where
  "readyz D r w =
     (case probe (dReadiness D) [] 0 of
        (results, failed) \<Rightarrow>
          (let n = int (length (dReadiness D))
           in if failed = n \<and> n > 0 then (writeJSON StatusServiceUnavailable (BReady ''not ready'' results), w)
              else if failed > 0 then (writeJSON StatusOK (BReady ''degraded'' results), w)
              else (writeJSON StatusOK (BReady ''ready'' results), w)))"

section \<open>Wallets\<close>

definition createWalletReq_fields :: "CreateRequest fields" where
  "createWalletReq_fields =
     [(''chain'', into_string (\<lambda>x q. q\<lparr>crChain := x\<rparr>)), (''type'', into_string (\<lambda>x q. q\<lparr>crType := x\<rparr>)),
      (''label'', into_string (\<lambda>x q. q\<lparr>crLabel := x\<rparr>)), (''key_id'', into_string (\<lambda>x q. q\<lparr>crKeyID := x\<rparr>))]"

definition createWallet :: "rest_deps \<Rightarrow> handler" where
  "createWallet D r w =
     (case decodeJSON createWalletReq_fields \<lparr>crChain = [], crType = [], crLabel = [], crKeyID = []\<rparr> r of
        Inl e \<Rightarrow> (writeError StatusBadRequest e, w)
      | Inr req \<Rightarrow>
          (case Create (dWallets D) req w of
             (Inl e, w) \<Rightarrow> (writeError StatusBadRequest e, w)
           | (Inr wl, w) \<Rightarrow> (writeJSON StatusCreated (BWallet wl), w)))"

definition getWallet :: "rest_deps \<Rightarrow> handler" where
  "getWallet D r w =
     (case parseID (dParse D) r of
        Inl e \<Rightarrow> (writeError StatusBadRequest e, w)
      | Inr i \<Rightarrow>
          (case Get i w of
             Inl e \<Rightarrow>
               if errors_Is e ErrNoRows then (writeError StatusNotFound (ErrText ''wallet not found''), w)
               else (writeError StatusInternalServerError e, w)
           | Inr wl \<Rightarrow> (writeJSON StatusOK (BWallet wl), w)))"

definition listWallets :: "rest_deps \<Rightarrow> handler" where
  "listWallets D r w =
     (writeJSON StatusOK (BWallets (wallet_List (rQuery r ''chain'') (rQuery r ''type'') (rQuery r ''state'') w)), w)"

definition getAddresses :: "rest_deps \<Rightarrow> handler" where
  "getAddresses D r w =
     (case parseID (dParse D) r of
        Inl e \<Rightarrow> (writeError StatusBadRequest e, w)
      | Inr i \<Rightarrow>
          if rQuery r ''derive'' = ''true'' then
            (case DeriveAddress (dOthers D) (dWallets D) i False w of
               (Inl e, w) \<Rightarrow>
                 if errors_Is e ErrWalletRetired then (writeError StatusConflict e, w)
                 else (writeError StatusInternalServerError e, w)
             | (Inr addr, w) \<Rightarrow> (writeJSON StatusOK (BAddress addr), w))
          else (writeJSON StatusOK (BAddresses (wallet_ListAddresses i w)), w))"

definition deriveAddress :: "rest_deps \<Rightarrow> handler" where
  "deriveAddress D r w =
     (case parseID (dParse D) r of
        Inl e \<Rightarrow> (writeError StatusBadRequest e, w)
      | Inr i \<Rightarrow>
          (case DeriveAddress (dOthers D) (dWallets D) i True w of
             (Inl e, w) \<Rightarrow>
               if errors_Is e ErrWalletRetired then (writeError StatusConflict e, w)
               else (writeError StatusInternalServerError e, w)
           | (Inr addr, w) \<Rightarrow> (writeJSON StatusCreated (BAddress addr), w)))"

definition balance_resp :: "Balance \<Rightarrow> balanceResp" where
  "balance_resp b = \<lparr>brAsset = bAsset b, brConfirmed = bConfirmed b, brPending = bPending b, brLocked = bLocked b\<rparr>"

definition getBalances :: "rest_deps \<Rightarrow> handler" where
  "getBalances D r w =
     (case parseID (dParse D) r of
        Inl e \<Rightarrow> (writeError StatusBadRequest e, w)
      | Inr i \<Rightarrow> (writeJSON StatusOK (BBalances (map balance_resp (GetBalances i w))), w))"

section \<open>Funding and nonces\<close>

record fundingReq =
  fqAsset :: string
  fqAmount :: string
  fqReason :: string

definition fundingReq_fields :: "fundingReq fields" where
  "fundingReq_fields =
     [(''asset'', into_string (\<lambda>x q. q\<lparr>fqAsset := x\<rparr>)), (''amount'', into_string (\<lambda>x q. q\<lparr>fqAmount := x\<rparr>)),
      (''reason'', into_string (\<lambda>x q. q\<lparr>fqReason := x\<rparr>))]"

definition createFundingRequest :: "rest_deps \<Rightarrow> handler" where
  "createFundingRequest D r w =
     (case parseID (dParse D) r of
        Inl e \<Rightarrow> (writeError StatusBadRequest e, w)
      | Inr i \<Rightarrow>
     (case decodeJSON fundingReq_fields \<lparr>fqAsset = [], fqAmount = [], fqReason = []\<rparr> r of
        Inl e \<Rightarrow> (writeError StatusBadRequest e, w)
      | Inr req \<Rightarrow>
     (case ManualRequest (dFunding D) i (fqAsset req) (fqAmount req) (fqReason req) w of
        (Inl e, w) \<Rightarrow>
          if errors_Is e ErrDuplicateFunding then (writeError StatusConflict e, w)
          else if errors_Is e ErrWalletRetired then (writeError StatusConflict e, w)
          else (writeError StatusInternalServerError e, w)
      | (Inr _, w) \<Rightarrow> (writeJSON StatusCreated (BMap [(''status'', ''requested'')]), w))))"

definition listFundingRequests :: "rest_deps \<Rightarrow> handler" where
  "listFundingRequests D r w =
     (case parseID (dParse D) r of
        Inl e \<Rightarrow> (writeError StatusBadRequest e, w)
      | Inr i \<Rightarrow> (writeJSON StatusOK (BFundingRequests (ListFundingRequests i (rQuery r ''state'') (db w))), w))"

definition allocateNonceReq_fields :: "string fields" where
  "allocateNonceReq_fields = [(''chain'', into_string (\<lambda>x _. x))]"

definition allocateNonce :: "rest_deps \<Rightarrow> handler" where
  "allocateNonce D r w =
     (case parseID (dParse D) r of
        Inl e \<Rightarrow> (writeError StatusBadRequest e, w)
      | Inr i \<Rightarrow>
          if \<not> dNonce D then (writeError StatusServiceUnavailable (ErrText ''nonce service unavailable''), w)
          else (case decodeJSON allocateNonceReq_fields [] r of
             Inl e \<Rightarrow> (writeError StatusBadRequest e, w)
           | Inr ch \<Rightarrow>
               if ch = [] then (writeError StatusBadRequest (ErrText ''chain is required''), w)
               else (case ReserveNonce (dOthers D) i ch w of
                  (Inl e, w) \<Rightarrow> (writeError StatusInternalServerError e, w)
                | (Inr n, w) \<Rightarrow> (writeJSON StatusOK (BNonce n), w))))"

section \<open>Withdrawals\<close>

definition createWithdrawalReq_fields :: "WithdrawalCreate fields" where
  "createWithdrawalReq_fields =
     [(''wallet_id'', into_string (\<lambda>x q. q\<lparr>wcWalletID := x\<rparr>)),
      (''to_address'', into_string (\<lambda>x q. q\<lparr>wcToAddress := x\<rparr>)),
      (''asset'', into_string (\<lambda>x q. q\<lparr>wcAsset := x\<rparr>)), (''amount'', into_string (\<lambda>x q. q\<lparr>wcAmount := x\<rparr>))]"

definition decode_withdrawal :: "request \<Rightarrow> WithdrawalCreate res" where
  "decode_withdrawal r =
     decodeJSON createWithdrawalReq_fields \<lparr>wcWalletID = [], wcToAddress = [], wcAsset = [], wcAmount = []\<rparr> r"

definition createWithdrawal :: "rest_deps \<Rightarrow> handler" where
  "createWithdrawal D r w =
     (case decode_withdrawal r of
        Inl e \<Rightarrow> (writeError StatusBadRequest e, w)
      | Inr req \<Rightarrow>
     (case dParse D (wcWalletID req) of
        Inl e \<Rightarrow> (writeError StatusBadRequest (ErrText ''invalid wallet_id''), w)
      | Inr wid \<Rightarrow>
     (case Withdrawal_Create (dWithdrawal D) (req\<lparr>wcWalletID := wid\<rparr>) w of
        (Inl e, w) \<Rightarrow>
          if errors_Is e ErrDuplicateWithdrawal then (writeError StatusConflict e, w)
          else (writeError StatusInternalServerError e, w)
      | (Inr wr, w) \<Rightarrow> (writeJSON StatusCreated (BWithdrawal wr), w))))"

definition getWithdrawal :: "rest_deps \<Rightarrow> handler" where
  "getWithdrawal D r w =
     (case dParse D (rParam r) of
        Inl e \<Rightarrow> (writeError StatusBadRequest e, w)
      | Inr i \<Rightarrow>
          (case GetWithdrawal i (db w) of
             Inl e \<Rightarrow>
               if errors_Is e ErrNoRows then (writeError StatusNotFound (ErrText ''withdrawal not found''), w)
               else (writeError StatusInternalServerError e, w)
           | Inr wr \<Rightarrow> (writeJSON StatusOK (BWithdrawal wr), w)))"

definition listWithdrawals :: "rest_deps \<Rightarrow> handler" where
  "listWithdrawals D r w =
     (let wids = rQuery r ''wallet_id''
      in case (if wids \<noteq> [] then dParse D wids else Inr uuid_Nil) of
           Inl e \<Rightarrow> (writeError StatusBadRequest (ErrText ''invalid wallet_id''), w)
         | Inr walletID \<Rightarrow>
             (writeJSON StatusOK (BWithdrawals (ListWithdrawals walletID (rQuery r ''state'') (db w))), w))"

section \<open>Routes\<close>

definition routes :: "rest_deps \<Rightarrow> (string \<times> string \<times> handler) list" where
  "routes D =
     [(''GET'', ''/healthz'', healthz),
      (''GET'', ''/readyz'', readyz D),
      (''POST'', ''/v1/wallets'', createWallet D),
      (''GET'', ''/v1/wallets/{id}'', getWallet D),
      (''GET'', ''/v1/wallets'', listWallets D),
      (''GET'', ''/v1/wallets/{id}/addresses'', getAddresses D),
      (''POST'', ''/v1/wallets/{id}/addresses/derive'', deriveAddress D),
      (''GET'', ''/v1/wallets/{id}/balances'', getBalances D),
      (''POST'', ''/v1/wallets/{id}/funding-request'', createFundingRequest D),
      (''GET'', ''/v1/wallets/{id}/funding-requests'', listFundingRequests D),
      (''POST'', ''/v1/wallets/{id}/nonce/allocate'', allocateNonce D),
      (''POST'', ''/v1/withdrawals'', createWithdrawal D),
      (''GET'', ''/v1/withdrawals'', listWithdrawals D),
      (''GET'', ''/v1/withdrawals/{id}'', getWithdrawal D)]"

text \<open>
  The router: the value of the parameter \<^verbatim>\<open>id\<close> when a path matches a pattern, and its answer when no
  route matches. A path matches a pattern only if it starts with what precedes the pattern's parameter.
\<close>

record chi =
  chMatch :: "string \<Rightarrow> string \<Rightarrow> string option"
  chDefault :: "request \<Rightarrow> response"

definition chi_ok :: "chi \<Rightarrow> bool" where
  "chi_ok C = (\<forall>pat path. chMatch C pat path \<noteq> None \<longrightarrow> HasPrefix path (takeWhile (\<lambda>c. c \<noteq> CHR ''{'') pat))"

definition dispatch :: "chi \<Rightarrow> rest_deps \<Rightarrow> handler" where
  "dispatch C D r w =
     (case find (\<lambda>(m, pat, h). m = rMethod r \<and> chMatch C pat (rPath r) \<noteq> None) (routes D) of
        Some (m, pat, h) \<Rightarrow> h (r\<lparr>rParam := the (chMatch C pat (rPath r))\<rparr>) w
      | None \<Rightarrow> (chDefault C r, w))"

definition NewRouter :: "chi \<Rightarrow> rest_deps \<Rightarrow> string \<times> bool \<Rightarrow> handler" where
  "NewRouter C D auth = Middleware (fst auth) (snd auth) (dispatch C D)"

section \<open>Which requests can change the state\<close>

lemma reader_simps [simp]:
  "snd (healthz r w) = w" "snd (readyz D r w) = w" "snd (getWallet D r w) = w" "snd (listWallets D r w) = w"
  "snd (getBalances D r w) = w" "snd (listFundingRequests D r w) = w" "snd (getWithdrawal D r w) = w"
  "snd (listWithdrawals D r w) = w"
  by (simp_all add: healthz_def readyz_def getWallet_def listWallets_def getBalances_def listFundingRequests_def
      getWithdrawal_def listWithdrawals_def Let_def split: sum.split prod.split)

lemma getAddresses_reads: "rQuery r ''derive'' \<noteq> ''true'' \<Longrightarrow> snd (getAddresses D r w) = w"
  by (simp add: getAddresses_def split: sum.split)

lemma get_route:
  assumes "(''GET'', pat, h) \<in> set (routes D)" and "rQuery r ''derive'' \<noteq> ''true''"
  shows "snd (h r w) = w"
  using assms by (auto simp: routes_def getAddresses_reads)

lemma v1_route:
  assumes "(m, pat, h) \<in> set (routes D)" and "HasPrefix path (takeWhile (\<lambda>c. c \<noteq> CHR ''{'') pat)" and "skipPaths path"
  shows "snd (h r w) = w"
  using assms by (auto simp: routes_def skipPaths_def HasPrefix_def)

lemma dispatch_cases:
  assumes "snd (dispatch C D r w) \<noteq> w"
  obtains m pat h where "(m, pat, h) \<in> set (routes D)" "m = rMethod r" "chMatch C pat (rPath r) \<noteq> None"
    "snd (h (r\<lparr>rParam := the (chMatch C pat (rPath r))\<rparr>) w) \<noteq> w"
  using assms by (auto simp: dispatch_def split: option.splits dest!: find_SomeD)

lemma NewRouter_outcome: "NewRouter C D auth r w = dispatch C D r w \<or> snd (NewRouter C D auth r w) = w"
  using rest_gate.gate_outcome [of "fst auth" "snd auth" "dispatch C D r" r w]
  by (simp add: NewRouter_def Middleware_const [of _ _ "dispatch C D"])

lemma NewRouter_admits: "snd (NewRouter C D (secret, bypass) r w) \<noteq> w \<Longrightarrow> rest_admits secret bypass r w"
  using rest_gate.change_admitted [of secret bypass "dispatch C D r" r w]
  by (simp add: NewRouter_def Middleware_const [of _ _ "dispatch C D"])

section \<open>A sample service\<close>

definition sample_chi :: chi where
  "sample_chi = \<lparr>chMatch = (\<lambda>pat path. if pat = path then Some [] else None),
     chDefault = (\<lambda>_. writeError StatusNotFound (ErrText ''404 page not found''))\<rparr>"

definition sample_deps :: rest_deps where
  "sample_deps = \<lparr>dWallets = sample_service sample_keylib, dFunding = sample_funding (Inr ()), dWithdrawal = sample_env,
     dNonce = True, dReadiness = [], dParse = Inr, dOthers = (\<lambda>w. w)\<rparr>"

definition sample_body :: string where
  "sample_body = json_object
     [(''wallet_id'', json_quote ''w''), (''to_address'', json_quote sample_to), (''asset'', json_quote ''ETH''),
      (''amount'', json_quote ''5'')]"

definition sample_post :: "string \<Rightarrow> request" where
  "sample_post auth = \<lparr>rMethod = ''POST'', rPath = ''/v1/withdrawals'', rHeader = (\<lambda>_. auth), rQuery = (\<lambda>_. []),
     rParam = [], rBody = sample_body\<rparr>"

lemma sample_chi_ok: "chi_ok sample_chi"
proof -
  have "HasPrefix p (takeWhile P p)" for P and p :: string
    by (metis HasPrefix_append takeWhile_dropWhile_id)
  then show ?thesis by (auto simp: chi_ok_def sample_chi_def)
qed

lemma sample_decode: "rBody r = sample_body \<Longrightarrow> decode_withdrawal r = Inr sample_payout"
proof -
  have ascii: "ascii ''w''" "ascii sample_to" "ascii ''ETH''" "ascii ''5''" "ascii ''wallet_id''" "ascii ''to_address''"
    "ascii ''asset''" "ascii ''amount''"
    by (simp_all add: ascii_def code_def sample_to_def)
  have "Decode_json sample_body = Inr (JObj [(''wallet_id'', JStr ''w''), (''to_address'', JStr sample_to), (''asset'', JStr ''ETH''),
      (''amount'', JStr ''5'')])"
    using Decode_object [of "[(''wallet_id'', json_quote ''w'', JStr ''w''), (''to_address'', json_quote sample_to, JStr sample_to),
        (''asset'', json_quote ''ETH'', JStr ''ETH''), (''amount'', json_quote ''5'', JStr ''5'')]"] ascii
    by (simp add: sample_body_def encodes_quote)
  then show "rBody r = sample_body \<Longrightarrow> decode_withdrawal r = Inr sample_payout"
    by (simp add: decode_withdrawal_def decodeJSON_def into_struct_def find_field_def createWithdrawalReq_fields_def
        into_string_def sample_payout_def)
qed

lemma sample_created: "rBody r = sample_body \<Longrightarrow> createWithdrawal sample_deps r payout_start
    = (writeJSON StatusCreated (BWithdrawal payout_row), payout_created)"
  using sample_decode [of r] payout_created_eq(1)
  by (simp add: createWithdrawal_def sample_deps_def sample_payout_def)

lemma sample_routed: "dispatch sample_chi sample_deps (sample_post auth) payout_start
    = (writeJSON StatusCreated (BWithdrawal payout_row), payout_created)"
  using sample_created [of "sample_post auth"]
  by (simp add: dispatch_def sample_chi_def routes_def sample_post_def)

lemma payout_changed: "payout_created \<noteq> payout_start"
proof -
  have "withdrawals (db payout_start) = []" by (simp add: payout_start_def New_def)
  then show ?thesis using payout_created_eq(3) by (metis list.distinct(1))
qed

text \<open>
  C14: No request changes the state through the REST API without a valid token: when authentication is on and
  a request has any effect, its \<^verbatim>\<open>Authorization\<close> header is a bearer token whose signature is the HMAC of
  the rest of the token under the service secret, and the claims it carries have not expired.
\<close>

theorem rest_requires_token:
  assumes "chi_ok C" and "snd (NewRouter C D (secret, False) r w) \<noteq> w"
  shows "\<exists>head bdy c. rHeader r ''Authorization'' = ''Bearer '' @ head @ ''.'' @ bdy @ ''.'' @ mac secret (head @ ''.'' @ bdy)
    \<and> verify (head @ ''.'' @ bdy @ ''.'' @ mac secret (head @ ''.'' @ bdy)) secret = Inr c \<and> Unix (now w) \<le> cExp c"
proof -
  have "snd (dispatch C D r w) \<noteq> w" using assms(2) NewRouter_outcome [of C D "(secret, False)" r w] by auto
  then obtain m pat h where f: "(m, pat, h) \<in> set (routes D)" "chMatch C pat (rPath r) \<noteq> None"
    "snd (h (r\<lparr>rParam := the (chMatch C pat (rPath r))\<rparr>) w) \<noteq> w"
    by (rule dispatch_cases)
  have pre: "HasPrefix (rPath r) (takeWhile (\<lambda>c. c \<noteq> CHR ''{'') pat)"
    using assms(1) f(2) by (auto simp: chi_ok_def)
  have "\<not> skipPaths (rPath r)" using v1_route [OF f(1) pre] f(3) by blast
  then obtain token where token: "rHeader r ''Authorization'' = ''Bearer '' @ token" "token_valid secret (now w) token"
    using NewRouter_admits [OF assms(2)] by (auto simp: rest_admits_def)
  obtain c where c: "verify token secret = Inr c" "Unix (now w) \<le> cExp c" by (rule token_validE [OF token(2)])
  obtain head bdy where "token = head @ ''.'' @ bdy @ ''.'' @ mac secret (head @ ''.'' @ bdy)"
    using verify_signed [OF c(1)] by blast
  with token(1) c show ?thesis by blast
qed

theorem rest_requires_token_witness:
  "\<exists>token. snd (NewRouter sample_chi sample_deps (''s'', False) (sample_post (''Bearer '' @ token)) payout_start) \<noteq> payout_start
     \<and> (\<exists>head bdy. token = head @ ''.'' @ bdy @ ''.'' @ mac ''s'' (head @ ''.'' @ bdy))"
proof -
  obtain token where token: "Issue ''gateway'' ''s'' 0 = Inr token" using Issue_ok [of "''s''" "''gateway''" 0] by (auto elim: is_okE)
  obtain c where c: "verify token ''s'' = Inr c" "cExp c = Unix 0 + 86400"
    using issued_claims [OF _ _ _ token] by (auto simp: ascii_def code_def)
  let ?r = "sample_post (''Bearer '' @ token)"
  have "rest_admits ''s'' False ?r payout_start"
    using c by (auto simp: rest_admits_def sample_post_def token_valid_def payout_start_def Unix_def)
  from rest_gate.admit [OF this, of "dispatch sample_chi sample_deps ?r"]
  have ch: "snd (NewRouter sample_chi sample_deps (''s'', False) ?r payout_start) \<noteq> payout_start"
    using payout_changed sample_routed [of "''Bearer '' @ token"]
    by (simp add: NewRouter_def Middleware_const [of _ _ "dispatch sample_chi sample_deps"])
  have "\<exists>head bdy. token = head @ ''.'' @ bdy @ ''.'' @ mac ''s'' (head @ ''.'' @ bdy)"
    using rest_requires_token [OF sample_chi_ok ch] by (auto simp: sample_post_def)
  with ch show ?thesis by blast
qed

text \<open>
  C21: Reading is safe: a \<^verbatim>\<open>GET\<close> request leaves the state of the service as it is, whatever the router makes of
  its path, unless it asks for a derived address with \<^verbatim>\<open>derive=true\<close>.
\<close>

theorem rest_get_safe:
  assumes "rMethod r = ''GET''" and "rQuery r ''derive'' \<noteq> ''true''"
  shows "snd (NewRouter C D auth r w) = w"
proof (rule ccontr)
  assume ch: "snd (NewRouter C D auth r w) \<noteq> w"
  then have "snd (dispatch C D r w) \<noteq> w" using NewRouter_outcome [of C D auth r w] by auto
  then obtain m pat h where f: "(m, pat, h) \<in> set (routes D)" "m = rMethod r"
    "snd (h (r\<lparr>rParam := the (chMatch C pat (rPath r))\<rparr>) w) \<noteq> w"
    by (rule dispatch_cases)
  then show False using get_route [of pat h D "r\<lparr>rParam := the (chMatch C pat (rPath r))\<rparr>" w] assms by simp
qed

theorem rest_get_safe_witness:
  "snd (NewRouter sample_chi sample_deps ([], True) \<lparr>rMethod = ''GET'', rPath = ''/v1/wallets'', rHeader = (\<lambda>_. []),
     rQuery = (\<lambda>_. []), rParam = [], rBody = []\<rparr> payout_created) = payout_created"
  by (rule rest_get_safe) simp_all

lemma verdict_error: "apply_verdict dec err wr w = (Inl e, w') \<Longrightarrow> \<not> errors_Is e ErrDuplicateWithdrawal"
  by (auto simp: apply_verdict_def on_db_def UpdateWithdrawalState_def Let_def split: option.splits if_splits)

lemma Create_duplicate:
  assumes "Withdrawal_Create E req w = (Inl e, w')" and "errors_Is e ErrDuplicateWithdrawal"
  shows "get_bool (inflightWithdrawals (db w)) (withdrawalDedupKey (wcWalletID req) (wcToAddress req) (wcAmount req) (wcAsset req))"
proof (rule ccontr)
  assume no: "\<not> ?thesis"
  obtain dec err where p: "sPolicy E (check_request req) = (dec, err)" by fastforce
  show False
    using assms no verdict_error [of dec err]
    by (auto simp: Withdrawal_Create_def GetWallet_def NewUUID_def on_db_def CreateWithdrawal_def new_withdrawal_def Let_def p
        split: option.splits if_splits sum.splits)
qed

text \<open>
  C20: Creating a withdrawal over the API: the answer 201 comes with exactly one new withdrawal, the one in the body,
  which is whitelisted if the policy engine approves the decoded request and failed otherwise; any other answer is 400, 409 or
  500 and creates nothing, and 409 means that a withdrawal with the same wallet, address, amount and asset is in flight.
\<close>

theorem createWithdrawal_outcome:
  assumes "createWithdrawal D r w = (resp, w')"
  shows "(\<exists>q wid wr. rsStatus resp = 201 \<and> rsBody resp = BWithdrawal wr
        \<and> decode_withdrawal r = Inr q \<and> dParse D (wcWalletID q) = Inr wid
        \<and> wstate w (wrID wr) = None \<and> wstate w' = (wstate w)(wrID wr \<mapsto> wrState wr)
        \<and> wrState wr = (if approves (dWithdrawal D) (q\<lparr>wcWalletID := wid\<rparr>) then WithdrawalStateWhitelisted
                         else WithdrawalStateFailed))
    \<or> rsStatus resp \<in> {400, 500} \<and> wstate w' = wstate w
    \<or> rsStatus resp = 409 \<and> wstate w' = wstate w
        \<and> (\<exists>q wid. decode_withdrawal r = Inr q \<and> dParse D (wcWalletID q) = Inr wid
             \<and> get_bool (inflightWithdrawals (db w)) (withdrawalDedupKey wid (wcToAddress q) (wcAmount q) (wcAsset q)))"
proof (cases "\<exists>q wid. decode_withdrawal r = Inr q \<and> dParse D (wcWalletID q) = Inr wid")
  case False
  then show ?thesis using assms by (auto simp: createWithdrawal_def split: sum.splits)
next
  case True
  then obtain q wid where q: "decode_withdrawal r = Inr q" "dParse D (wcWalletID q) = Inr wid" by blast
  obtain rc w1 where c: "Withdrawal_Create (dWithdrawal D) (q\<lparr>wcWalletID := wid\<rparr>) w = (rc, w1)" by fastforce
  show ?thesis
  proof (cases rc)
    case (Inl e)
    have ws: "wstate w1 = wstate w" using Create_wstate [OF c] Inl by auto
    show ?thesis
    proof (cases "errors_Is e ErrDuplicateWithdrawal")
      case True
      then have "get_bool (inflightWithdrawals (db w)) (withdrawalDedupKey wid (wcToAddress q) (wcAmount q) (wcAsset q))"
        using Create_duplicate [OF c [unfolded Inl]] by simp
      moreover have "rsStatus resp = 409" "w' = w1"
        using assms c Inl q True by (auto simp: createWithdrawal_def)
      ultimately show ?thesis using ws q by blast
    next
      case False
      then have "rsStatus resp = 500" "w' = w1" using assms c Inl q by (auto simp: createWithdrawal_def)
      with ws show ?thesis by simp
    qed
  next
    case (Inr wr)
    have "rsStatus resp = 201" "rsBody resp = BWithdrawal wr" "w' = w1"
      using assms c Inr q by (auto simp: createWithdrawal_def)
    moreover have "wstate w (wrID wr) = None" "wstate w1 = (wstate w)(wrID wr \<mapsto> wrState wr)"
      "wrState wr = (if approves (dWithdrawal D) (q\<lparr>wcWalletID := wid\<rparr>) then WithdrawalStateWhitelisted else WithdrawalStateFailed)"
      using Create_wstate [OF c] Inr by auto
    ultimately show ?thesis using q by blast
  qed
qed

theorem createWithdrawal_outcome_witness:
  "\<exists>resp w'. createWithdrawal sample_deps (sample_post []) payout_start = (resp, w') \<and> rsStatus resp = 201
     \<and> (\<exists>wr. rsBody resp = BWithdrawal wr \<and> wstate w' = (wstate payout_start)(wrID wr \<mapsto> WithdrawalStateWhitelisted))"
proof -
  have c: "createWithdrawal sample_deps (sample_post []) payout_start = (writeJSON StatusCreated (BWithdrawal payout_row), payout_created)"
    by (rule sample_created) (simp add: sample_post_def)
  show ?thesis
    using createWithdrawal_outcome [OF c] c by (auto simp: sample_deps_def)
qed

end
