(* ===== verification/Grpc.thy ===== *)
theory Grpc
  imports AuthToken Saga Balance Funding
begin

text \<open>
  The gRPC API, \<^verbatim>\<open>internal/api/grpc/server.go\<close>: key lookups of the MPC signing service and the
  confirmation and reorg callbacks of the blockchain gateway. Messages are JSON texts. The gRPC library
  calls the handler registered for a method with the metadata of the call and the interceptor of the server.
\<close>

section \<open>Messages\<close>

record OnConfirmationRequest =
  ocTxHash :: string
  ocWalletID :: string
  ocAsset :: string
  ocAmount :: string
  ocConfirmations :: int
  ocBlockHeight :: int
  ocEventID :: string
  ocIsFinalized :: bool
  ocWithdrawalID :: string

record OnReorgRequest =
  orBlockHeight :: int
  orWalletID :: string
  orAsset :: string
  orEventID :: string
  orOutpoints :: "string list"
  orWithdrawalID :: string

definition ResolveKeyIDRequest_fields :: "string fields" where
  "ResolveKeyIDRequest_fields = [(''wallet_id'', into_string (\<lambda>x _. x))]"

definition OnConfirmationRequest_fields :: "OnConfirmationRequest fields" where
  "OnConfirmationRequest_fields =
     [(''tx_hash'', into_string (\<lambda>x q. q\<lparr>ocTxHash := x\<rparr>)),
      (''wallet_id'', into_string (\<lambda>x q. q\<lparr>ocWalletID := x\<rparr>)),
      (''asset'', into_string (\<lambda>x q. q\<lparr>ocAsset := x\<rparr>)),
      (''amount'', into_string (\<lambda>x q. q\<lparr>ocAmount := x\<rparr>)),
      (''confirmations'', into_int (\<lambda>x q. q\<lparr>ocConfirmations := x\<rparr>)),
      (''block_height'', into_int (\<lambda>x q. q\<lparr>ocBlockHeight := x\<rparr>)),
      (''event_id'', into_string (\<lambda>x q. q\<lparr>ocEventID := x\<rparr>)),
      (''is_finalized'', into_bool (\<lambda>x q. q\<lparr>ocIsFinalized := x\<rparr>)),
      (''withdrawal_id'', into_string (\<lambda>x q. q\<lparr>ocWithdrawalID := x\<rparr>))]"

definition OnReorgRequest_fields :: "OnReorgRequest fields" where
  "OnReorgRequest_fields =
     [(''block_height'', into_int (\<lambda>x q. q\<lparr>orBlockHeight := x\<rparr>)),
      (''wallet_id'', into_string (\<lambda>x q. q\<lparr>orWalletID := x\<rparr>)),
      (''asset'', into_string (\<lambda>x q. q\<lparr>orAsset := x\<rparr>)),
      (''event_id'', into_string (\<lambda>x q. q\<lparr>orEventID := x\<rparr>)),
      (''outpoints'', into_strings orOutpoints (\<lambda>x q. q\<lparr>orOutpoints := x\<rparr>)),
      (''withdrawal_id'', into_string (\<lambda>x q. q\<lparr>orWithdrawalID := x\<rparr>))]"

definition no_confirmation :: OnConfirmationRequest where
  "no_confirmation = \<lparr>ocTxHash = [], ocWalletID = [], ocAsset = [], ocAmount = [], ocConfirmations = 0,
     ocBlockHeight = 0, ocEventID = [], ocIsFinalized = False, ocWithdrawalID = []\<rparr>"

definition no_reorg :: OnReorgRequest where
  "no_reorg = \<lparr>orBlockHeight = 0, orWalletID = [], orAsset = [], orEventID = [], orOutpoints = [], orWithdrawalID = []\<rparr>"

text \<open>The codec: \<^verbatim>\<open>json.Unmarshal\<close> into the request struct.\<close>

definition codec_Unmarshal :: "'r fields \<Rightarrow> 'r \<Rightarrow> string \<Rightarrow> 'r res" where
  "codec_Unmarshal fs zero data = (case Unmarshal_json data of Inl e \<Rightarrow> Inl e | Inr v \<Rightarrow> into_struct fs zero v)"

text \<open>\<^verbatim>\<open>ResolveKeyIDResponse\<close> and \<^verbatim>\<open>Empty\<close>.\<close>

datatype reply = ResolveKeyIDResponse "string list" string | Empty

section \<open>Handlers\<close>

record grpc_deps =
  gDecimal :: declib
  gConfig :: Config
  gEmitter :: Emitter
  gOnConfirmedDecrease :: "(uuid \<Rightarrow> string \<Rightarrow> world \<Rightarrow> world) option"
  gUTXORestore :: "(string list \<Rightarrow> world \<Rightarrow> unit res \<times> world) option"
  gWithdrawals :: saga_env
  gParse :: "string \<Rightarrow> uuid res"

type_synonym grpc_handler = "grpc_deps \<Rightarrow> metadata \<Rightarrow> string \<Rightarrow> reply interceptor \<Rightarrow> world \<Rightarrow> reply grpc_res \<times> world"

definition resolve_reply :: "KeyMapping list \<Rightarrow> reply" where
  "resolve_reply ms =
     ResolveKeyIDResponse (map kKeyID ms)
       (fold (\<lambda>m cur. if kRotationState m = RotationStateCurrent then kKeyID m else cur) ms [])"

definition resolveKeyIDHandler :: grpc_handler where
  "resolveKeyIDHandler D ctx data _ w =
     (case codec_Unmarshal ResolveKeyIDRequest_fields [] data of
        Inl e \<Rightarrow> (Inl (InvalidArgument, ErrWrap ''decode'' e), w)
      | Inr walletID \<Rightarrow>
          (case gParse D walletID of
             Inl e \<Rightarrow> (Inl (InvalidArgument, ErrWrap ''invalid wallet_id'' e), w)
           | Inr wid \<Rightarrow>
               (case ResolveActive wid w of
                  Inl e \<Rightarrow> (Inl (NotFound, ErrWrap ''resolve key'' e), w)
                | Inr ms \<Rightarrow> (Inr (resolve_reply ms), w))))"

definition chainOfAsset :: "string \<Rightarrow> string" where
  "chainOfAsset asset =
     (if asset = ''btc'' \<or> asset = ''bitcoin'' then ''bitcoin''
      else if asset = ''sol'' \<or> asset = ''solana'' then ''solana''
      else ''ethereum'')"

definition confirmation_event :: "uuid \<Rightarrow> OnConfirmationRequest \<Rightarrow> ConfirmationEvent" where
  "confirmation_event wid req =
     \<lparr>ceWalletID = wid, ceAsset = ocAsset req, ceAmount = ocAmount req, ceConfirmations = ocConfirmations req,
      ceBlockHeight = ocBlockHeight req, ceEventID = ocEventID req, ceIsFinalized = ocIsFinalized req,
      ceChain = chainOfAsset (ocAsset req)\<rparr>"

definition onConfirmationHandler :: grpc_handler where
  "onConfirmationHandler D ctx data _ w =
     (case codec_Unmarshal OnConfirmationRequest_fields no_confirmation data of
        Inl e \<Rightarrow> (Inl (InvalidArgument, ErrWrap ''decode'' e), w)
      | Inr req \<Rightarrow>
          if ocWithdrawalID req \<noteq> [] then
            (case gParse D (ocWithdrawalID req) of
               Inl e \<Rightarrow> (Inl (InvalidArgument, ErrWrap ''invalid withdrawal id'' e), w)
             | Inr wid \<Rightarrow>
                 (case Confirm (gWithdrawals D) wid (ocTxHash req) w of
                    (Inl e, w) \<Rightarrow> (Inl (Internal, ErrWrap ''confirm'' e), w)
                  | (Inr _, w) \<Rightarrow> (Inr Empty, w)))
          else if ocWalletID req \<noteq> [] then
            (case gParse D (ocWalletID req) of
               Inl e \<Rightarrow> (Inl (InvalidArgument, ErrWrap ''invalid wallet id'' e), w)
             | Inr wid \<Rightarrow>
                 (case ApplyConfirmationEvent (gDecimal D) (gConfig D) (gEmitter D) (gOnConfirmedDecrease D)
                         (confirmation_event wid req) w of
                    (Inl e, w) \<Rightarrow> (Inl (Internal, ErrWrap ''apply confirmation'' e), w)
                  | (Inr _, w) \<Rightarrow> (Inr Empty, w)))
          else (Inr Empty, w))"

definition reorg_wallet :: "grpc_deps \<Rightarrow> OnReorgRequest \<Rightarrow> world \<Rightarrow> reply grpc_res \<times> world" where
  "reorg_wallet D req w =
     (if orWalletID req \<noteq> [] then
        (case gParse D (orWalletID req) of
           Inl e \<Rightarrow> (Inl (InvalidArgument, ErrWrap ''invalid wallet id'' e), w)
         | Inr wid \<Rightarrow>
             (case ApplyReorgEvent (gDecimal D) (gEmitter D) (gUTXORestore D)
                     \<lparr>reWalletID = wid, reAsset = orAsset req, reBlockHeight = orBlockHeight req,
                      reEventID = orEventID req, reOutpoints = orOutpoints req\<rparr> w of
                (Inl e, w) \<Rightarrow> (Inl (Internal, ErrWrap ''apply reorg'' e), w)
              | (Inr _, w) \<Rightarrow> (Inr Empty, w)))
      else (Inr Empty, w))"

definition onReorgHandler :: grpc_handler where
  "onReorgHandler D ctx data _ w =
     (case codec_Unmarshal OnReorgRequest_fields no_reorg data of
        Inl e \<Rightarrow> (Inl (InvalidArgument, ErrWrap ''decode'' e), w)
      | Inr req \<Rightarrow>
          if orWithdrawalID req \<noteq> [] then
            (case gParse D (orWithdrawalID req) of
               Inl e \<Rightarrow> (Inl (InvalidArgument, ErrWrap ''invalid withdrawal id'' e), w)
             | Inr wid \<Rightarrow>
                 (case OnReorg wid (orOutpoints req) w of
                    (Inl e, w) \<Rightarrow> (Inl (Internal, ErrWrap ''withdrawal reorg'' e), w)
                  | (Inr _, w) \<Rightarrow> reorg_wallet D req w))
          else reorg_wallet D req w)"

section \<open>The server\<close>

definition registerMethods :: "(string, grpc_handler) gomap" where
  "registerMethods =
     [(''/wallet.WalletService/ResolveKeyID'', resolveKeyIDHandler),
      (''/wallet.WalletService/OnConfirmation'', onConfirmationHandler),
      (''/wallet.WalletService/OnReorg'', onReorgHandler)]"

text \<open>One call: the handler gets the interceptor \<^verbatim>\<open>NewServer\<close> configured, and it is up to the handler to call it.\<close>

definition grpc_serve ::
    "grpc_deps \<Rightarrow> string \<times> bool \<Rightarrow> metadata \<Rightarrow> string \<Rightarrow> string \<Rightarrow> world \<Rightarrow> reply grpc_res \<times> world" where
  "grpc_serve D auth md fullMethod data w =
     (case map_of registerMethods fullMethod of
        None \<Rightarrow> (Inl (Unimplemented, ErrText ''unknown method''), w)
      | Some h \<Rightarrow> h D md data (GRPCUnaryInterceptor (fst auth) (snd auth)) w)"

text \<open>
  The hooks as \<^verbatim>\<open>cmd/wallet-manager/main.go\<close> wires them: a reorg restores outputs through the UTXO
  service, a decrease of a confirmed balance starts a funding evaluation, whose error is only logged.
\<close>

definition wired_UTXORestore :: "(string list \<Rightarrow> world \<Rightarrow> unit res \<times> world) option" where
  "wired_UTXORestore = Some (\<lambda>outpoints w. on_db (RestoreOnReorg (now w) outpoints) w)"

definition wired_OnConfirmedDecrease :: "funding_service \<Rightarrow> (uuid \<Rightarrow> string \<Rightarrow> world \<Rightarrow> world) option" where
  "wired_OnConfirmedDecrease fs = Some (\<lambda>wid asset w. snd (EvaluateAndRequest fs wid asset w))"

section \<open>Deposits over the API\<close>

abbreviation OnConfirmation :: string where "OnConfirmation \<equiv> ''/wallet.WalletService/OnConfirmation''"

text \<open>The deposit a message reports: \<open>None\<close> for a withdrawal's confirmation and for a message that is refused.\<close>

definition deposit_of :: "grpc_deps \<Rightarrow> string \<Rightarrow> ConfirmationEvent option" where
  "deposit_of D data =
     (case codec_Unmarshal OnConfirmationRequest_fields no_confirmation data of
        Inl _ \<Rightarrow> None
      | Inr req \<Rightarrow>
          if ocWithdrawalID req \<noteq> [] \<or> ocWalletID req = [] then None
          else (case gParse D (ocWalletID req) of Inl _ \<Rightarrow> None | Inr wid \<Rightarrow> Some (confirmation_event wid req)))"

fun confirmations :: "grpc_deps \<Rightarrow> string \<times> bool \<Rightarrow> (metadata \<times> string) list \<Rightarrow> world \<Rightarrow> world" where
  "confirmations D auth [] w = w"
| "confirmations D auth ((md, data) # cs) w =
     confirmations D auth cs (snd (grpc_serve D auth md OnConfirmation data w))"

definition same_ledger :: "world \<Rightarrow> world \<Rightarrow> bool" where
  "same_ledger w w' = (balances (db w') = balances (db w) \<and> balanceEvents (db w') = balanceEvents (db w))"

definition hook_ok :: "grpc_deps \<Rightarrow> bool" where
  "hook_ok D = (gOnConfirmedDecrease D = None \<or> (\<exists>fs. gOnConfirmedDecrease D = wired_OnConfirmedDecrease fs))"

lemma same_ledger_refl [simp]: "same_ledger w w"
  by (simp add: same_ledger_def)

lemma UpdateWithdrawalState_ledger:
  "balances (snd (UpdateWithdrawalState t i st reason h d s)) = balances s"
  "balanceEvents (snd (UpdateWithdrawalState t i st reason h d s)) = balanceEvents s"
  by (simp_all add: UpdateWithdrawalState_def Let_def split: option.split)

lemma on_db_result: "on_db f w = (r, w') \<Longrightarrow> db w' = snd (f (db w))"
  by (auto simp: on_db_def split: prod.splits)

lemma Confirm_ledger: "same_ledger w (snd (Confirm E i h w))"
  by (auto simp: same_ledger_def Confirm_def frame_simps UpdateWithdrawalState_ledger dest!: on_db_result
      split: sum.splits prod.splits)

lemma createRequest_ledger: "same_ledger w (snd (createRequest fs wl asset amount reason w))"
  by (auto simp: same_ledger_def createRequest_def NewUUID_def frame_simps CreateFundingRequest_def Let_def
      dest!: on_db_result split: sum.splits prod.splits option.splits if_splits)

lemma EvaluateAndRequest_ledger: "same_ledger w (snd (EvaluateAndRequest fs wid asset w))"
  using createRequest_ledger by (auto simp: EvaluateAndRequest_def split: sum.split)

lemma ApplyConfirmation_hook:
  assumes "ApplyConfirmationEvent D cfg em hook ev w = (r, w')"
  shows "\<exists>w1. ApplyConfirmationEvent D cfg em None ev w = (r, w1)
    \<and> (w' = w1 \<or> (\<exists>h. hook = Some h \<and> w' = h (ceWalletID ev) (ceAsset ev) w1))"
  using assms
  by (auto simp: ApplyConfirmationEvent_def split: prod.splits sum.splits option.splits if_splits)

lemma Confirm_ledgerD: "Confirm E i h w = (r, w') \<Longrightarrow> same_ledger w w'"
  using Confirm_ledger [of w E i h] by simp

lemma deposit_none: "deposit_of D data = None \<Longrightarrow> same_ledger w (snd (grpc_serve D auth md OnConfirmation data w))"
  by (auto simp: deposit_of_def grpc_serve_def registerMethods_def onConfirmationHandler_def
      split: sum.splits if_splits prod.splits dest: Confirm_ledgerD)

lemma deposit_applied:
  assumes "deposit_of D data = Some ev"
  shows "snd (grpc_serve D auth md OnConfirmation data w)
    = snd (ApplyConfirmationEvent (gDecimal D) (gConfig D) (gEmitter D) (gOnConfirmedDecrease D) ev w)"
  using assms
  by (auto simp: deposit_of_def grpc_serve_def registerMethods_def onConfirmationHandler_def
      split: sum.splits if_splits prod.splits)

text \<open>The effect of one message on the ledger and on the set of events that were seen.\<close>

definition note_deposit :: "ConfirmationEvent option \<Rightarrow> (string \<Rightarrow> bool) \<Rightarrow> string \<Rightarrow> bool" where
  "note_deposit d sn k = (sn k \<or> (\<exists>ev. d = Some ev \<and> k = event_key ev))"

lemma confirmation_effect:
  assumes D: "declib_ok (gDecimal D)" and h: "hook_ok D"
    and w': "w' = snd (grpc_serve D auth md OnConfirmation data w)"
  shows "ledger (gDecimal D) (db w') = (case deposit_of D data of
      Some ev \<Rightarrow> if seen (db w) (event_key ev) then ledger (gDecimal D) (db w)
                 else credit_row (gDecimal D) (gConfig D) ev (ledger (gDecimal D) (db w))
    | None \<Rightarrow> ledger (gDecimal D) (db w))
    \<and> seen (db w') = note_deposit (deposit_of D data) (seen (db w))"
proof (cases "deposit_of D data")
  case None
  then have "same_ledger w w'" unfolding w' by (rule deposit_none)
  with None show ?thesis by (simp add: same_ledger_def ledger_def note_deposit_def fun_eq_iff)
next
  case (Some ev)
  obtain r w2 where a: "ApplyConfirmationEvent (gDecimal D) (gConfig D) (gEmitter D) (gOnConfirmedDecrease D) ev w = (r, w2)"
    by fastforce
  obtain w1 where w1: "ApplyConfirmationEvent (gDecimal D) (gConfig D) (gEmitter D) None ev w = (r, w1)" "same_ledger w1 w2"
    using ApplyConfirmation_hook [OF a] h EvaluateAndRequest_ledger by (auto simp: hook_ok_def wired_OnConfirmedDecrease_def)
  have same: "ledger (gDecimal D) (db w2) = ledger (gDecimal D) (db w1)" "seen (db w2) = seen (db w1)"
    using w1(2) by (simp_all add: same_ledger_def ledger_def fun_eq_iff)
  note step = ApplyConfirmationEvent_step [OF D w1(1)]
  have "w' = w2" using w' deposit_applied [OF Some] a by simp
  then show ?thesis
    using step same Some by (auto simp: note_deposit_def credit_row_def)
qed

lemma confirmations_ledger:
  assumes D: "declib_ok (gDecimal D)" and h: "hook_ok D"
  shows "ledger (gDecimal D) (db (confirmations D auth calls w)) =
    fold (credit_row (gDecimal D) (gConfig D))
      (fresh_events (seen (db w)) (List.map_filter (\<lambda>(_, data). deposit_of D data) calls)) (ledger (gDecimal D) (db w))"
proof (induction calls arbitrary: w)
  case (Cons c cs)
  obtain md data where c: "c = (md, data)" by (cases c)
  define w' where "w' = snd (grpc_serve D auth md OnConfirmation data w)"
  note eff = confirmation_effect [OF D h w'_def]
  show ?case
  proof (cases "deposit_of D data")
    case None
    then have "seen (db w') = seen (db w)" "ledger (gDecimal D) (db w') = ledger (gDecimal D) (db w)"
      using eff by (auto simp: note_deposit_def fun_eq_iff)
    then show ?thesis using Cons.IH [of w'] None by (simp add: c w'_def [symmetric])
  next
    case (Some ev)
    show ?thesis
    proof (cases "seen (db w) (event_key ev)")
      case True
      then have "seen (db w') = seen (db w)" "ledger (gDecimal D) (db w') = ledger (gDecimal D) (db w)"
        using eff Some by (auto simp: note_deposit_def fun_eq_iff)
      then show ?thesis using Cons.IH [of w'] Some True by (simp add: c w'_def [symmetric])
    next
      case False
      then have "seen (db w') = (\<lambda>k. k = event_key ev \<or> seen (db w) k)"
        "ledger (gDecimal D) (db w') = credit_row (gDecimal D) (gConfig D) ev (ledger (gDecimal D) (db w))"
        using eff Some by (auto simp: note_deposit_def fun_eq_iff)
      then show ?thesis using Cons.IH [of w'] Some False by (simp add: c w'_def [symmetric])
    qed
  qed
qed simp

section \<open>Messages on the wire\<close>

text \<open>What the codec makes of a request, field by field in the order of the struct.\<close>

definition Marshal_confirmation :: "OnConfirmationRequest \<Rightarrow> string" where
  "Marshal_confirmation q =
     json_object
       [(''tx_hash'', json_quote (ocTxHash q)), (''wallet_id'', json_quote (ocWalletID q)),
        (''asset'', json_quote (ocAsset q)), (''amount'', json_quote (ocAmount q)),
        (''confirmations'', show_int (ocConfirmations q)), (''block_height'', show_int (ocBlockHeight q)),
        (''event_id'', json_quote (ocEventID q)), (''is_finalized'', if ocIsFinalized q then ''true'' else ''false''),
        (''withdrawal_id'', json_quote (ocWithdrawalID q))]"

definition wire_ok :: "OnConfirmationRequest \<Rightarrow> bool" where
  "wire_ok q = (ascii (ocTxHash q) \<and> ascii (ocWalletID q) \<and> ascii (ocAsset q) \<and> ascii (ocAmount q) \<and> ascii (ocEventID q)
     \<and> ascii (ocWithdrawalID q) \<and> int64_range (ocConfirmations q) \<and> int64_range (ocBlockHeight q))"

lemma confirmation_roundtrip:
  assumes "wire_ok q"
  shows "codec_Unmarshal OnConfirmationRequest_fields no_confirmation (Marshal_confirmation q) = Inr q"
proof -
  let ?ms = "[(''tx_hash'', json_quote (ocTxHash q), JStr (ocTxHash q)), (''wallet_id'', json_quote (ocWalletID q), JStr (ocWalletID q)),
        (''asset'', json_quote (ocAsset q), JStr (ocAsset q)), (''amount'', json_quote (ocAmount q), JStr (ocAmount q)),
        (''confirmations'', show_int (ocConfirmations q), JNum (show_int (ocConfirmations q))),
        (''block_height'', show_int (ocBlockHeight q), JNum (show_int (ocBlockHeight q))),
        (''event_id'', json_quote (ocEventID q), JStr (ocEventID q)),
        (''is_finalized'', if ocIsFinalized q then ''true'' else ''false'', JBool (ocIsFinalized q)),
        (''withdrawal_id'', json_quote (ocWithdrawalID q), JStr (ocWithdrawalID q))]"
  have "ascii ''tx_hash''" "ascii ''wallet_id''" "ascii ''asset''" "ascii ''amount''" "ascii ''confirmations''"
    "ascii ''block_height''" "ascii ''event_id''" "ascii ''is_finalized''" "ascii ''withdrawal_id''"
    by (simp_all add: ascii_def code_def)
  then have "\<forall>(k, v, x) \<in> set ?ms. ascii k \<and> encodes (max_depth - 1) v x"
    using assms encodes_quote encodes_int encodes_bool by (simp add: wire_ok_def)
  from Unmarshal_object [OF _ this]
  have "Unmarshal_json (Marshal_confirmation q) = Inr (JObj (map (\<lambda>(k, v, x). (k, x)) ?ms))"
    by (simp add: Marshal_confirmation_def)
  then show ?thesis
    using assms
    by (simp add: codec_Unmarshal_def into_struct_def find_field_def OnConfirmationRequest_fields_def into_string_def
        into_int_def into_bool_def Atoi_def no_confirmation_def wire_ok_def)
qed

definition sample_grpc :: grpc_deps where
  "sample_grpc = \<lparr>gDecimal = frac_lib, gConfig = default_config, gEmitter = NilEmitter,
     gOnConfirmedDecrease = wired_OnConfirmedDecrease (sample_funding (Inr ())), gUTXORestore = wired_UTXORestore,
     gWithdrawals = sample_env, gParse = Inr\<rparr>"

lemma sample_grpc_simps [simp]:
  "gDecimal sample_grpc = frac_lib" "gConfig sample_grpc = default_config" "gEmitter sample_grpc = NilEmitter"
  "gOnConfirmedDecrease sample_grpc = wired_OnConfirmedDecrease (sample_funding (Inr ()))" "gParse sample_grpc = Inr"
  by (simp_all add: sample_grpc_def)

lemma sample_hook: "hook_ok sample_grpc"
  by (auto simp: hook_ok_def)

definition sample_report :: "string \<Rightarrow> string \<Rightarrow> OnConfirmationRequest" where
  "sample_report asset e = \<lparr>ocTxHash = ''h'', ocWalletID = ''w'', ocAsset = asset, ocAmount = ''5'', ocConfirmations = 12,
     ocBlockHeight = 100, ocEventID = e, ocIsFinalized = False, ocWithdrawalID = []\<rparr>"

lemma sample_report_wire: "ascii asset \<Longrightarrow> ascii e \<Longrightarrow> wire_ok (sample_report asset e)"
  by (simp add: wire_ok_def sample_report_def ascii_def code_def int64_range_def)

lemma sample_report_deposit:
  assumes "ascii asset" and "ascii e"
  shows "deposit_of sample_grpc (Marshal_confirmation (sample_report asset e)) = Some (confirmation_event ''w'' (sample_report asset e))"
  using confirmation_roundtrip [OF sample_report_wire [OF assms]]
  by (simp add: deposit_of_def sample_report_def)

text \<open>
  C10: deposits reported to the gRPC API are credited exactly once. Over any sequence of \<^verbatim>\<open>OnConfirmation\<close>
  messages, repeats, malformed messages and confirmations of withdrawals included, the confirmed (pending) amount
  of every (wallet, asset) row grows by the sum of the amounts of the confirmed (unconfirmed) deposits that were
  not seen before, each counted once, and the locked amount is untouched, with or without the funding hook.
\<close>

theorem deposits_exactly_once:
  assumes "declib_ok (gDecimal D)" and "hook_ok D"
  shows "ledger (gDecimal D) (db (confirmations D auth calls w)) k =
    (case ledger (gDecimal D) (db w) k of (c, p, l) \<Rightarrow>
       let fresh = fresh_events (seen (db w)) (List.map_filter (\<lambda>(_, data). deposit_of D data) calls)
       in (c + confirmed_sum (gDecimal D) (gConfig D) k fresh, p + pending_sum (gDecimal D) (gConfig D) k fresh, l))"
  by (simp add: confirmations_ledger [OF assms] fold_credit_row Let_def)

theorem deposits_exactly_once_witness:
  "ledger frac_lib (db (confirmations sample_grpc (''s'', False)
     [(None, Marshal_confirmation (sample_report ''btc'' ''a'')), (None, Marshal_confirmation (sample_report ''btc'' ''a'')),
      (None, ''?''), (None, Marshal_confirmation (sample_report ''btc'' ''b''))] start_world)) ''w|btc'' = (10, 0, 0)"
proof -
  have a: "ascii ''btc''" "ascii ''a''" "ascii ''b''" by (simp_all add: ascii_def code_def)
  have bad: "deposit_of sample_grpc ''?'' = None"
    by (simp add: deposit_of_def codec_Unmarshal_def Unmarshal_json_def json_value_def skip_ws_def is_ws_def code_def HasPrefix_def
        number_def int_part_def digits1_def is_digit_def)
  have keys: "event_key (confirmation_event ''w'' (sample_report ''btc'' ''b'')) \<noteq> event_key (confirmation_event ''w'' (sample_report ''btc'' ''a''))"
    "row_key (confirmation_event ''w'' (sample_report ''btc'' e)) = ''w|btc''"
    "isConfirmed default_config (confirmation_event ''w'' (sample_report ''btc'' e))"
    "ceAmount (confirmation_event ''w'' (sample_report ''btc'' e)) = ''5''" for e
    by (simp_all add: event_key_def balanceEventKey_def balanceKey_def confirmation_event_def sample_report_def isConfirmed_def
        threshold_def chainOfAsset_def default_config_def)
  show ?thesis
    using deposits_exactly_once [of sample_grpc "(''s'', False)" "[(None, Marshal_confirmation (sample_report ''btc'' ''a'')),
        (None, Marshal_confirmation (sample_report ''btc'' ''a'')), (None, ''?''), (None, Marshal_confirmation (sample_report ''btc'' ''b''))]"
        start_world "''w|btc''", unfolded sample_grpc_simps, OF frac_lib_ok sample_hook]
    by (simp add: sample_report_deposit a bad keys ledger_def New_def get_bool_def confirmed_sum_def pending_sum_def parse_five)
qed

text \<open>
  C35: the callbacks are not authenticated. With a secret configured, a call without any metadata is refused by the
  interceptor, but the handlers never call it: an \<^verbatim>\<open>OnConfirmation\<close> message without a token is applied in full, and
  so is every other message, since no method of the service depends on the metadata or on the secret.
\<close>

theorem grpc_not_authenticated:
  assumes "deposit_of D data = Some ev"
  shows "GRPCUnaryInterceptor secret False None OnConfirmation h w = (Inl (Unauthenticated, ErrText ''missing metadata''), w)
    \<and> snd (grpc_serve D (secret, False) None OnConfirmation data w)
        = snd (ApplyConfirmationEvent (gDecimal D) (gConfig D) (gEmitter D) (gOnConfirmedDecrease D) ev w)
    \<and> grpc_serve D auth md m msg w = grpc_serve D auth' md' m msg w"
proof -
  have "grpc_serve D auth md m msg w = grpc_serve D auth' md' m msg w"
    by (simp add: grpc_serve_def registerMethods_def resolveKeyIDHandler_def onConfirmationHandler_def onReorgHandler_def)
  then show ?thesis
    using deposit_applied [OF assms] by (simp add: GRPCUnaryInterceptor_def grpcSkipMethods_def)
qed

theorem grpc_not_authenticated_witness:
  "\<exists>data w'. snd (grpc_serve sample_grpc (''s'', False) None OnConfirmation data start_world) = w'
     \<and> ledger frac_lib (db start_world) ''w|btc'' = (0, 0, 0) \<and> ledger frac_lib (db w') ''w|btc'' = (5, 0, 0)"
proof -
  let ?q = "sample_report ''btc'' ''a''"
  let ?ev = "confirmation_event ''w'' ?q"
  have d: "deposit_of sample_grpc (Marshal_confirmation ?q) = Some ?ev"
    by (rule sample_report_deposit) (simp_all add: ascii_def code_def)
  obtain r w1 where a: "ApplyConfirmationEvent frac_lib default_config NilEmitter None ?ev start_world = (r, w1)" by fastforce
  have "ledger frac_lib (db w1) ''w|btc'' = (5, 0, 0)"
    using ApplyConfirmationEvent_step [OF frac_lib_ok a]
    by (simp add: ledger_def New_def get_bool_def credit_def balanceKey_def confirmation_event_def sample_report_def isConfirmed_def
        threshold_def chainOfAsset_def default_config_def parse_five)
  moreover have "snd (grpc_serve sample_grpc (''s'', False) None OnConfirmation (Marshal_confirmation ?q) start_world) = w1"
  proof -
    have amount: "\<not> parseDec frac_lib (ceAmount ?ev) < 0" by (simp add: confirmation_event_def sample_report_def parse_five)
    have "snd (ApplyConfirmationEvent frac_lib default_config NilEmitter (wired_OnConfirmedDecrease (sample_funding (Inr ()))) ?ev start_world) = w1"
      using a amount by (auto simp: ApplyConfirmationEvent_def wired_OnConfirmedDecrease_def split: prod.splits sum.splits if_splits)
    then show ?thesis
      using grpc_not_authenticated [OF d, of "''s''" "\<lambda>w. (Inr Empty, w)" start_world] by simp
  qed
  ultimately show ?thesis by (intro exI [of _ "Marshal_confirmation ?q"] exI [of _ w1]) (simp add: ledger_def New_def)
qed

text \<open>
  The chain of a deposit is guessed from the name of its asset. A deposit to a Solana wallet of any asset that is not called
  \<^verbatim>\<open>sol\<close> or \<^verbatim>\<open>solana\<close> counts as an Ethereum deposit: with the number of confirmations an EVM chain needs it is credited as
  confirmed although its block is not finalized.
\<close>

lemma solana_token_unfinalized:
  assumes "deposit_of D data = Some ev" and "declib_ok (gDecimal D)" and "hook_ok D" and "\<not> seen (db w) (event_key ev)"
    and "GetWallet (ceWalletID ev) (db w) = Inr wl" and "wChain wl = ChainSolana"
    and "ceAsset ev \<notin> {''btc'', ''bitcoin'', ''sol'', ''solana''}"
    and "\<not> ceIsFinalized ev" and "ceConfirmations ev \<ge> cConfirmationsEVM (gConfig D)"
    and "ledger (gDecimal D) (db w) (row_key ev) = (c, p, l)"
  shows "ledger (gDecimal D) (db (snd (grpc_serve D auth md OnConfirmation data w))) (row_key ev)
    = (c + parseDec (gDecimal D) (ceAmount ev), p, l)"
proof -
  have "ceChain ev = chainOfAsset (ceAsset ev)"
    using assms(1) by (auto simp: deposit_of_def confirmation_event_def split: sum.splits if_splits)
  then have "isConfirmed (gConfig D) ev" using assms(7,9) by (simp add: isConfirmed_def threshold_def chainOfAsset_def)
  then show ?thesis
    using confirmation_effect [OF assms(2,3) refl, of auth md data w] assms(1,4,10)
    by (simp add: credit_row_def credit_def)
qed

end
