(* ===== verification/Postgres.thy ===== *)
theory Postgres
  imports Memstore
begin

text \<open>
  The production store, \<^verbatim>\<open>internal/storage/postgres/postgres.go\<close>, over the schema of
  \<^verbatim>\<open>internal/migrations/0001_init_schema.up.sql\<close>. A table is the list of its rows in the order of insertion, and a
  statement is a function on the tables. The database refuses a statement whose result would break a key,
  a unique index or a foreign key, or whose values do not fit their columns, and leaves the tables as they were.
  Rows without a defined order (equal sort keys) come in the order of the table. Text is compared by bytes.
\<close>

section \<open>Tables\<close>

record tables =
  t_wallets :: "Wallet list"
  t_addresses :: "Address list"
  t_balances :: "Balance list"
  t_utxos :: "UTXO list"
  t_nonces :: "Nonce list"
  t_withdrawals :: "WithdrawalRequest list"
  t_keys :: "KeyMapping list"
  t_funding :: "FundingRequest list"
  t_audit :: "AuditOutboxEvent list"
  t_seq :: "(uuid \<times> int) list"
  t_events :: "BalanceEvent list"

definition no_tables :: tables where
  "no_tables = \<lparr>t_wallets = [], t_addresses = [], t_balances = [], t_utxos = [], t_nonces = [], t_withdrawals = [],
     t_keys = [], t_funding = [], t_audit = [], t_seq = [], t_events = []\<rparr>"

text \<open>
  What a column makes of a value is the database's: the text a \<^verbatim>\<open>NUMERIC(38,18)\<close> column returns for the text
  written to it, and the precision of a \<^verbatim>\<open>TIMESTAMPTZ\<close>. What the driver sends for a slice is the driver's:
  \<open>pqArray\<close> is the array, or nothing for \<^verbatim>\<open>NULL\<close>; the empty list stands for a nil slice, as the services leave one.
  An \<^verbatim>\<open>INT\<close> column has 32 bits.
\<close>

record pglib =
  pgNumeric :: "string \<Rightarrow> string res"
  pgTime :: "time \<Rightarrow> time"
  pqArray :: "string list \<Rightarrow> string list option"

definition int4 :: "int \<Rightarrow> bool" where
  "int4 x = (- (2 ^ 31) \<le> x \<and> x < 2 ^ 31)"

abbreviation pq_violation :: goerr where "pq_violation \<equiv> ErrText ''pq: constraint violation''"
abbreviation pq_null :: goerr where "pq_null \<equiv> ErrText ''pq: null value violates not-null constraint''"
abbreviation pq_range :: goerr where "pq_range \<equiv> ErrText ''pq: value out of range''"

section \<open>Schema\<close>

definition fk_wallets :: "tables \<Rightarrow> uuid list \<Rightarrow> bool" where
  "fk_wallets T ws = (set ws \<subseteq> set (map wID (t_wallets T)))"

definition wallets_con :: "tables \<Rightarrow> bool" where
  "wallets_con T = (distinct (map wID (t_wallets T)) \<and> distinct (map (\<lambda>w. (wChain w, wKeyID w)) (t_wallets T)))"

definition addresses_con :: "tables \<Rightarrow> bool" where
  "addresses_con T =
     (fk_wallets T (map aWalletID (t_addresses T)) \<and> distinct (map aID (t_addresses T))
      \<and> distinct (map (\<lambda>a. (aWalletID a, aIndex a, aChange a)) (t_addresses T))
      \<and> distinct (map (\<lambda>a. (aChain a, aAddress a)) (t_addresses T))
      \<and> distinct (map aWalletID (filter (\<lambda>a. aState a = AddressStateActive) (t_addresses T))))"

definition balances_con :: "tables \<Rightarrow> bool" where
  "balances_con T =
     (fk_wallets T (map bWalletID (t_balances T)) \<and> distinct (map (\<lambda>b. (bWalletID b, bAsset b)) (t_balances T)))"

definition utxos_con :: "tables \<Rightarrow> bool" where
  "utxos_con T = (fk_wallets T (map uWalletID (t_utxos T)) \<and> distinct (map uOutpoint (t_utxos T)))"

definition nonces_con :: "tables \<Rightarrow> bool" where
  "nonces_con T =
     (fk_wallets T (map nWalletID (t_nonces T)) \<and> distinct (map (\<lambda>n. (nWalletID n, nChain n)) (t_nonces T)))"

definition in_flight :: "string \<Rightarrow> bool" where
  "in_flight st = (st \<in> {WithdrawalStatePending, WithdrawalStateWhitelisted, WithdrawalStateSigned, WithdrawalStateBroadcast})"

definition dedup_tuple :: "WithdrawalRequest \<Rightarrow> uuid \<times> string \<times> string \<times> string" where
  "dedup_tuple w = (wrWalletID w, wrToAddress w, wrAmount w, wrAsset w)"

definition withdrawals_con :: "tables \<Rightarrow> bool" where
  "withdrawals_con T =
     (fk_wallets T (map wrWalletID (t_withdrawals T)) \<and> distinct (map wrID (t_withdrawals T))
      \<and> distinct (map dedup_tuple (filter (\<lambda>w. in_flight (wrState w)) (t_withdrawals T))))"

definition keys_con :: "tables \<Rightarrow> bool" where
  "keys_con T =
     (fk_wallets T (map kWalletID (t_keys T)) \<and> distinct (map (\<lambda>k. (kWalletID k, kKeyID k)) (t_keys T))
      \<and> distinct (map kWalletID (filter (\<lambda>k. kRotationState k = RotationStateCurrent) (t_keys T))))"

definition funding_con :: "tables \<Rightarrow> bool" where
  "funding_con T =
     (fk_wallets T (map fWalletID (t_funding T)) \<and> distinct (map fID (t_funding T))
      \<and> distinct (map (\<lambda>f. (fWalletID f, fAsset f)) (filter (\<lambda>f. fState f = FundingStateRequested) (t_funding T))))"

definition audit_con :: "tables \<Rightarrow> bool" where
  "audit_con T =
     (distinct (map eID (t_audit T)) \<and> distinct (map eEventID (t_audit T)) \<and> distinct (map fst (t_seq T)))"

definition event_tuple :: "BalanceEvent \<Rightarrow> uuid \<times> string \<times> int \<times> string" where
  "event_tuple e = (beWalletID e, beAsset e, beBlockHeight e, beEventID e)"

definition events_con :: "tables \<Rightarrow> bool" where
  "events_con T = (distinct (map beID (t_events T)) \<and> distinct (map event_tuple (t_events T)))"

definition constraints :: "tables \<Rightarrow> bool" where
  "constraints T =
     (wallets_con T \<and> addresses_con T \<and> balances_con T \<and> utxos_con T \<and> nonces_con T \<and> withdrawals_con T \<and> keys_con T
      \<and> funding_con T \<and> audit_con T \<and> events_con T)"

section \<open>Statements\<close>

definition exec :: "(tables \<Rightarrow> tables res) \<Rightarrow> tables \<Rightarrow> unit res \<times> tables" where
  "exec st T =
     (case st T of
        Inl e \<Rightarrow> (Inl e, T)
      | Inr T' \<Rightarrow> if constraints T' then (Inr (), T') else (Inl pq_violation, T))"

definition upd :: "('r \<Rightarrow> bool) \<Rightarrow> ('r \<Rightarrow> 'r) \<Rightarrow> 'r list \<Rightarrow> 'r list" where
  "upd P f rows = map (\<lambda>r. if P r then f r else r) rows"

text \<open>\<^verbatim>\<open>INSERT ... ON CONFLICT DO UPDATE\<close>: the rows with the key are updated, or the new row is added.\<close>

definition upsert :: "('r \<Rightarrow> bool) \<Rightarrow> ('r \<Rightarrow> 'r) \<Rightarrow> 'r \<Rightarrow> 'r list \<Rightarrow> 'r list" where
  "upsert P f row rows = (if \<exists>r \<in> set rows. P r then upd P f rows else rows @ [row])"

text \<open>
  A transaction: its body runs on the tables and its effect is kept if the body succeeds and the commit does;
  \<open>cm\<close> is the outcome of the commit, which the database may refuse at its isolation level.
\<close>

definition pg_InTx :: "unit res \<Rightarrow> (tables \<Rightarrow> 'a res \<times> tables) \<Rightarrow> tables \<Rightarrow> 'a res \<times> tables" where
  "pg_InTx cm fn T =
     (case fn T of
        (Inl e, _) \<Rightarrow> (Inl e, T)
      | (Inr x, T') \<Rightarrow> (case cm of Inl e \<Rightarrow> (Inl e, T) | Inr _ \<Rightarrow> (Inr x, T')))"

definition int4s :: "int list \<Rightarrow> tables \<Rightarrow> tables res" where
  "int4s xs T = (if list_all int4 xs then Inr T else Inl pq_range)"

definition opt_list :: "'a option \<Rightarrow> 'a list" where
  "opt_list x = (case x of None \<Rightarrow> [] | Some y \<Rightarrow> [y])"

section \<open>Wallets and addresses\<close>

definition pg_CreateWallet :: "pglib \<Rightarrow> Wallet \<Rightarrow> tables \<Rightarrow> unit res \<times> tables" where
  "pg_CreateWallet L w =
     exec (\<lambda>T. int4s (opt_list (wRotationDays w) @ opt_list (wRotationAfterReceives w))
       (T\<lparr>t_wallets := t_wallets T @ [w\<lparr>wCreatedAt := pgTime L (wCreatedAt w), wUpdatedAt := pgTime L (wUpdatedAt w)\<rparr>]\<rparr>))"

definition pg_GetWallet :: "uuid \<Rightarrow> tables \<Rightarrow> Wallet res" where
  "pg_GetWallet i T = (case find (\<lambda>w. wID w = i) (t_wallets T) of None \<Rightarrow> Inl ErrNoRows | Some w \<Rightarrow> Inr w)"

definition pg_UpdateWalletState :: "time \<Rightarrow> uuid \<Rightarrow> string \<Rightarrow> tables \<Rightarrow> unit res \<times> tables" where
  "pg_UpdateWalletState now i st =
     exec (\<lambda>T. Inr (T\<lparr>t_wallets := upd (\<lambda>w. wID w = i) (\<lambda>w. w\<lparr>wState := st, wUpdatedAt := now\<rparr>) (t_wallets T)\<rparr>))"

definition pg_ListWallets :: "string \<Rightarrow> string \<Rightarrow> string \<Rightarrow> tables \<Rightarrow> Wallet list" where
  "pg_ListWallets chainF typeF stateF T =
     sort_Slice (\<lambda>a b. wCreatedAt a < wCreatedAt b)
       (filter (\<lambda>w. (chainF \<noteq> [] \<longrightarrow> wChain w = chainF) \<and> (typeF \<noteq> [] \<longrightarrow> wType w = typeF)
          \<and> (stateF \<noteq> [] \<longrightarrow> wState w = stateF)) (t_wallets T))"

definition pg_InsertAddress :: "pglib \<Rightarrow> Address \<Rightarrow> tables \<Rightarrow> unit res \<times> tables" where
  "pg_InsertAddress L a =
     exec (\<lambda>T. int4s [aIndex a, aChange a, aReceiveCount a]
       (T\<lparr>t_addresses := t_addresses T @ [a\<lparr>aCreatedAt := pgTime L (aCreatedAt a)\<rparr>]\<rparr>))"

definition pg_GetActiveAddress :: "uuid \<Rightarrow> tables \<Rightarrow> Address res" where
  "pg_GetActiveAddress wid T =
     (case find (\<lambda>a. aWalletID a = wid \<and> aState a = AddressStateActive) (t_addresses T) of
        None \<Rightarrow> Inl ErrNoRows
      | Some a \<Rightarrow> Inr a)"

definition pg_GetAddress :: "uuid \<Rightarrow> tables \<Rightarrow> Address res" where
  "pg_GetAddress i T = (case find (\<lambda>a. aID a = i) (t_addresses T) of None \<Rightarrow> Inl ErrNoRows | Some a \<Rightarrow> Inr a)"

definition pg_ListAddresses :: "uuid \<Rightarrow> tables \<Rightarrow> Address list" where
  "pg_ListAddresses wid T = sort_Slice address_lt (filter (\<lambda>a. aWalletID a = wid) (t_addresses T))"

definition pg_DeprecateAddress :: "uuid \<Rightarrow> tables \<Rightarrow> unit res \<times> tables" where
  "pg_DeprecateAddress i =
     exec (\<lambda>T. Inr (T\<lparr>t_addresses := upd (\<lambda>a. aID a = i) (\<lambda>a. a\<lparr>aState := AddressStateDeprecated\<rparr>) (t_addresses T)\<rparr>))"

definition pg_NextAddressIndex :: "string \<Rightarrow> int \<Rightarrow> tables \<Rightarrow> int res" where
  "pg_NextAddressIndex ch change T =
     (let xs = map aIndex (filter (\<lambda>a. aChain a = ch \<and> aChange a = change) (t_addresses T));
          i = (if xs = [] then - 1 else fold max xs (hd xs)) + 1
      in if int4 i then Inr i else Inl pq_range)"

definition pg_IncrementReceiveCount :: "uuid \<Rightarrow> tables \<Rightarrow> unit res \<times> tables" where
  "pg_IncrementReceiveCount i =
     exec (\<lambda>T. int4s (map (\<lambda>a. aReceiveCount a + 1) (filter (\<lambda>a. aID a = i) (t_addresses T)))
       (T\<lparr>t_addresses := upd (\<lambda>a. aID a = i) (\<lambda>a. a\<lparr>aReceiveCount := aReceiveCount a + 1\<rparr>) (t_addresses T)\<rparr>))"

section \<open>Balances\<close>

definition numeric3 :: "pglib \<Rightarrow> string \<Rightarrow> string \<Rightarrow> string \<Rightarrow> (string \<times> string \<times> string) res" where
  "numeric3 L a b c =
     (case (pgNumeric L a, pgNumeric L b, pgNumeric L c) of
        (Inr a, Inr b, Inr c) \<Rightarrow> Inr (a, b, c)
      | (Inl e, _, _) \<Rightarrow> Inl e
      | (_, Inl e, _) \<Rightarrow> Inl e
      | (_, _, Inl e) \<Rightarrow> Inl e)"

definition pg_UpsertBalance :: "pglib \<Rightarrow> time \<Rightarrow> Balance \<Rightarrow> tables \<Rightarrow> unit res \<times> tables" where
  "pg_UpsertBalance L now b =
     exec (\<lambda>T. case numeric3 L (bConfirmed b) (bPending b) (bLocked b) of
       Inl e \<Rightarrow> Inl e
     | Inr (c, p, l) \<Rightarrow>
         Inr (T\<lparr>t_balances := upsert (\<lambda>r. bWalletID r = bWalletID b \<and> bAsset r = bAsset b)
           (\<lambda>r. r\<lparr>bConfirmed := c, bPending := p, bLocked := l, bLastBlockSeen := bLastBlockSeen b, bUpdatedAt := now\<rparr>)
           (b\<lparr>bConfirmed := c, bPending := p, bLocked := l, bUpdatedAt := now\<rparr>) (t_balances T)\<rparr>))"

definition pg_GetBalance :: "uuid \<Rightarrow> string \<Rightarrow> tables \<Rightarrow> Balance res" where
  "pg_GetBalance wid asset T =
     (case find (\<lambda>b. bWalletID b = wid \<and> bAsset b = asset) (t_balances T) of None \<Rightarrow> Inl ErrNoRows | Some b \<Rightarrow> Inr b)"

definition pg_ListBalances :: "uuid \<Rightarrow> tables \<Rightarrow> Balance list" where
  "pg_ListBalances wid T = sort_Slice balance_lt (filter (\<lambda>b. bWalletID b = wid) (t_balances T))"

text \<open>\<^verbatim>\<open>ON CONFLICT DO NOTHING\<close>, then a query for another row of the same event.\<close>

definition pg_RecordBalanceEvent :: "BalanceEvent \<Rightarrow> tables \<Rightarrow> unit res \<times> tables" where
  "pg_RecordBalanceEvent e T =
     (let T' = T\<lparr>t_events := t_events T @ [e]\<rparr>;
          T = (if events_con T' then T' else T)
      in if \<exists>r \<in> set (t_events T). event_tuple r = event_tuple e \<and> beID r \<noteq> beID e
         then (Inl ErrDuplicateEvent, T) else (Inr (), T))"

section \<open>Coins\<close>

definition pg_InsertUTXO :: "pglib \<Rightarrow> time \<Rightarrow> UTXO \<Rightarrow> tables \<Rightarrow> unit res \<times> tables" where
  "pg_InsertUTXO L now u =
     exec (\<lambda>T. case pgNumeric L (uValue u) of
       Inl e \<Rightarrow> Inl e
     | Inr v \<Rightarrow> int4s [uConfirmations u]
         (T\<lparr>t_utxos := t_utxos T @ [u\<lparr>uValue := v, uLockedAt := map_option (pgTime L) (uLockedAt u),
            uSpentAt := map_option (pgTime L) (uSpentAt u), uUpdatedAt := now\<rparr>]\<rparr>))"

definition pg_ListFreeUTXOs :: "uuid \<Rightarrow> tables \<Rightarrow> UTXO list" where
  "pg_ListFreeUTXOs wid T =
     sort_Slice utxo_lt (filter (\<lambda>u. uWalletID u = wid \<and> uLockState u = UTXOLockStateFree) (t_utxos T))"

fun lock_each :: "time \<Rightarrow> string list \<Rightarrow> tables \<Rightarrow> unit res \<times> tables" where
  "lock_each now [] T = (Inr (), T)"
| "lock_each now (op # ops) T =
     (if \<exists>u \<in> set (t_utxos T). uOutpoint u = op \<and> uLockState u = UTXOLockStateFree then
        (case exec (\<lambda>T. Inr (T\<lparr>t_utxos := upd (\<lambda>u. uOutpoint u = op \<and> uLockState u = UTXOLockStateFree)
                (lock_utxo now) (t_utxos T)\<rparr>)) T of
           (Inl e, T) \<Rightarrow> (Inl e, T)
         | (Inr _, T) \<Rightarrow> lock_each now ops T)
      else (Inl (ErrText ''utxo not free''), T))"

definition pg_LockUTXOs :: "unit res \<Rightarrow> time \<Rightarrow> string list \<Rightarrow> tables \<Rightarrow> unit res \<times> tables" where
  "pg_LockUTXOs cm now ops T = (if ops = [] then (Inr (), T) else pg_InTx cm (lock_each now ops) T)"

fun update_each :: "(UTXO \<Rightarrow> UTXO) \<Rightarrow> string list \<Rightarrow> tables \<Rightarrow> unit res \<times> tables" where
  "update_each f [] T = (Inr (), T)"
| "update_each f (op # ops) T =
     (case exec (\<lambda>T. Inr (T\<lparr>t_utxos := upd (\<lambda>u. uOutpoint u = op) f (t_utxos T)\<rparr>)) T of
        (Inl e, T) \<Rightarrow> (Inl e, T)
      | (Inr _, T) \<Rightarrow> update_each f ops T)"

definition pg_MarkUTXOsSpent :: "time \<Rightarrow> string list \<Rightarrow> string \<Rightarrow> tables \<Rightarrow> unit res \<times> tables" where
  "pg_MarkUTXOsSpent now ops txHash = update_each (spend_utxo now txHash) ops"

definition pg_RestoreUTXOs :: "time \<Rightarrow> string list \<Rightarrow> tables \<Rightarrow> unit res \<times> tables" where
  "pg_RestoreUTXOs now ops = update_each (restore_utxo now) ops"

fun pg_PruneUTXOs :: "string list \<Rightarrow> tables \<Rightarrow> unit res \<times> tables" where
  "pg_PruneUTXOs [] T = (Inr (), T)"
| "pg_PruneUTXOs (op # ops) T =
     (case exec (\<lambda>T. Inr (T\<lparr>t_utxos := filter (\<lambda>u. uOutpoint u \<noteq> op) (t_utxos T)\<rparr>)) T of
        (Inl e, T) \<Rightarrow> (Inl e, T)
      | (Inr _, T) \<Rightarrow> pg_PruneUTXOs ops T)"

section \<open>Nonces\<close>

definition nonce_row :: "uuid \<Rightarrow> string \<Rightarrow> Nonce \<Rightarrow> bool" where
  "nonce_row wid ch n = (nWalletID n = wid \<and> nChain n = ch)"

definition pg_GetNonce :: "uuid \<Rightarrow> string \<Rightarrow> tables \<Rightarrow> Nonce" where
  "pg_GetNonce wid ch T = (case find (nonce_row wid ch) (t_nonces T) of None \<Rightarrow> zero_nonce wid ch | Some n \<Rightarrow> n)"

definition pg_UpsertNonce :: "time \<Rightarrow> Nonce \<Rightarrow> tables \<Rightarrow> unit res \<times> tables" where
  "pg_UpsertNonce now n =
     exec (\<lambda>T. int4s [nVersion n]
       (T\<lparr>t_nonces := upsert (nonce_row (nWalletID n) (nChain n))
          (\<lambda>r. r\<lparr>nPendingNonce := nPendingNonce n, nBroadcastNonce := nBroadcastNonce n, nVersion := nVersion n, nUpdatedAt := now\<rparr>)
          (n\<lparr>nUpdatedAt := now\<rparr>) (t_nonces T)\<rparr>))"

definition increment_tx :: "time \<Rightarrow> uuid \<Rightarrow> string \<Rightarrow> tables \<Rightarrow> (int \<times> int) res \<times> tables" where
  "increment_tx now wid ch T =
     (case find (nonce_row wid ch) (t_nonces T) of
        None \<Rightarrow>
          (case exec (\<lambda>T. Inr (T\<lparr>t_nonces := t_nonces T @
                 [\<lparr>nWalletID = wid, nChain = ch, nPendingNonce = 1, nBroadcastNonce = 0, nVersion = 1, nUpdatedAt = now\<rparr>]\<rparr>)) T of
             (Inl e, T) \<Rightarrow> (Inl e, T)
           | (Inr _, T) \<Rightarrow> (Inr (0, 1), T))
      | Some n \<Rightarrow>
          (let val = nPendingNonce n; ver = wrap64 (nVersion n + 1)
           in case exec (\<lambda>T. int4s [ver] (T\<lparr>t_nonces := upd (nonce_row wid ch)
                  (\<lambda>r. r\<lparr>nPendingNonce := wrap64 (val + 1), nVersion := ver, nUpdatedAt := now\<rparr>) (t_nonces T)\<rparr>)) T of
                (Inl e, T) \<Rightarrow> (Inl e, T)
              | (Inr _, T) \<Rightarrow> (Inr (val, ver), T)))"

definition pg_IncrementPendingNonce :: "unit res \<Rightarrow> time \<Rightarrow> uuid \<Rightarrow> string \<Rightarrow> tables \<Rightarrow> (int \<times> int) res \<times> tables" where
  "pg_IncrementPendingNonce cm now wid ch = pg_InTx cm (increment_tx now wid ch)"

definition pg_AdvanceBroadcastNonce :: "time \<Rightarrow> uuid \<Rightarrow> string \<Rightarrow> int \<Rightarrow> tables \<Rightarrow> unit res \<times> tables" where
  "pg_AdvanceBroadcastNonce now wid ch nonce =
     exec (\<lambda>T. Inr (T\<lparr>t_nonces := upd (nonce_row wid ch)
       (\<lambda>r. r\<lparr>nBroadcastNonce := max (nBroadcastNonce r) (wrap64 (nonce + 1)), nUpdatedAt := now\<rparr>) (t_nonces T)\<rparr>))"

definition pg_RollbackPendingNonce :: "time \<Rightarrow> uuid \<Rightarrow> string \<Rightarrow> int \<Rightarrow> tables \<Rightarrow> int res \<times> tables" where
  "pg_RollbackPendingNonce now wid ch to T =
     (let P = (\<lambda>r. nonce_row wid ch r \<and> nPendingNonce r = to + 1)
      in if \<not> int64_range (to + 1) then (Inl pq_range, T)
         else (case exec (\<lambda>T. Inr (T\<lparr>t_nonces := upd P (\<lambda>r. r\<lparr>nPendingNonce := to, nUpdatedAt := now\<rparr>) (t_nonces T)\<rparr>)) T of
                 (Inl e, T) \<Rightarrow> (Inl e, T)
               | (Inr _, T') \<Rightarrow> (Inr (int (length (filter P (t_nonces T)))), T')))"

section \<open>Withdrawals\<close>

definition pg_CreateWithdrawal :: "pglib \<Rightarrow> WithdrawalRequest \<Rightarrow> tables \<Rightarrow> unit res \<times> tables" where
  "pg_CreateWithdrawal L w =
     exec (\<lambda>T. case (pgNumeric L (wrAmount w), pqArray L (wrReservedOutpoints w)) of
       (Inl e, _) \<Rightarrow> Inl e
     | (_, None) \<Rightarrow> Inl pq_null
     | (Inr a, Some ops) \<Rightarrow> Inr (T\<lparr>t_withdrawals := t_withdrawals T @
         [w\<lparr>wrAmount := a, wrReservedOutpoints := ops, wrCreatedAt := pgTime L (wrCreatedAt w), wrUpdatedAt := pgTime L (wrUpdatedAt w)\<rparr>]\<rparr>))"

definition pg_GetWithdrawal :: "uuid \<Rightarrow> tables \<Rightarrow> WithdrawalRequest res" where
  "pg_GetWithdrawal i T = (case find (\<lambda>w. wrID w = i) (t_withdrawals T) of None \<Rightarrow> Inl ErrNoRows | Some w \<Rightarrow> Inr w)"

definition pg_ListWithdrawals :: "uuid \<Rightarrow> string \<Rightarrow> tables \<Rightarrow> WithdrawalRequest list" where
  "pg_ListWithdrawals wid stateF T =
     sort_Slice withdrawal_lt
       (filter (\<lambda>w. (wid \<noteq> uuid_Nil \<longrightarrow> wrWalletID w = wid) \<and> (stateF \<noteq> [] \<longrightarrow> wrState w = stateF)) (t_withdrawals T))"

definition pg_UpdateWithdrawalState ::
    "time \<Rightarrow> uuid \<Rightarrow> string \<Rightarrow> string \<Rightarrow> string \<Rightarrow> string \<Rightarrow> tables \<Rightarrow> unit res \<times> tables" where
  "pg_UpdateWithdrawalState now i st reason txHash policyDecisionID =
     exec (\<lambda>T. Inr (T\<lparr>t_withdrawals := upd (\<lambda>w. wrID w = i)
       (set_withdrawal_state now st reason txHash policyDecisionID) (t_withdrawals T)\<rparr>))"

definition pg_UpdateWithdrawalNonce :: "time \<Rightarrow> uuid \<Rightarrow> int \<Rightarrow> tables \<Rightarrow> unit res \<times> tables" where
  "pg_UpdateWithdrawalNonce now i nonce =
     exec (\<lambda>T. Inr (T\<lparr>t_withdrawals := upd (\<lambda>w. wrID w = i)
       (\<lambda>w. w\<lparr>wrNonceValue := Some nonce, wrUpdatedAt := now\<rparr>) (t_withdrawals T)\<rparr>))"

definition pg_UpdateWithdrawalOutpoints :: "pglib \<Rightarrow> time \<Rightarrow> uuid \<Rightarrow> string list \<Rightarrow> tables \<Rightarrow> unit res \<times> tables" where
  "pg_UpdateWithdrawalOutpoints L now i ops =
     exec (\<lambda>T. case pqArray L ops of
       None \<Rightarrow> if \<exists>w \<in> set (t_withdrawals T). wrID w = i then Inl pq_null else Inr T
     | Some ops \<Rightarrow> Inr (T\<lparr>t_withdrawals := upd (\<lambda>w. wrID w = i)
         (\<lambda>w. w\<lparr>wrReservedOutpoints := ops, wrUpdatedAt := now\<rparr>) (t_withdrawals T)\<rparr>))"

definition pg_UpdateWithdrawalSignedTx :: "time \<Rightarrow> uuid \<Rightarrow> byte list \<Rightarrow> tables \<Rightarrow> unit res \<times> tables" where
  "pg_UpdateWithdrawalSignedTx now i txBytes =
     exec (\<lambda>T. Inr (T\<lparr>t_withdrawals := upd (\<lambda>w. wrID w = i)
       (\<lambda>w. w\<lparr>wrSignedTxBytes := txBytes, wrUpdatedAt := now\<rparr>) (t_withdrawals T)\<rparr>))"

section \<open>Key mappings\<close>

definition pg_BindKeyMapping :: "pglib \<Rightarrow> KeyMapping \<Rightarrow> tables \<Rightarrow> unit res \<times> tables" where
  "pg_BindKeyMapping L m =
     exec (\<lambda>T. Inr (T\<lparr>t_keys := t_keys T @
       [m\<lparr>kActiveFrom := pgTime L (kActiveFrom m), kActiveTo := map_option (pgTime L) (kActiveTo m),
          kCreatedAt := pgTime L (kCreatedAt m)\<rparr>]\<rparr>))"

definition pg_ResolveActiveKey :: "uuid \<Rightarrow> tables \<Rightarrow> KeyMapping list res" where
  "pg_ResolveActiveKey wid T =
     (let out = sort_Slice key_lt (filter (\<lambda>m. kWalletID m = wid
            \<and> kRotationState m \<in> {RotationStateCurrent, RotationStateCooling}) (t_keys T))
      in if out = [] then Inl ErrNoRows else Inr out)"

definition rotate_tx :: "pglib \<Rightarrow> time \<Rightarrow> uuid \<Rightarrow> string \<Rightarrow> time \<Rightarrow> tables \<Rightarrow> unit res \<times> tables" where
  "rotate_tx L now wid newKeyID activeTo T =
     (case exec (\<lambda>T. Inr (T\<lparr>t_keys := upd (\<lambda>m. kWalletID m = wid \<and> kRotationState m = RotationStateCurrent)
              (\<lambda>m. m\<lparr>kRotationState := RotationStateCooling, kActiveTo := Some (pgTime L activeTo)\<rparr>) (t_keys T)\<rparr>)) T of
        (Inl e, T) \<Rightarrow> (Inl e, T)
      | (Inr _, T) \<Rightarrow>
          exec (\<lambda>T. Inr (T\<lparr>t_keys := upsert (\<lambda>m. kWalletID m = wid \<and> kKeyID m = newKeyID)
            (\<lambda>m. m\<lparr>kRotationState := RotationStateCurrent, kActiveFrom := now, kActiveTo := None\<rparr>)
            \<lparr>kWalletID = wid, kKeyID = newKeyID, kActiveFrom = now, kActiveTo = None, kRotationState = RotationStateCurrent,
             kCreatedAt = now\<rparr> (t_keys T)\<rparr>)) T)"

definition pg_RotateKeyMapping :: "pglib \<Rightarrow> unit res \<Rightarrow> time \<Rightarrow> uuid \<Rightarrow> string \<Rightarrow> int \<Rightarrow> tables \<Rightarrow> unit res \<times> tables" where
  "pg_RotateKeyMapping L cm now wid newKeyID cooling = pg_InTx cm (rotate_tx L now wid newKeyID (now + cooling))"

definition pg_ExpireCooling :: "time \<Rightarrow> tables \<Rightarrow> unit res \<times> tables" where
  "pg_ExpireCooling now = exec (\<lambda>T. Inr (T\<lparr>t_keys := map (expire_cooling now) (t_keys T)\<rparr>))"

section \<open>Funding requests\<close>

definition pg_CreateFundingRequest :: "pglib \<Rightarrow> FundingRequest \<Rightarrow> tables \<Rightarrow> unit res \<times> tables" where
  "pg_CreateFundingRequest L f =
     exec (\<lambda>T. case pgNumeric L (fAmount f) of
       Inl e \<Rightarrow> Inl e
     | Inr a \<Rightarrow> Inr (T\<lparr>t_funding := t_funding T @
         [f\<lparr>fAmount := a, fCreatedAt := pgTime L (fCreatedAt f), fUpdatedAt := pgTime L (fUpdatedAt f)\<rparr>]\<rparr>))"

definition pg_GetOpenFundingRequest :: "uuid \<Rightarrow> string \<Rightarrow> tables \<Rightarrow> FundingRequest res" where
  "pg_GetOpenFundingRequest wid asset T =
     (case find (\<lambda>f. fWalletID f = wid \<and> fAsset f = asset \<and> fState f = FundingStateRequested) (t_funding T) of
        None \<Rightarrow> Inl ErrNoRows
      | Some f \<Rightarrow> Inr f)"

definition pg_ListFundingRequests :: "uuid \<Rightarrow> string \<Rightarrow> tables \<Rightarrow> FundingRequest list" where
  "pg_ListFundingRequests wid stateF T =
     sort_Slice funding_lt
       (filter (\<lambda>f. (wid \<noteq> uuid_Nil \<longrightarrow> fWalletID f = wid) \<and> (stateF \<noteq> [] \<longrightarrow> fState f = stateF)) (t_funding T))"

definition pg_UpdateFundingState :: "time \<Rightarrow> uuid \<Rightarrow> string \<Rightarrow> string \<Rightarrow> tables \<Rightarrow> unit res \<times> tables" where
  "pg_UpdateFundingState now i st treasuryBatchID =
     exec (\<lambda>T. Inr (T\<lparr>t_funding := upd (\<lambda>f. fID f = i)
       (\<lambda>f. f\<lparr>fState := st, fTreasuryBatchID := (if treasuryBatchID \<noteq> [] then treasuryBatchID else fTreasuryBatchID f),
              fUpdatedAt := now\<rparr>) (t_funding T)\<rparr>))"

section \<open>Audit outbox\<close>

definition pg_AppendAuditEvent :: "pglib \<Rightarrow> AuditOutboxEvent \<Rightarrow> tables \<Rightarrow> unit res \<times> tables" where
  "pg_AppendAuditEvent L e =
     exec (\<lambda>T. Inr (T\<lparr>t_audit := t_audit T @
       [e\<lparr>eDelivered := False, eAttempts := 0, eCreatedAt := pgTime L (eCreatedAt e), eDeliveredAt := None\<rparr>]\<rparr>))"

definition pg_ListUndeliveredAuditEvents :: "int \<Rightarrow> tables \<Rightarrow> AuditOutboxEvent list res" where
  "pg_ListUndeliveredAuditEvents limit T =
     (if limit < 0 then Inl (ErrText ''pq: LIMIT must not be negative'')
      else Inr (take (nat limit) (sort_Slice audit_lt (filter (\<lambda>e. \<not> eDelivered e) (t_audit T)))))"

definition pg_MarkAuditDelivered :: "time \<Rightarrow> uuid \<Rightarrow> tables \<Rightarrow> unit res \<times> tables" where
  "pg_MarkAuditDelivered now i =
     exec (\<lambda>T. int4s (map (\<lambda>e. eAttempts e + 1) (filter (\<lambda>e. eID e = i) (t_audit T)))
       (T\<lparr>t_audit := upd (\<lambda>e. eID e = i)
          (\<lambda>e. e\<lparr>eDelivered := True, eAttempts := eAttempts e + 1, eDeliveredAt := Some now\<rparr>) (t_audit T)\<rparr>))"

definition pg_NextAuditSeq :: "uuid \<Rightarrow> tables \<Rightarrow> int res \<times> tables" where
  "pg_NextAuditSeq wid T =
     (let seq = (case map_of (t_seq T) wid of None \<Rightarrow> 1 | Some v \<Rightarrow> v + 1)
      in if \<not> int64_range seq then (Inl pq_range, T)
         else (case exec (\<lambda>T. Inr (T\<lparr>t_seq := upsert (\<lambda>(u, _). u = wid) (\<lambda>(u, v). (u, v + 1)) (wid, 1) (t_seq T)\<rparr>)) T of
                 (Inl e, T) \<Rightarrow> (Inl e, T)
               | (Inr _, T) \<Rightarrow> (Inr seq, T)))"

end
