(* ===== verification/PgStore.thy ===== *)
theory PgStore
  imports Postgres Nonce Utxo Balance Withdrawal
begin

text \<open>
  What the services rest on, for the store they run on in production. The tables give the allocator of nonces and the
  ledger of coins, the same contracts the in-memory store gives; four flows that work on the in-memory store
  and fail on the tables are the theorems of the second half.
\<close>

section \<open>Statements and rows\<close>

lemma find_append [simp]: "find P (xs @ ys) = (case find P xs of None \<Rightarrow> find P ys | Some x \<Rightarrow> Some x)"
  by (induction xs) auto

lemma find_upd:
  assumes "\<And>r. P r \<Longrightarrow> Q (f r) = Q r"
  shows "find Q (upd P f rows) = map_option (\<lambda>r. if P r then f r else r) (find Q rows)"
  using assms by (induction rows) (auto simp: upd_def)

lemma map_upd [simp]: "(\<And>r. P r \<Longrightarrow> key (f r) = key r) \<Longrightarrow> map key (upd P f rows) = map key rows"
  by (auto simp: upd_def)

lemma find_distinct:
  "distinct (map key rows) \<Longrightarrow> r \<in> set rows \<Longrightarrow> find (\<lambda>x. key x = key r) rows = Some r"
  by (induction rows) (auto simp: image_iff)

lemma exec_ok: "st T = Inr T' \<Longrightarrow> constraints T' \<Longrightarrow> exec st T = (Inr (), T')"
  by (simp add: exec_def)

lemma exec_Inr: "exec st T = (Inr u, T') \<Longrightarrow> st T = Inr T' \<and> constraints T'"
  by (auto simp: exec_def split: sum.splits if_splits)

lemma exec_Inl: "exec st T = (Inl e, T') \<Longrightarrow> T' = T"
  by (auto simp: exec_def split: sum.splits if_splits)

lemma pg_InTx_Inr: "pg_InTx cm fn T = (Inr x, T') \<Longrightarrow> fn T = (Inr x, T')"
  by (auto simp: pg_InTx_def split: sum.splits prod.splits)

lemma pg_InTx_Inl: "pg_InTx cm fn T = (Inl e, T') \<Longrightarrow> T' = T"
  by (auto simp: pg_InTx_def split: sum.splits prod.splits)

lemmas con_defs = wallets_con_def addresses_con_def balances_con_def utxos_con_def nonces_con_def withdrawals_con_def
  keys_con_def funding_con_def audit_con_def events_con_def fk_wallets_def

lemma constraints_nonces:
  "constraints T \<Longrightarrow> nonces_con (T\<lparr>t_nonces := ns\<rparr>) \<Longrightarrow> constraints (T\<lparr>t_nonces := ns\<rparr>)"
  by (simp add: constraints_def con_defs)

lemma constraints_utxos:
  "constraints T \<Longrightarrow> utxos_con (T\<lparr>t_utxos := us\<rparr>) \<Longrightarrow> constraints (T\<lparr>t_utxos := us\<rparr>)"
  by (simp add: constraints_def con_defs)

section \<open>The nonce allocator\<close>

abbreviation pg_pending :: "uuid \<Rightarrow> string \<Rightarrow> tables \<Rightarrow> int" where
  "pg_pending wid ch T \<equiv> nPendingNonce (pg_GetNonce wid ch T)"

abbreviation pg_broadcast :: "uuid \<Rightarrow> string \<Rightarrow> tables \<Rightarrow> int" where
  "pg_broadcast wid ch T \<equiv> nBroadcastNonce (pg_GetNonce wid ch T)"

text \<open>The service's calls: a reservation keeps the nonce, a rollback drops the count of rows.\<close>

definition pg_reserve :: "(time \<Rightarrow> unit res) \<Rightarrow> uuid \<Rightarrow> string \<Rightarrow> time \<Rightarrow> tables \<Rightarrow> int res \<times> tables" where
  "pg_reserve cm wid ch t T =
     (case pg_IncrementPendingNonce (cm t) t wid ch T of
        (Inl e, T) \<Rightarrow> (Inl e, T)
      | (Inr (v, _), T) \<Rightarrow> (Inr v, T))"

definition pg_rollback :: "uuid \<Rightarrow> string \<Rightarrow> time \<Rightarrow> int \<Rightarrow> tables \<Rightarrow> unit res \<times> tables" where
  "pg_rollback wid ch t v T =
     (case pg_RollbackPendingNonce t wid ch v T of
        (Inl e, T) \<Rightarrow> (Inl e, T)
      | (Inr _, T) \<Rightarrow> (Inr (), T))"

lemma pg_GetNonce_upd:
  assumes "t_nonces T' = upd P f (t_nonces T)" and "\<And>r. nonce_row wid ch (f r) = nonce_row wid ch r"
  shows "pg_GetNonce wid ch T' =
    (case find (nonce_row wid ch) (t_nonces T) of None \<Rightarrow> zero_nonce wid ch | Some n \<Rightarrow> if P n then f n else n)"
  by (simp add: pg_GetNonce_def assms find_upd split: option.splits)

lemma find_nonce_row: "find (nonce_row wid ch) ns = Some n \<Longrightarrow> nonce_row wid ch n"
  by (auto simp: find_Some_iff)

lemma increment_tx_Inr:
  assumes "increment_tx t wid ch T = (Inr (v, ver), T')" and "0 \<le> pg_pending wid ch T" and "pg_pending wid ch T < max_nonce"
  shows "v = pg_pending wid ch T \<and> constraints T' \<and> pg_pending wid ch T' = pg_pending wid ch T + 1
    \<and> pg_broadcast wid ch T' = pg_broadcast wid ch T"
proof (cases "find (nonce_row wid ch) (t_nonces T)")
  case None
  then show ?thesis
    using assms(1) by (auto simp: increment_tx_def pg_GetNonce_def zero_nonce_def nonce_row_def
      dest!: exec_Inr split: sum.splits prod.splits)
next
  case (Some n)
  have "wrap64 (nPendingNonce n + 1) = nPendingNonce n + 1"
    using assms(2,3) Some by (simp add: pg_GetNonce_def int64_range_def)
  then show ?thesis
    using assms(1) Some find_nonce_row [OF Some]
    by (auto simp: increment_tx_def Let_def int4s_def pg_GetNonce_def nonce_row_def find_upd
      dest!: exec_Inr split: sum.splits prod.splits if_splits)
qed

lemma pg_commit_Inr:
  assumes "pg_AdvanceBroadcastNonce t wid ch v T = (Inr (), T')" and "0 \<le> v" and "v < pg_pending wid ch T"
    and "pg_pending wid ch T \<le> max_nonce"
  shows "constraints T' \<and> pg_pending wid ch T' = pg_pending wid ch T
    \<and> pg_broadcast wid ch T' = max (pg_broadcast wid ch T) (v + 1)"
proof -
  have "wrap64 (v + 1) = v + 1"
    using assms(2,3,4) by (simp add: int64_range_def)
  moreover obtain n where n: "find (nonce_row wid ch) (t_nonces T) = Some n"
    using assms(2,3) by (auto simp: pg_GetNonce_def zero_nonce_def split: option.splits)
  ultimately show ?thesis
    using assms(1) find_nonce_row [OF n]
    by (auto simp: pg_AdvanceBroadcastNonce_def pg_GetNonce_def nonce_row_def find_upd dest!: exec_Inr)
qed

lemma pg_rollback_Inr:
  assumes "pg_rollback wid ch t v T = (Inr (), T')" and "0 \<le> v" and "v < pg_pending wid ch T"
  shows "constraints T' \<and> pg_pending wid ch T' = (if pg_pending wid ch T = v + 1 then v else pg_pending wid ch T)
    \<and> pg_broadcast wid ch T' = pg_broadcast wid ch T"
proof -
  obtain n where n: "find (nonce_row wid ch) (t_nonces T) = Some n"
    using assms(2,3) by (auto simp: pg_GetNonce_def zero_nonce_def split: option.splits)
  then show ?thesis
    using assms(1) find_nonce_row [OF n]
    by (auto simp: pg_rollback_def pg_RollbackPendingNonce_def Let_def pg_GetNonce_def nonce_row_def find_upd
      dest!: exec_Inr split: sum.splits prod.splits if_splits)
qed

interpretation pg_nonce: nonce_pool constraints "pg_pending wid ch" "pg_broadcast wid ch" "pg_reserve cm wid ch"
    "\<lambda>t. pg_AdvanceBroadcastNonce t wid ch" "pg_rollback wid ch"
proof (unfold_locales, goal_cases)
  case (1 s t v s')
  then obtain ver where "pg_IncrementPendingNonce (cm t) t wid ch s = (Inr (v, ver), s')"
    by (auto simp: pg_reserve_def split: sum.splits prod.splits)
  with 1 show ?case
    using increment_tx_Inr unfolding pg_IncrementPendingNonce_def by (auto dest!: pg_InTx_Inr)
next
  case 2 then show ?case using pg_commit_Inr by blast
next
  case 3 then show ?case using pg_rollback_Inr by blast
qed

text \<open>A reservation succeeds for a wallet of the table while its version fits the column, if the database commits.\<close>

lemma pg_reserve_ok:
  assumes T: "constraints T" and wid: "wid \<in> set (map wID (t_wallets T))" and cm: "cm t = Inr ()"
    and ver: "0 \<le> nVersion (pg_GetNonce wid ch T)" "nVersion (pg_GetNonce wid ch T) < 2 ^ 31 - 1"
  shows "is_ok (fst (pg_reserve cm wid ch t T))"
proof (cases "find (nonce_row wid ch) (t_nonces T)")
  case None
  let ?n = "\<lparr>nWalletID = wid, nChain = ch, nPendingNonce = 1, nBroadcastNonce = 0, nVersion = 1, nUpdatedAt = t\<rparr>"
  have "nonces_con (T\<lparr>t_nonces := t_nonces T @ [?n]\<rparr>)"
    using T wid None by (auto simp: constraints_def nonces_con_def fk_wallets_def find_None_iff nonce_row_def)
  then have "exec (\<lambda>T. Inr (T\<lparr>t_nonces := t_nonces T @ [?n]\<rparr>)) T = (Inr (), T\<lparr>t_nonces := t_nonces T @ [?n]\<rparr>)"
    by (intro exec_ok constraints_nonces T) simp_all
  then show ?thesis
    using None cm by (simp add: pg_reserve_def pg_IncrementPendingNonce_def pg_InTx_def increment_tx_def)
next
  case (Some n)
  let ?ns = "upd (nonce_row wid ch) (\<lambda>r. r\<lparr>nPendingNonce := wrap64 (nPendingNonce n + 1), nVersion := nVersion n + 1,
    nUpdatedAt := t\<rparr>) (t_nonces T)"
  have v: "wrap64 (nVersion n + 1) = nVersion n + 1" "int4 (nVersion n + 1)"
    using ver Some by (simp_all add: pg_GetNonce_def int64_range_def int4_def)
  have "nonces_con (T\<lparr>t_nonces := ?ns\<rparr>)"
    using T by (simp add: constraints_def nonces_con_def fk_wallets_def)
  then have "exec (\<lambda>T. int4s [nVersion n + 1] (T\<lparr>t_nonces := upd (nonce_row wid ch) (\<lambda>r. r\<lparr>nPendingNonce := wrap64 (nPendingNonce n + 1),
      nVersion := nVersion n + 1, nUpdatedAt := t\<rparr>) (t_nonces T)\<rparr>)) T = (Inr (), T\<lparr>t_nonces := ?ns\<rparr>)"
    by (intro exec_ok constraints_nonces T) (simp_all add: int4s_def v)
  then show ?thesis
    using Some cm v by (simp add: pg_reserve_def pg_IncrementPendingNonce_def pg_InTx_def increment_tx_def Let_def)
qed

section \<open>The coin ledger\<close>

definition pg_ustate :: "tables \<Rightarrow> string \<Rightarrow> string option" where
  "pg_ustate T op = map_option uLockState (find (\<lambda>u. uOutpoint u = op) (t_utxos T))"

lemma pg_ustate_row:
  "constraints T \<Longrightarrow> u \<in> set (t_utxos T) \<Longrightarrow> pg_ustate T (uOutpoint u) = Some (uLockState u)"
  using find_distinct [of uOutpoint "t_utxos T" u] by (simp add: pg_ustate_def constraints_def utxos_con_def)

lemma pg_ustate_upd:
  assumes f: "\<And>u. uOutpoint (f u) = uOutpoint u" and P: "\<And>u. P u \<Longrightarrow> uOutpoint u = op"
    and u: "find (\<lambda>u. uOutpoint u = op) (t_utxos T) = Some u" "P u"
  shows "pg_ustate (T\<lparr>t_utxos := upd P f (t_utxos T)\<rparr>) = (pg_ustate T)(op := Some (uLockState (f u)))"
proof
  fix op'
  have "\<not> P v" if "find (\<lambda>u. uOutpoint u = op') (t_utxos T) = Some v" "op' \<noteq> op" for v
    using that P by (auto simp: find_Some_iff)
  then show "pg_ustate (T\<lparr>t_utxos := upd P f (t_utxos T)\<rparr>) op' = ((pg_ustate T)(op := Some (uLockState (f u)))) op'"
    using u by (cases "find (\<lambda>u. uOutpoint u = op') (t_utxos T)") (auto simp: pg_ustate_def find_upd f)
qed

lemma lock_each_effect:
  "constraints T \<Longrightarrow> lock_each t ops T = (Inr (), T') \<Longrightarrow>
     constraints T' \<and> (\<forall>op \<in> set ops. pg_ustate T op = Some UTXOLockStateFree)
     \<and> pg_ustate T' = (\<lambda>op. if op \<in> set ops then Some UTXOLockStateLocked else pg_ustate T op)"
proof (induction ops arbitrary: T)
  case (Cons op ops)
  let ?P = "\<lambda>u. uOutpoint u = op \<and> uLockState u = UTXOLockStateFree"
  let ?T = "T\<lparr>t_utxos := upd ?P (lock_utxo t) (t_utxos T)\<rparr>"
  obtain u where u: "u \<in> set (t_utxos T)" "?P u"
    using Cons(3) by (auto split: if_splits)
  then have free: "pg_ustate T op = Some UTXOLockStateFree"
    using pg_ustate_row [OF Cons(2) u(1)] by simp
  have "utxos_con ?T"
    using Cons(2) by (simp add: constraints_def utxos_con_def fk_wallets_def lock_utxo_def)
  then have ex: "exec (\<lambda>T. Inr (T\<lparr>t_utxos := upd ?P (lock_utxo t) (t_utxos T)\<rparr>)) T = (Inr (), ?T)"
    and con: "constraints ?T"
    by (intro exec_ok constraints_utxos Cons(2); simp)+
  obtain v where v: "find (\<lambda>u. uOutpoint u = op) (t_utxos T) = Some v" "?P v"
    using free by (auto simp: pg_ustate_def find_Some_iff)
  have "pg_ustate ?T = (pg_ustate T)(op := Some UTXOLockStateLocked)"
    using pg_ustate_upd [of "lock_utxo t" ?P op T v] v by (simp add: lock_utxo_def)
  moreover have "lock_each t ops ?T = (Inr (), T')"
    using Cons(3) u ex by (auto split: if_splits)
  then have "constraints T' \<and> (\<forall>op \<in> set ops. pg_ustate ?T op = Some UTXOLockStateFree)
     \<and> pg_ustate T' = (\<lambda>op. if op \<in> set ops then Some UTXOLockStateLocked else pg_ustate ?T op)"
    using Cons.IH [OF con] by blast
  ultimately show ?case using free by (auto simp: fun_eq_iff split: if_splits)
qed simp

lemma restore_each_effect:
  "constraints T \<Longrightarrow> \<forall>op \<in> set ops. pg_ustate T op \<noteq> None \<Longrightarrow> update_each (restore_utxo t) ops T = (Inr (), T') \<Longrightarrow>
     pg_ustate T' = (\<lambda>op. if op \<in> set ops then Some UTXOLockStateFree else pg_ustate T op)"
proof (induction ops arbitrary: T)
  case (Cons op ops)
  obtain T1 where T1: "constraints T1" "update_each (restore_utxo t) ops T1 = (Inr (), T')"
    "T1 = T\<lparr>t_utxos := upd (\<lambda>u. uOutpoint u = op) (restore_utxo t) (t_utxos T)\<rparr>"
    using Cons(4) by (auto split: sum.splits prod.splits dest!: exec_Inr)
  obtain u where u: "find (\<lambda>u. uOutpoint u = op) (t_utxos T) = Some u" "uOutpoint u = op"
    using Cons(3) by (auto simp: pg_ustate_def find_Some_iff)
  have "pg_ustate T1 = (pg_ustate T)(op := Some UTXOLockStateFree)"
    using pg_ustate_upd [of "restore_utxo t" "\<lambda>u. uOutpoint u = op" op T u] u by (simp add: restore_utxo_def T1(3))
  moreover from this have "\<forall>op \<in> set ops. pg_ustate T1 op \<noteq> None" using Cons(3) by auto
  ultimately show ?case using Cons.IH [OF T1(1) _ T1(2)] by (auto simp: fun_eq_iff)
qed simp

interpretation pg_coins: coin_ledger constraints pg_ustate "\<lambda>(cm, t). pg_LockUTXOs cm t" "\<lambda>(cm :: unit res, t). pg_RestoreUTXOs t"
proof (unfold_locales, goal_cases)
  case (1 s k ops s')
  then show ?case
    using lock_each_effect by (cases k) (fastforce simp: pg_LockUTXOs_def dest!: pg_InTx_Inr split: if_splits)
next
  case (2 k ops s e s')
  then show ?case by (cases k) (auto simp: pg_LockUTXOs_def dest!: pg_InTx_Inl split: if_splits)
next
  case (3 s ops k s')
  then show ?case using restore_each_effect by (cases k) (simp add: pg_RestoreUTXOs_def)
qed

section \<open>Contracts kept by the tables\<close>

abbreviation pg_account_init :: "uuid \<Rightarrow> string \<Rightarrow> tables nonce_sys \<Rightarrow> bool" where
  "pg_account_init wid ch \<equiv> pool_init constraints (pg_pending wid ch) (pg_broadcast wid ch)"

abbreviation pg_account_step ::
    "(time \<Rightarrow> unit res) \<Rightarrow> uuid \<Rightarrow> string \<Rightarrow> tables nonce_sys \<Rightarrow> tables nonce_sys \<Rightarrow> bool" where
  "pg_account_step cm wid ch \<equiv>
     nonce_step (pg_pending wid ch) (pg_reserve cm wid ch) (\<lambda>t. pg_AdvanceBroadcastNonce t wid ch) (pg_rollback wid ch)"


definition sample_tables :: tables where
  "sample_tables = no_tables\<lparr>t_wallets := [sample_wallet ChainBase],
     t_utxos := [\<lparr>uOutpoint = ''a:0'', uWalletID = ''w'', uValue = ''5'', uScriptType = ''p2wpkh'', uConfirmations = 6,
       uLockState = UTXOLockStateFree, uLockedAt = None, uSpentAt = None, uTxHash = [], uUpdatedAt = 1\<rparr>]\<rparr>"

lemma sample_tables_constraints: "constraints sample_tables"
  by (simp add: sample_tables_def no_tables_def constraints_def con_defs sample_wallet_def)

lemma sample_tables_nonce [simp]: "pg_GetNonce ''w'' ch sample_tables = zero_nonce ''w'' ch"
  by (simp add: sample_tables_def no_tables_def pg_GetNonce_def)


text \<open>
  C4: coins are locked exclusively by the database. While a selection holds its outpoints, every other lock that names one of them is
  refused and changes nothing, whatever the outcome of its transaction would be; and when the selection is restored
  every outpoint has the state it had before.
\<close>

theorem pg_locks_exclusive:
  assumes "constraints T" and "pg_LockUTXOs cm t ops T = (Inr (), T')"
  shows "(set ops \<inter> set ops' \<noteq> {} \<longrightarrow>
      \<not> is_ok (fst (pg_LockUTXOs cm' t' ops' T')) \<and> snd (pg_LockUTXOs cm' t' ops' T') = T')
    \<and> (pg_RestoreUTXOs t' ops T' = (Inr (), T'') \<longrightarrow> pg_ustate T'' = pg_ustate T)"
  using pg_coins.locks_exclude [of T "(cm, t)" ops T' "(cm', t')" ops'] assms
    pg_coins.lock_then_restore [of T "(cm, t)" ops T' "(cm, t')"]
  by (cases "pg_LockUTXOs cm' t' ops' T'") auto

theorem pg_locks_exclusive_witness:
  "\<exists>T'. pg_LockUTXOs (Inr ()) 5 [''a:0''] sample_tables = (Inr (), T')
     \<and> \<not> is_ok (fst (pg_LockUTXOs (Inr ()) 6 [''a:0''] T'))"
proof -
  let ?T = "snd (pg_LockUTXOs (Inr ()) 5 [''a:0''] sample_tables)"
  have ok: "pg_LockUTXOs (Inr ()) 5 [''a:0''] sample_tables = (Inr (), ?T)"
    by (simp add: sample_tables_def no_tables_def pg_LockUTXOs_def pg_InTx_def exec_def upd_def lock_utxo_def constraints_def
      con_defs sample_wallet_def)
  then show ?thesis
    using pg_locks_exclusive [OF sample_tables_constraints ok, of "[''a:0'']" "Inr ()" 6] by (intro exI [of _ ?T]) simp
qed

section \<open>Deposits on the tables\<close>

text \<open>
  \<^verbatim>\<open>EmitterService.Emit\<close> and \<^verbatim>\<open>ApplyConfirmationEvent\<close> with the statements of this store. \<open>em\<close> is the pair of fresh
  identifiers of the outbox row, or nothing for a service without an emitter. The service drops the error of the emitter, but
  a failed statement aborts the transaction, whose commit then fails.
\<close>

definition pg_Emit :: "pglib \<Rightarrow> time \<Rightarrow> uuid \<times> uuid \<Rightarrow> Event \<Rightarrow> tables \<Rightarrow> unit res \<times> tables" where
  "pg_Emit L t us ev T =
     (case (case evWalletID ev of
              Some wid \<Rightarrow> pg_NextAuditSeq wid T
            | None \<Rightarrow> (Inr (UnixNano t), T)) of
        (Inl e, T) \<Rightarrow> (Inl (ErrWrap ''next audit seq'' e), T)
      | (Inr sq, T) \<Rightarrow>
          pg_AppendAuditEvent L
            \<lparr>eID = fst us, eEventID = snd us, eWalletID = evWalletID ev, eEventType = evType ev, ePayload = evPayload ev,
             eSeq = sq, eDelivered = False, eAttempts = 0, eCreatedAt = t, eDeliveredAt = None\<rparr> T)"

definition pg_confirm_tx ::
    "pglib \<Rightarrow> declib \<Rightarrow> Config \<Rightarrow> (uuid \<times> uuid) option \<Rightarrow> time \<Rightarrow> ConfirmationEvent \<Rightarrow> tables \<Rightarrow> unit res \<times> tables" where
  "pg_confirm_tx L D cfg em t ev T =
     (case (case pg_GetBalance (ceWalletID ev) (ceAsset ev) T of
              Inl e \<Rightarrow> if errors_Is e ErrNoRows then Inr (empty_balance (ceWalletID ev) (ceAsset ev)) else Inl e
            | Inr b \<Rightarrow> Inr b) of
        Inl e \<Rightarrow> (Inl e, T)
      | Inr cur \<Rightarrow>
          (let confirmed = parseDec D (bConfirmed cur);
               pend = parseDec D (bPending cur);
               amount = parseDec D (ceAmount ev);
               confirmed' = (if isConfirmed cfg ev then confirmed + amount else confirmed);
               pend' = (if isConfirmed cfg ev then pend else pend + amount)
           in case pg_UpsertBalance L t
                  \<lparr>bWalletID = ceWalletID ev, bAsset = ceAsset ev, bConfirmed = formatDec D confirmed',
                   bPending = formatDec D pend', bLocked = bLocked cur,
                   bLastBlockSeen = max64 (bLastBlockSeen cur) (ceBlockHeight ev), bUpdatedAt = t\<rparr> T of
                (Inl e, T) \<Rightarrow> (Inl e, T)
              | (Inr _, T) \<Rightarrow>
                  (case em of
                     None \<Rightarrow> (Inr (), T)
                   | Some us \<Rightarrow>
                       (case pg_Emit L t us \<lparr>evType = ''wallet.balance.updated'', evWalletID = Some (ceWalletID ev),
                               evPayload = [(''asset'', PStr (ceAsset ev)), (''confirmed'', PStr (formatDec D confirmed')),
                                 (''pending'', PStr (formatDec D pend')), (''block_height'', PInt (ceBlockHeight ev)),
                                 (''confirmations'', PInt (ceConfirmations ev))]\<rparr> T of
                          (Inl _, T) \<Rightarrow> (Inl (ErrText ''pq: current transaction is aborted''), T)
                        | (Inr _, T) \<Rightarrow> (Inr (), T)))))"

definition pg_ApplyConfirmationEvent ::
    "pglib \<Rightarrow> declib \<Rightarrow> Config \<Rightarrow> unit res \<Rightarrow> (uuid \<times> uuid) option \<Rightarrow> (uuid \<Rightarrow> string \<Rightarrow> tables \<Rightarrow> tables) option \<Rightarrow> uuid
     \<Rightarrow> time \<Rightarrow> ConfirmationEvent \<Rightarrow> tables \<Rightarrow> unit res \<times> tables" where
  "pg_ApplyConfirmationEvent L D cfg cm em onDecrease i t ev T =
     (case pg_RecordBalanceEvent \<lparr>beID = i, beWalletID = ceWalletID ev, beAsset = ceAsset ev,
             beBlockHeight = ceBlockHeight ev, beEventID = ceEventID ev\<rparr> T of
        (Inl e, T) \<Rightarrow> if errors_Is e ErrDuplicateEvent then (Inr (), T) else (Inl e, T)
      | (Inr _, T) \<Rightarrow>
          (case pg_InTx cm (pg_confirm_tx L D cfg em t ev) T of
             (Inl e, T) \<Rightarrow> (Inl e, T)
           | (Inr _, T) \<Rightarrow>
               (Inr (), case onDecrease of
                  None \<Rightarrow> T
                | Some hook \<Rightarrow>
                    if isConfirmed cfg ev \<and> parseDec D (ceAmount ev) < 0 then hook (ceWalletID ev) (ceAsset ev) T else T)))"

text \<open>
  What PostgreSQL documents of a \<^verbatim>\<open>NUMERIC(38,18)\<close> column: the empty text is no number, and every number is printed with its
  eighteen decimals.
\<close>

definition numeric_column :: "pglib \<Rightarrow> bool" where
  "numeric_column L = (\<not> is_ok (pgNumeric L []) \<and> (\<forall>x y. pgNumeric L x = Inr y \<longrightarrow> y = ''NaN'' \<or> CHR ''.'' \<in> set y))"

lemma pg_UpsertBalance_empty:
  "numeric_column L \<Longrightarrow> bLocked b = [] \<Longrightarrow> \<exists>e. pg_UpsertBalance L t b T = (Inl e, T)"
  by (cases "pgNumeric L []") (auto simp: numeric_column_def pg_UpsertBalance_def exec_def numeric3_def split: sum.splits prod.splits)

lemma pg_confirm_tx_fails:
  assumes "numeric_column L" and "find (\<lambda>b. bWalletID b = ceWalletID ev \<and> bAsset b = ceAsset ev) (t_balances T) = None"
  shows "\<exists>e. pg_confirm_tx L D cfg em t ev T = (Inl e, T)"
proof -
  have "\<forall>b. \<exists>e. bLocked b = [] \<longrightarrow> pg_UpsertBalance L t b T = (Inl e, T)"
    using pg_UpsertBalance_empty [OF assms(1)] by blast
  from choice [OF this] obtain f where "\<forall>b. bLocked b = [] \<longrightarrow> pg_UpsertBalance L t b T = (Inl (f b), T)" by blast
  then show ?thesis
    using assms(2) by (simp add: pg_confirm_tx_def pg_GetBalance_def empty_balance_def Let_def)
qed

abbreviation event_seen :: "ConfirmationEvent \<Rightarrow> tables \<Rightarrow> bool" where
  "event_seen ev T \<equiv> (ceWalletID ev, ceAsset ev, ceBlockHeight ev, ceEventID ev) \<in> event_tuple ` set (t_events T)"

lemma pg_RecordBalanceEvent_fresh:
  assumes "events_con T" and "beID e \<notin> beID ` set (t_events T)"
  shows "pg_RecordBalanceEvent e T =
    (if event_tuple e \<in> event_tuple ` set (t_events T) then (Inl ErrDuplicateEvent, T)
     else (Inr (), T\<lparr>t_events := t_events T @ [e]\<rparr>))"
proof (cases "event_tuple e \<in> event_tuple ` set (t_events T)")
  case True
  then obtain r where r: "r \<in> set (t_events T)" "event_tuple r = event_tuple e" by force
  then have "beID r \<noteq> beID e" using assms(2) by (metis imageI)
  with r True show ?thesis by (auto simp: pg_RecordBalanceEvent_def Let_def events_con_def)
next
  case False
  then have "event_tuple r \<noteq> event_tuple e" if "r \<in> set (t_events T)" for r using that by (metis imageI)
  with False assms show ?thesis by (auto simp: pg_RecordBalanceEvent_def Let_def events_con_def)
qed

text \<open>
  C11: on the tables the first deposit of an asset to a wallet is lost. The wallet has no row for the asset, so the service writes
  one whose locked amount is the empty text, which the column refuses: the delivery fails and no row is written.
  But the event was recorded before the transaction, so when it is delivered again it is acknowledged as already applied, and
  the tables stay as they are: the deposit is never credited.
\<close>

theorem pg_first_deposit_lost:
  assumes "numeric_column L" and "events_con T" and "\<not> event_seen ev T"
    and "find (\<lambda>b. bWalletID b = ceWalletID ev \<and> bAsset b = ceAsset ev) (t_balances T) = None"
    and "i \<notin> beID ` set (t_events T)" and "j \<notin> insert i (beID ` set (t_events T))"
    and "pg_ApplyConfirmationEvent L D cfg cm em hook i t ev T = (r, T')"
  shows "\<not> is_ok r \<and> t_balances T' = t_balances T
    \<and> pg_ApplyConfirmationEvent L D cfg cm' em' hook j t' ev T' = (Inr (), T')"
proof -
  let ?e = "\<lambda>i. \<lparr>beID = i, beWalletID = ceWalletID ev, beAsset = ceAsset ev, beBlockHeight = ceBlockHeight ev,
    beEventID = ceEventID ev\<rparr>"
  let ?T = "T\<lparr>t_events := t_events T @ [?e i]\<rparr>"
  have tup: "event_tuple (?e i) = (ceWalletID ev, ceAsset ev, ceBlockHeight ev, ceEventID ev)" for i
    by (simp add: event_tuple_def)
  obtain e where e: "pg_confirm_tx L D cfg em t ev ?T = (Inl e, ?T)"
    using pg_confirm_tx_fails [of L ev ?T D cfg em t] assms(1,4) by auto
  have T': "r = Inl e" "T' = ?T"
    using assms(7) e assms(3)
    by (simp_all add: pg_ApplyConfirmationEvent_def pg_RecordBalanceEvent_fresh [OF assms(2)] assms(5) tup pg_InTx_def)
  have "events_con ?T" using assms(2,3,5) by (auto simp: events_con_def tup)
  then have "pg_RecordBalanceEvent (?e j) ?T = (Inl ErrDuplicateEvent, ?T)"
    using assms(6) by (subst pg_RecordBalanceEvent_fresh) (auto simp: tup)
  then show ?thesis using T' by (simp add: pg_ApplyConfirmationEvent_def)
qed

definition sample_pg :: pglib where
  "sample_pg = \<lparr>pgNumeric = (\<lambda>x. if parse_nat x = None then Inl (ErrText ''pq: invalid input syntax for type numeric'')
     else Inr (x @ CHR ''.'' # replicate 18 CHR ''0'')), pgTime = id, pqArray = (\<lambda>xs. if xs = [] then None else Some xs)\<rparr>"

lemma sample_pg_column: "numeric_column sample_pg"
  by (simp add: numeric_column_def sample_pg_def parse_nat_def)

theorem pg_first_deposit_lost_witness:
  "\<exists>r T'. pg_ApplyConfirmationEvent sample_pg frac_lib default_config (Inr ()) None None ''1'' 5
       \<lparr>ceWalletID = ''w'', ceAsset = ''eth'', ceAmount = ''7'', ceConfirmations = 20, ceBlockHeight = 9, ceEventID = ''t'',
        ceIsFinalized = True, ceChain = ChainBase\<rparr> sample_tables = (r, T') \<and> \<not> is_ok r \<and> t_balances T' = []"
proof -
  let ?ev = "\<lparr>ceWalletID = ''w'', ceAsset = ''eth'', ceAmount = ''7'', ceConfirmations = 20, ceBlockHeight = 9, ceEventID = ''t'',
    ceIsFinalized = True, ceChain = ChainBase\<rparr>"
  obtain r T' where r: "pg_ApplyConfirmationEvent sample_pg frac_lib default_config (Inr ()) None None ''1'' 5 ?ev sample_tables = (r, T')"
    by (cases "pg_ApplyConfirmationEvent sample_pg frac_lib default_config (Inr ()) None None ''1'' 5 ?ev sample_tables")
  have "t_events sample_tables = []" "t_balances sample_tables = []"
    by (simp_all add: sample_tables_def no_tables_def)
  then have "\<not> is_ok r \<and> t_balances T' = []"
    using pg_first_deposit_lost [OF sample_pg_column _ _ _ _ _ r, of "''2''"] by (simp add: events_con_def)
  with r show ?thesis by blast
qed

section \<open>Payouts on the tables\<close>

lemma char_digit_dot [simp]: "char_digit CHR ''.'' = None"
  by (simp add: char_digit_def)

lemma digits_val_dot: "CHR ''.'' \<in> set s \<Longrightarrow> digits_val acc s = None"
  by (induction acc s rule: digits_val.induct) (auto split: option.splits)

lemma parse_nat_dot: "CHR ''.'' \<in> set s \<Longrightarrow> parse_nat s = None"
  by (simp add: parse_nat_def digits_val_dot)

lemma parse_int_dot: "CHR ''.'' \<in> set s \<Longrightarrow> parse_int s = None"
  by (cases s) (auto simp: parse_nat_dot)

lemma column_text_no_integer:
  assumes "numeric_column L" and "pgNumeric L x = Inr y"
  shows "big_SetString y = None" and "\<not> is_ok (ParseUint y 64)"
proof -
  have "parse_int ''NaN'' = None" "parse_nat ''NaN'' = None"
    by (simp_all add: parse_nat_def char_digit_def)
  moreover have "y = ''NaN'' \<or> CHR ''.'' \<in> set y" using assms by (simp add: numeric_column_def)
  ultimately have "parse_int y = None" "parse_nat y = None" using parse_int_dot parse_nat_dot by blast+
  then show "big_SetString y = None" "\<not> is_ok (ParseUint y 64)" by (simp_all add: big_SetString_def ParseUint_def)
qed

lemma pg_CreateWithdrawal_row:
  assumes "pg_CreateWithdrawal L wr T = (Inr (), T')"
  shows "\<exists>a wr'. pgNumeric L (wrAmount wr) = Inr a \<and> pg_GetWithdrawal (wrID wr) T' = Inr wr' \<and> wrAmount wr' = a"
proof -
  obtain a ops where a: "pgNumeric L (wrAmount wr) = Inr a" "constraints T'" "T' = T\<lparr>t_withdrawals := t_withdrawals T @
      [wr\<lparr>wrAmount := a, wrReservedOutpoints := ops, wrCreatedAt := pgTime L (wrCreatedAt wr), wrUpdatedAt := pgTime L (wrUpdatedAt wr)\<rparr>]\<rparr>"
    using assms by (cases "pgNumeric L (wrAmount wr)"; cases "pqArray L (wrReservedOutpoints wr)")
      (auto simp: pg_CreateWithdrawal_def dest!: exec_Inr)
  have "withdrawals_con T'" using a(2) by (simp add: constraints_def)
  then have "wrID wr \<notin> wrID ` set (t_withdrawals T)" by (simp add: withdrawals_con_def a(3))
  then have "find (\<lambda>w. wrID w = wrID wr) (t_withdrawals T) = None" unfolding find_None_iff by (metis imageI)
  then show ?thesis using a by (simp add: pg_GetWithdrawal_def)
qed

lemma column_amount_unbuildable:
  assumes "big_SetString (wrAmount wr) = None" and "\<not> is_ok (ParseUint (wrAmount wr) 64)"
    and "IsEVM (wChain w) \<or> wChain w = ChainSolana"
  shows "\<not> is_ok (BuildUnsignedTx X D w wr nonce ops opts)"
proof (cases "IsEVM (wChain w)")
  case True
  then show ?thesis by (simp add: BuildUnsignedTx_def buildEVMUnsignedTx_def assms(1) split: sum.splits)
next
  case False
  obtain e where "ParseUint (wrAmount wr) 64 = Inl e" using assms(2) by (cases "ParseUint (wrAmount wr) 64") auto
  moreover have "ChainSolana \<noteq> ChainBitcoin" by simp
  ultimately show ?thesis using False assms(3)
    by (auto simp: BuildUnsignedTx_def buildSolanaUnsignedTx_def Let_def split: sum.splits)
qed

text \<open>What \<^verbatim>\<open>lib/pq\<close> documents of \<^verbatim>\<open>pq.Array\<close>: a nil slice is \<^verbatim>\<open>NULL\<close>, any other the array of its elements.\<close>

definition pq_driver :: "pglib \<Rightarrow> bool" where
  "pq_driver L = (pqArray L [] = None \<and> (\<forall>x xs. pqArray L (x # xs) = Some (x # xs)))"

text \<open>
  C12: on the tables no payout of an EVM chain or of Solana gets as far as a signature, for two reasons. The row the service writes for a new
  request has no reserved outpoints, a nil slice that the driver sends as \<^verbatim>\<open>NULL\<close> to a column that is \<^verbatim>\<open>NOT NULL\<close>: every request is
  refused. And for any request that the table does accept, the amount is read back with the decimals of its column, and the transaction builders
  parse whole numbers only: building the transaction from the stored row fails.
\<close>

theorem pg_payouts_blocked:
  assumes "numeric_column L" and "pq_driver L"
  shows "(\<exists>e. pg_CreateWithdrawal L (new_withdrawal req i t) T = (Inl e, T))
    \<and> (pg_CreateWithdrawal L wr T = (Inr (), T') \<longrightarrow> IsEVM (wChain w) \<or> wChain w = ChainSolana \<longrightarrow>
        (\<exists>wr'. pg_GetWithdrawal (wrID wr) T' = Inr wr' \<and> \<not> is_ok (BuildUnsignedTx X D w wr' nonce ops opts)))"
proof (intro conjI impI)
  show "\<exists>e. pg_CreateWithdrawal L (new_withdrawal req i t) T = (Inl e, T)"
    using assms(2) by (cases "pgNumeric L (wcAmount req)")
      (auto simp: pq_driver_def pg_CreateWithdrawal_def new_withdrawal_def exec_def)
next
  assume created: "pg_CreateWithdrawal L wr T = (Inr (), T')" and ch: "IsEVM (wChain w) \<or> wChain w = ChainSolana"
  then obtain wr' where wr': "pgNumeric L (wrAmount wr) = Inr (wrAmount wr')" "pg_GetWithdrawal (wrID wr) T' = Inr wr'"
    using pg_CreateWithdrawal_row by blast
  note no = column_text_no_integer [OF assms(1) wr'(1)]
  show "\<exists>wr'. pg_GetWithdrawal (wrID wr) T' = Inr wr' \<and> \<not> is_ok (BuildUnsignedTx X D w wr' nonce ops opts)"
    using column_amount_unbuildable [OF no ch] wr'(2) by blast
qed

definition pg_request :: WithdrawalRequest where
  "pg_request = (sample_withdrawal ''0x01'' ''7'')\<lparr>wrReservedOutpoints := [''a:0'']\<rparr>"

lemma pg_request_simps [simp]:
  "wrID pg_request = ''x''" "wrAmount pg_request = ''7''" "wrReservedOutpoints pg_request = [''a:0'']"
  by (simp_all add: pg_request_def sample_withdrawal_def)

lemma sample_pg_7: "pgNumeric sample_pg ''7'' = Inr ''7.000000000000000000''"
  by (simp add: sample_pg_def parse_nat_def char_digit_def numeral_eq_Suc)

lemma sample_pg_driver: "pq_driver sample_pg"
  by (simp add: pq_driver_def sample_pg_def)

definition pg_created :: tables where
  "pg_created = sample_tables\<lparr>t_withdrawals := [pg_request\<lparr>wrAmount := ''7.000000000000000000''\<rparr>]\<rparr>"

lemma pg_created_constraints: "constraints pg_created"
  by (simp add: pg_created_def pg_request_def sample_tables_def no_tables_def constraints_def con_defs sample_wallet_def
    sample_withdrawal_def)

lemma pg_create: "pg_CreateWithdrawal sample_pg pg_request sample_tables = (Inr (), pg_created)"
proof -
  have "t_withdrawals sample_tables = []" "pgTime sample_pg = id" "pqArray sample_pg [''a:0''] = Some [''a:0'']"
    by (simp_all add: sample_tables_def no_tables_def sample_pg_def)
  then show ?thesis
    unfolding pg_CreateWithdrawal_def
    by (intro exec_ok pg_created_constraints) (simp add: sample_pg_7 pg_created_def)
qed

theorem pg_payouts_blocked_witness:
  "(\<exists>e. pg_CreateWithdrawal sample_pg
       (new_withdrawal \<lparr>wcWalletID = ''w'', wcToAddress = ''0x01'', wcAsset = ''eth'', wcAmount = ''7''\<rparr> ''x'' 5) sample_tables = (Inl e, sample_tables))
   \<and> (\<exists>wr'. pg_GetWithdrawal ''x'' pg_created = Inr wr'
       \<and> \<not> is_ok (BuildUnsignedTx sample_txlib frac_lib (sample_wallet ChainBase) wr' 0 [] sample_opts))"
proof -
  have "IsEVM (wChain (sample_wallet ChainBase)) \<or> wChain (sample_wallet ChainBase) = ChainSolana"
    by (simp add: sample_wallet_def IsEVM_def)
  then show ?thesis
    using pg_payouts_blocked [OF sample_pg_column sample_pg_driver, of _ _ _ sample_tables pg_request pg_created "sample_wallet ChainBase"]
      pg_create by simp
qed


definition pg_address :: "uuid \<Rightarrow> int \<Rightarrow> Address" where
  "pg_address i n = \<lparr>aID = i, aWalletID = ''w'', aChain = ChainSolana, aAddress = ''So1'', aDerivationPath = [], aIndex = n,
     aChange = 0, aState = AddressStateActive, aReceiveCount = 0, aCreatedAt = 1\<rparr>"


end
