(* ===== verification/StoreTypes.thy ===== *)
theory StoreTypes
  imports Memstore Decimal
begin

text \<open>
  The types the rows of the store keep beyond those of their fields: a row stands under its own key, a state is
  one of its enumeration, a counter fits 64 bits, and an amount of a balance is empty or a decimal that parses.
  Every method of the in-memory store that writes keeps them.
\<close>

section \<open>Typed rows\<close>

definition amount_typed :: "declib \<Rightarrow> string \<Rightarrow> bool" where
  "amount_typed D x = (x = [] \<or> NewFromString D x \<noteq> None)"

definition wallet_typed :: "uuid \<Rightarrow> Wallet \<Rightarrow> bool" where
  "wallet_typed k w = (k = wID w \<and> ValidWalletState (wState w))"

definition address_typed :: "uuid \<Rightarrow> Address \<Rightarrow> bool" where
  "address_typed k a =
     (k = aID a \<and> (aState a = AddressStateActive \<or> aState a = AddressStateDeprecated) \<and> int64_range (aReceiveCount a))"

definition balance_typed :: "declib \<Rightarrow> string \<Rightarrow> Balance \<Rightarrow> bool" where
  "balance_typed D k b =
     (k = balanceKey (bWalletID b) (bAsset b) \<and> amount_typed D (bConfirmed b) \<and> amount_typed D (bPending b)
      \<and> amount_typed D (bLocked b))"

definition utxo_typed :: "string \<Rightarrow> UTXO \<Rightarrow> bool" where
  "utxo_typed k u =
     (k = uOutpoint u \<and> (uLockState u = UTXOLockStateFree \<or> uLockState u = UTXOLockStateLocked \<or> uLockState u = UTXOLockStateSpent))"

definition nonce_typed :: "string \<Rightarrow> Nonce \<Rightarrow> bool" where
  "nonce_typed k n =
     (k = nonceKey (nWalletID n) (nChain n) \<and> int64_range (nPendingNonce n) \<and> int64_range (nBroadcastNonce n)
      \<and> int64_range (nVersion n))"

definition withdrawal_state :: "string \<Rightarrow> bool" where
  "withdrawal_state st =
     (st = WithdrawalStatePending \<or> st = WithdrawalStateWhitelisted \<or> st = WithdrawalStateSigned
      \<or> st = WithdrawalStateBroadcast \<or> st = WithdrawalStateConfirmed \<or> st = WithdrawalStateFailed)"

definition withdrawal_typed :: "uuid \<Rightarrow> WithdrawalRequest \<Rightarrow> bool" where
  "withdrawal_typed k wr =
     (k = wrID wr \<and> withdrawal_state (wrState wr) \<and> (case wrNonceValue wr of None \<Rightarrow> True | Some n \<Rightarrow> int64_range n))"

definition key_typed :: "uuid \<Rightarrow> KeyMapping \<Rightarrow> bool" where
  "key_typed k m =
     (k = kWalletID m \<and> (kRotationState m = RotationStateCurrent \<or> kRotationState m = RotationStateCooling
        \<or> kRotationState m = RotationStateRetired))"

definition funding_state :: "string \<Rightarrow> bool" where
  "funding_state st =
     (st = FundingStateRequested \<or> st = FundingStateApproved \<or> st = FundingStateSettled \<or> st = FundingStateRejected)"

definition funding_typed :: "uuid \<Rightarrow> FundingRequest \<Rightarrow> bool" where
  "funding_typed k f = (k = fID f \<and> funding_state (fState f))"

definition store_typed :: "declib \<Rightarrow> store \<Rightarrow> bool" where
  "store_typed D s =
     (rows_ok wallet_typed (wallets s) \<and> rows_ok address_typed (addresses s) \<and> rows_ok (balance_typed D) (balances s)
      \<and> rows_ok (\<lambda>_ _. True) (balanceEvents s) \<and> rows_ok utxo_typed (utxos s) \<and> rows_ok nonce_typed (nonces s)
      \<and> rows_ok withdrawal_typed (withdrawals s) \<and> rows_ok (\<lambda>k. list_all (key_typed k)) (keyMappings s)
      \<and> rows_ok funding_typed (fundingReq s) \<and> distinct (map eEventID (auditOutbox s))
      \<and> list_all (\<lambda>e. int64_range (eAttempts e)) (auditOutbox s) \<and> rows_ok (\<lambda>_. int64_range) (auditSeqCounters s)
      \<and> rows_ok (\<lambda>_ _. True) (inflightWithdrawals s))"

lemmas row_types = wallet_typed_def address_typed_def balance_typed_def utxo_typed_def nonce_typed_def withdrawal_typed_def
  key_typed_def funding_typed_def

declare wrap64_range [simp]

lemma typed_New: "store_typed D New"
  by (simp add: store_typed_def New_def)

section \<open>Writers\<close>

named_theorems typed_store "methods of the store that keep the types of its rows"

lemma typed_CreateWallet [typed_store]:
  "store_typed D s \<Longrightarrow> ValidWalletState (wState w) \<Longrightarrow> store_typed D (snd (CreateWallet t w s))"
  by (auto simp: CreateWallet_def store_typed_def row_types Let_def split: option.split intro!: rows_ok_update)

lemma typed_UpdateWalletState [typed_store]:
  "store_typed D s \<Longrightarrow> ValidWalletState st \<Longrightarrow> store_typed D (snd (UpdateWalletState t i st s))"
  by (auto simp: UpdateWalletState_def store_typed_def row_types split: option.split intro!: rows_ok_entry)

lemma typed_InsertAddress [typed_store]:
  "store_typed D s \<Longrightarrow> address_typed (aID a) a \<Longrightarrow> store_typed D (snd (InsertAddress t a s))"
  by (auto simp: InsertAddress_def store_typed_def row_types Let_def split: option.split intro!: rows_ok_update)

lemma typed_DeprecateAddress [typed_store]: "store_typed D s \<Longrightarrow> store_typed D (snd (DeprecateAddress i s))"
  by (auto simp: DeprecateAddress_def store_typed_def row_types split: option.split intro!: rows_ok_entry)

lemma typed_IncrementReceiveCount [typed_store]: "store_typed D s \<Longrightarrow> store_typed D (snd (IncrementReceiveCount i s))"
  by (auto simp: IncrementReceiveCount_def store_typed_def row_types split: option.split intro!: rows_ok_entry)

lemma typed_UpsertBalance [typed_store]:
  "store_typed D s \<Longrightarrow> amount_typed D (bConfirmed b) \<Longrightarrow> amount_typed D (bPending b) \<Longrightarrow> amount_typed D (bLocked b) \<Longrightarrow>
   store_typed D (snd (UpsertBalance t b s))"
  by (auto simp: UpsertBalance_def store_typed_def row_types intro!: rows_ok_update)

lemma typed_RecordBalanceEvent [typed_store]: "store_typed D s \<Longrightarrow> store_typed D (snd (RecordBalanceEvent e s))"
  by (auto simp: RecordBalanceEvent_def store_typed_def Let_def intro!: rows_ok_update)

lemma typed_InsertUTXO [typed_store]:
  "store_typed D s \<Longrightarrow> utxo_typed (uOutpoint u) u \<Longrightarrow> store_typed D (snd (InsertUTXO t u s))"
  by (auto simp: InsertUTXO_def store_typed_def row_types split: option.split intro!: rows_ok_update)

lemma typed_LockUTXOs [typed_store]: "store_typed D s \<Longrightarrow> store_typed D (snd (LockUTXOs t ops s))"
  by (auto simp: LockUTXOs_def store_typed_def row_types lock_utxo_def split: sum.split intro!: rows_ok_entries)

lemma rows_ok_missing:
  "rows_ok P m \<Longrightarrow> (\<And>k v. P k v \<Longrightarrow> P k (f v)) \<Longrightarrow> rows_ok P (snd (upd_until_missing f ops m))"
  by (induction f ops m rule: upd_until_missing.induct) (auto split: option.split)

lemma typed_MarkUTXOsSpent [typed_store]: "store_typed D s \<Longrightarrow> store_typed D (snd (MarkUTXOsSpent t ops h s))"
  using rows_ok_missing [of utxo_typed "utxos s" "spend_utxo t h" ops]
  by (auto simp: MarkUTXOsSpent_def store_typed_def row_types spend_utxo_def split: prod.split)

lemma typed_RestoreUTXOs [typed_store]: "store_typed D s \<Longrightarrow> store_typed D (snd (RestoreUTXOs t ops s))"
  using rows_ok_missing [of utxo_typed "utxos s" "restore_utxo t" ops]
  by (auto simp: RestoreUTXOs_def store_typed_def row_types restore_utxo_def split: prod.split)

lemma typed_PruneUTXOs [typed_store]: "store_typed D s \<Longrightarrow> store_typed D (snd (PruneUTXOs ops s))"
  by (auto simp: PruneUTXOs_def store_typed_def)

lemma typed_GetNonce:
  assumes "store_typed D s"
  shows "nonce_typed (nonceKey wid ch) (GetNonce wid ch s)"
  using assms rows_ok_get [of nonce_typed "nonces s" "nonceKey wid ch"]
  by (auto simp: GetNonce_def store_typed_def row_types zero_nonce_def int64_range_def split: option.split)

lemma typed_UpsertNonce [typed_store]:
  "store_typed D s \<Longrightarrow> nonce_typed (nonceKey (nWalletID n) (nChain n)) n \<Longrightarrow> store_typed D (snd (UpsertNonce t n s))"
  by (auto simp: UpsertNonce_def store_typed_def row_types intro!: rows_ok_update)

lemma typed_IncrementPendingNonce [typed_store]:
  "store_typed D s \<Longrightarrow> store_typed D (snd (IncrementPendingNonce t wid ch s))"
  using typed_GetNonce [of D s wid ch]
  by (auto simp: IncrementPendingNonce_def store_typed_def row_types Let_def intro!: rows_ok_update)

lemma typed_AdvanceBroadcastNonce [typed_store]:
  "store_typed D s \<Longrightarrow> store_typed D (snd (AdvanceBroadcastNonce t wid ch n s))"
  using typed_GetNonce [of D s wid ch]
  by (auto simp: AdvanceBroadcastNonce_def store_typed_def row_types Let_def intro!: rows_ok_update)

lemma typed_RollbackPendingNonce [typed_store]:
  "store_typed D s \<Longrightarrow> int64_range to \<Longrightarrow> store_typed D (snd (RollbackPendingNonce t wid ch to s))"
  by (auto simp: RollbackPendingNonce_def store_typed_def row_types split: option.split intro!: rows_ok_entry)

lemma typed_CreateWithdrawal [typed_store]:
  "store_typed D s \<Longrightarrow> withdrawal_typed (wrID w) w \<Longrightarrow> store_typed D (snd (CreateWithdrawal t w s))"
  by (auto simp: CreateWithdrawal_def store_typed_def row_types Let_def split: option.split intro!: rows_ok_update)

lemma typed_UpdateWithdrawalState [typed_store]:
  "store_typed D s \<Longrightarrow> withdrawal_state st \<Longrightarrow> store_typed D (snd (UpdateWithdrawalState t i st reason h p s))"
  by (auto simp: UpdateWithdrawalState_def store_typed_def row_types set_withdrawal_state_def Let_def
    split: option.split intro!: rows_ok_entry)

lemma typed_UpdateWithdrawalNonce [typed_store]:
  "store_typed D s \<Longrightarrow> int64_range n \<Longrightarrow> store_typed D (snd (UpdateWithdrawalNonce t i n s))"
  by (auto simp: UpdateWithdrawalNonce_def store_typed_def row_types split: option.split intro!: rows_ok_entry)

lemma typed_UpdateWithdrawalOutpoints [typed_store]:
  "store_typed D s \<Longrightarrow> store_typed D (snd (UpdateWithdrawalOutpoints t i ops s))"
  by (auto simp: UpdateWithdrawalOutpoints_def store_typed_def row_types split: option.split intro!: rows_ok_entry)

lemma typed_UpdateWithdrawalSignedTx [typed_store]:
  "store_typed D s \<Longrightarrow> store_typed D (snd (UpdateWithdrawalSignedTx t i tx s))"
  by (auto simp: UpdateWithdrawalSignedTx_def store_typed_def row_types split: option.split intro!: rows_ok_entry)

lemma typed_key_list: "store_typed D s \<Longrightarrow> list_all (key_typed wid) (get_list (keyMappings s) wid)"
  using rows_ok_get [of "\<lambda>k. list_all (key_typed k)" "keyMappings s" wid]
  by (auto simp: store_typed_def get_list_def split: option.split)

lemma typed_BindKeyMapping [typed_store]:
  "store_typed D s \<Longrightarrow> key_typed (kWalletID m) m \<Longrightarrow> store_typed D (snd (BindKeyMapping t m s))"
  using typed_key_list [of D s "kWalletID m"]
  by (auto simp: BindKeyMapping_def store_typed_def row_types Let_def intro!: rows_ok_update)

lemma list_all_revive:
  "list_all (key_typed k) ms \<Longrightarrow> revive_key t i ms = Some ms' \<Longrightarrow> list_all (key_typed k) ms'"
  by (induction ms arbitrary: ms') (auto simp: row_types split: if_splits)

lemma typed_RotateKeyMapping [typed_store]:
  assumes s: "store_typed D s"
  shows "store_typed D (snd (RotateKeyMapping t wid i c s))"
proof -
  let ?ms = "map (cool_current (t + c)) (get_list (keyMappings s) wid)"
  have "list_all (key_typed wid) ?ms"
    using typed_key_list [OF s, of wid] by (auto simp: list_all_iff cool_current_def row_types)
  then show ?thesis
    using s list_all_revive [of wid ?ms t i]
    by (auto simp: RotateKeyMapping_def store_typed_def Let_def key_typed_def split: option.split intro!: rows_ok_update)
qed

lemma typed_ExpireCooling [typed_store]: "store_typed D s \<Longrightarrow> store_typed D (snd (ExpireCooling t s))"
  by (fastforce simp: ExpireCooling_def store_typed_def rows_ok_def map_ok_def list_all_iff expire_cooling_def row_types
    comp_def case_prod_beta)

lemma typed_CreateFundingRequest [typed_store]:
  "store_typed D s \<Longrightarrow> funding_state (fState f) \<Longrightarrow> store_typed D (snd (CreateFundingRequest t f s))"
  by (auto simp: CreateFundingRequest_def store_typed_def row_types Let_def intro!: rows_ok_update)

lemma typed_UpdateFundingState [typed_store]:
  "store_typed D s \<Longrightarrow> funding_state st \<Longrightarrow> store_typed D (snd (UpdateFundingState t i st b s))"
  by (auto simp: UpdateFundingState_def store_typed_def row_types split: option.split intro!: rows_ok_entry)

lemma typed_AppendAuditEvent [typed_store]:
  "store_typed D s \<Longrightarrow> int64_range (eAttempts e) \<Longrightarrow> store_typed D (snd (AppendAuditEvent t e s))"
  by (auto simp: AppendAuditEvent_def store_typed_def Let_def)

lemma mark_first_typed:
  "mark_first t i es = Some es' \<Longrightarrow> map eEventID es' = map eEventID es
    \<and> (list_all (\<lambda>e. int64_range (eAttempts e)) es \<longrightarrow> list_all (\<lambda>e. int64_range (eAttempts e)) es')"
  by (induction es arbitrary: es') (auto split: if_splits)

lemma typed_MarkAuditDelivered [typed_store]: "store_typed D s \<Longrightarrow> store_typed D (snd (MarkAuditDelivered t i s))"
  using mark_first_typed [of t i "auditOutbox s"]
  by (auto simp: MarkAuditDelivered_def store_typed_def split: option.split)

lemma typed_NextAuditSeq [typed_store]: "store_typed D s \<Longrightarrow> store_typed D (snd (NextAuditSeq wid s))"
  by (auto simp: NextAuditSeq_def store_typed_def Let_def intro!: rows_ok_update)

section \<open>Key mappings\<close>

text \<open>Only binding, rotating and expiring keys write the table of key mappings.\<close>

lemma keys_kept [typed_store]:
  "keyMappings (snd (CreateWallet t w s)) = keyMappings s" "keyMappings (snd (UpdateWalletState t i st s)) = keyMappings s"
  "keyMappings (snd (InsertAddress t a s)) = keyMappings s" "keyMappings (snd (DeprecateAddress i s)) = keyMappings s"
  "keyMappings (snd (IncrementReceiveCount i s)) = keyMappings s" "keyMappings (snd (UpsertBalance t b s)) = keyMappings s"
  "keyMappings (snd (RecordBalanceEvent e s)) = keyMappings s" "keyMappings (snd (InsertUTXO t u s)) = keyMappings s"
  "keyMappings (snd (LockUTXOs t ops s)) = keyMappings s" "keyMappings (snd (MarkUTXOsSpent t ops h s)) = keyMappings s"
  "keyMappings (snd (RestoreUTXOs t ops s)) = keyMappings s" "keyMappings (snd (PruneUTXOs ops s)) = keyMappings s"
  "keyMappings (snd (UpsertNonce t n s)) = keyMappings s" "keyMappings (snd (IncrementPendingNonce t wid ch s)) = keyMappings s"
  "keyMappings (snd (AdvanceBroadcastNonce t wid ch k s)) = keyMappings s" "keyMappings (snd (RollbackPendingNonce t wid ch k s)) = keyMappings s"
  "keyMappings (snd (CreateWithdrawal t wr s)) = keyMappings s" "keyMappings (snd (UpdateWithdrawalState t i st reason h p s)) = keyMappings s"
  "keyMappings (snd (UpdateWithdrawalNonce t i k s)) = keyMappings s" "keyMappings (snd (UpdateWithdrawalOutpoints t i ops s)) = keyMappings s"
  "keyMappings (snd (UpdateWithdrawalSignedTx t i tx s)) = keyMappings s" "keyMappings (snd (CreateFundingRequest t f s)) = keyMappings s"
  "keyMappings (snd (UpdateFundingState t i st bid s)) = keyMappings s" "keyMappings (snd (AppendAuditEvent t ev s)) = keyMappings s"
  "keyMappings (snd (MarkAuditDelivered t i s)) = keyMappings s" "keyMappings (snd (NextAuditSeq wid s)) = keyMappings s"
  by (simp_all add: CreateWallet_def UpdateWalletState_def InsertAddress_def DeprecateAddress_def IncrementReceiveCount_def
      UpsertBalance_def RecordBalanceEvent_def InsertUTXO_def LockUTXOs_def MarkUTXOsSpent_def RestoreUTXOs_def
      PruneUTXOs_def UpsertNonce_def IncrementPendingNonce_def AdvanceBroadcastNonce_def RollbackPendingNonce_def
      CreateWithdrawal_def UpdateWithdrawalState_def UpdateWithdrawalNonce_def UpdateWithdrawalOutpoints_def
      UpdateWithdrawalSignedTx_def CreateFundingRequest_def UpdateFundingState_def AppendAuditEvent_def
      MarkAuditDelivered_def NextAuditSeq_def
      Let_def split: option.split sum.split prod.split)

end
