(* ===== verification/ServiceTypes.thy ===== *)
theory ServiceTypes
  imports StoreTypes Keys Rest Grpc
begin

text \<open>
  Every operation of every service keeps the types of the rows, and so does every request to the two APIs. The proofs
  follow the syntax of an operation: \<open>ty\<close> and \<open>wty\<close> say of a call's outcome and of a state that the rows are typed and the
  key mappings have a property \<open>Q\<close>, and there is one rule per construct of the model.
\<close>

section \<open>Rules\<close>

definition kept :: "declib \<Rightarrow> ((uuid, KeyMapping list) gomap \<Rightarrow> bool) \<Rightarrow> store \<Rightarrow> bool" where
  "kept D Q s = (store_typed D s \<and> Q (keyMappings s))"

definition wty :: "declib \<Rightarrow> ((uuid, KeyMapping list) gomap \<Rightarrow> bool) \<Rightarrow> world \<Rightarrow> bool" where
  "wty D Q w = kept D Q (db w)"

definition ty :: "declib \<Rightarrow> ((uuid, KeyMapping list) gomap \<Rightarrow> bool) \<Rightarrow> 'a \<times> world \<Rightarrow> bool" where
  "ty D Q p = wty D Q (snd p)"

lemma ty_pair: "wty D Q w \<Longrightarrow> ty D Q (r, w)"
  by (simp add: ty_def)

lemma ty_bind: "ty D Q p \<Longrightarrow> (\<And>r w. p = (r, w) \<Longrightarrow> wty D Q w \<Longrightarrow> ty D Q (g r w)) \<Longrightarrow> ty D Q (case p of (r, w) \<Rightarrow> g r w)"
  by (cases p) (simp add: ty_def)

lemma ty_split: "(\<And>a b. p = (a, b) \<Longrightarrow> ty D Q (g a b)) \<Longrightarrow> ty D Q (case p of (a, b) \<Rightarrow> g a b)"
  by (cases p) simp

lemma ty_sum: "(\<And>e. r = Inl e \<Longrightarrow> ty D Q (f e)) \<Longrightarrow> (\<And>x. r = Inr x \<Longrightarrow> ty D Q (g x)) \<Longrightarrow>
    ty D Q (case r of Inl e \<Rightarrow> f e | Inr x \<Rightarrow> g x)"
  by (cases r) simp_all

lemma ty_option: "(r = None \<Longrightarrow> ty D Q f) \<Longrightarrow> (\<And>x. r = Some x \<Longrightarrow> ty D Q (g x)) \<Longrightarrow>
    ty D Q (case r of None \<Rightarrow> f | Some x \<Rightarrow> g x)"
  by (cases r) simp_all

lemma ty_list: "(r = [] \<Longrightarrow> ty D Q f) \<Longrightarrow> (\<And>x xs. r = x # xs \<Longrightarrow> ty D Q (g x xs)) \<Longrightarrow>
    ty D Q (case r of [] \<Rightarrow> f | x # xs \<Rightarrow> g x xs)"
  by (cases r) simp_all

lemma ty_if: "(b \<Longrightarrow> ty D Q p) \<Longrightarrow> (\<not> b \<Longrightarrow> ty D Q q) \<Longrightarrow> ty D Q (if b then p else q)"
  by simp

lemma wty_if: "(b \<Longrightarrow> wty D Q p) \<Longrightarrow> (\<not> b \<Longrightarrow> wty D Q q) \<Longrightarrow> wty D Q (if b then p else q)"
  by simp

lemma wty_option: "(r = None \<Longrightarrow> wty D Q f) \<Longrightarrow> (\<And>x. r = Some x \<Longrightarrow> wty D Q (g x)) \<Longrightarrow>
    wty D Q (case r of None \<Rightarrow> f | Some x \<Rightarrow> g x)"
  by (cases r) simp_all

lemma ty_let: "wty D Q x \<Longrightarrow> (\<And>w. wty D Q w \<Longrightarrow> ty D Q (g w)) \<Longrightarrow> ty D Q (let w = x in g w)"
  by (simp add: Let_def)

lemma wty_let: "wty D Q x \<Longrightarrow> (\<And>w. wty D Q w \<Longrightarrow> wty D Q (g w)) \<Longrightarrow> wty D Q (let w = x in g w)"
  by (simp add: Let_def)

lemma ty_let_any: "ty D Q (g x) \<Longrightarrow> ty D Q (let y = x in g y)"
  by (simp add: Let_def)

lemma wty_snd: "ty D Q p \<Longrightarrow> wty D Q (snd p)"
  by (simp add: ty_def)

lemmas ty_rules = ty_pair ty_bind ty_split ty_sum ty_option ty_list ty_if ty_let ty_let_any wty_if wty_option wty_let wty_snd

section \<open>The shared state\<close>

named_theorems typed_ops "operations that keep the types of the rows"

lemma ty_on_db: "wty D Q w \<Longrightarrow> (store_typed D (db w) \<Longrightarrow> store_typed D (snd (f (db w))))
    \<Longrightarrow> keyMappings (snd (f (db w))) = keyMappings (db w) \<Longrightarrow> ty D Q (on_db f w)"
  by (simp add: ty_def wty_def kept_def on_db_def case_prod_beta)

lemma ty_on_any: "wty D (\<lambda>_. True) w \<Longrightarrow> (store_typed D (db w) \<Longrightarrow> store_typed D (snd (f (db w)))) \<Longrightarrow> ty D (\<lambda>_. True) (on_db f w)"
  by (simp add: ty_def wty_def kept_def on_db_def case_prod_beta)

lemma wty_typed: "wty D Q w \<Longrightarrow> store_typed D (db w)"
  by (simp add: wty_def kept_def)

lemma ty_NewUUID [typed_ops]: "wty D Q w \<Longrightarrow> ty D Q (NewUUID w)"
  by (simp add: ty_def wty_def NewUUID_def)

lemma ty_Acquire [typed_ops]: "wty D Q w \<Longrightarrow> ty D Q (Acquire n w)"
  by (simp add: ty_def wty_def Acquire_def NewUUID_def split: option.split)

lemma ty_Release [typed_ops]: "wty D Q w \<Longrightarrow> ty D Q (Release n t w)"
  by (simp add: ty_def wty_def Release_def split: option.split)

lemma ty_InTx [typed_ops]: "wty D Q w \<Longrightarrow> ty D Q (fn w) \<Longrightarrow> ty D Q (InTx k fn w)"
  by (auto simp: ty_def wty_def InTx_def split: prod.split sum.split)

lemma ty_Emit [typed_ops]: "wty D Q w \<Longrightarrow> ty D Q (Emit ev w)"
  unfolding Emit_def
  by (intro ty_rules ty_on_db typed_store typed_ops; (assumption | simp add: int64_range_def))

lemma wty_emit [typed_ops]: "wty D Q w \<Longrightarrow> wty D Q (emit em ev w)"
  using ty_Emit [of D Q w ev] by (simp add: emit_def ty_def split: Emitter.split)

lemma typed_mark_all [typed_store]: "store_typed D s \<Longrightarrow> store_typed D (snd (mark_all t es s))"
proof (induction t es s rule: mark_all.induct)
  case (2 t e es s)
  then show ?case using typed_MarkAuditDelivered [of D s t "eID e"] by (auto split: prod.split sum.split)
qed simp

lemma keys_mark_all [typed_store]: "keyMappings (snd (mark_all t es s)) = keyMappings s"
proof (induction t es s rule: mark_all.induct)
  case (2 t e es s)
  then show ?case using keys_kept(25) [of t "eID e" s] by (auto split: prod.split sum.split)
qed simp

lemma ty_Drain [typed_ops]: "wty D Q w \<Longrightarrow> ty D Q (Drain sink w)"
  unfolding Drain_def Let_def by (intro ty_rules ty_on_db typed_store; assumption)

section \<open>Services\<close>

lemma ty_Bind [typed_ops]: "wty D (\<lambda>_. True) w \<Longrightarrow> ty D (\<lambda>_. True) (Bind wid k w)"
  unfolding Bind_def by (intro ty_on_any typed_store) (simp_all add: key_typed_def)

lemma ty_Rotate [typed_ops]: "wty D (\<lambda>_. True) w \<Longrightarrow> ty D (\<lambda>_. True) (Rotate cfg em wid k w)"
  unfolding Rotate_def by (intro ty_rules ty_on_any typed_store typed_ops; assumption)

lemma ty_ExpireCoolingKeys [typed_ops]: "wty D (\<lambda>_. True) w \<Longrightarrow> ty D (\<lambda>_. True) (ExpireCoolingKeys w)"
  unfolding ExpireCoolingKeys_def by (intro ty_on_any typed_store)

lemma ty_Create [typed_ops]: "wty D Q w \<Longrightarrow> ty D Q (Create svc req w)"
  unfolding Create_def new_key_id_def
  by (intro ty_rules ty_on_db typed_store typed_ops; (assumption | simp add: ValidWalletState_def))

lemma ty_SetState [typed_ops]: "wty D Q w \<Longrightarrow> ty D Q (SetState svc i st w)"
  unfolding SetState_def by (intro ty_rules ty_on_db typed_store typed_ops; (assumption | simp))

lemma ty_derive_cached: "wty D Q w \<Longrightarrow> ty D Q (derive_cached ttl key c w)"
  by (simp add: ty_def wty_def derive_cached_def split: prod.split)

lemma ty_DeriveAt [typed_ops]: "wty D Q w \<Longrightarrow> ty D Q (DeriveAt K reg ch i c w)"
  unfolding DeriveAt_def evm_DeriveAt_def btc_DeriveAt_def sol_DeriveAt_def
  by (intro ty_rules ty_derive_cached; assumption)

lemma ty_deriveNew [typed_ops]: "wty D Q w \<Longrightarrow> ty D Q (deriveNew svc wl w)"
  unfolding deriveNew_def retire_solana_def
  by (intro ty_rules ty_on_db typed_store typed_ops; (assumption | simp add: address_typed_def new_address_def int64_range_def))

lemma ty_with_addr_lock: "wty D Q w \<Longrightarrow> (\<And>w. wty D Q w \<Longrightarrow> ty D Q (body w)) \<Longrightarrow> ty D Q (with_addr_lock wl body w)"
  unfolding with_addr_lock_def by (intro ty_rules typed_ops; (assumption | simp))

lemma ty_rotate [typed_ops]: "wty D Q w \<Longrightarrow> ty D Q (rotate svc wl old w)"
  unfolding rotate_def rotate_locked_def
  by (intro ty_with_addr_lock ty_rules ty_on_db typed_store typed_ops; assumption)

lemma ty_derive_loop:
  "(\<And>w. wty D Q w \<Longrightarrow> wty D Q (others w)) \<Longrightarrow> wty D Q w \<Longrightarrow> ty D Q (derive_loop k others svc wl w)"
proof (induction k arbitrary: w)
  case (Suc k)
  show ?case unfolding derive_loop.simps
    by (intro ty_rules typed_ops Suc.IH Suc.prems(1); (assumption | rule Suc.prems(2)))
qed (simp add: ty_pair)

lemma ty_DeriveAddress [typed_ops]:
  "wty D Q w \<Longrightarrow> (\<And>w. wty D Q w \<Longrightarrow> wty D Q (others w)) \<Longrightarrow> ty D Q (DeriveAddress others svc wid force w)"
  unfolding DeriveAddress_def ForceRotate_def CurrentOrRotate_def deriveNewLocked_def
  by (intro ty_rules typed_ops ty_derive_loop ty_with_addr_lock; assumption)

lemma ty_createRequest [typed_ops]: "wty D Q w \<Longrightarrow> ty D Q (createRequest fs wl asset amount reason w)"
  unfolding createRequest_def
  by (intro ty_rules ty_on_db typed_store typed_ops; (assumption | simp add: funding_state_def new_funding_def))

lemma ty_EvaluateAndRequest [typed_ops]: "wty D Q w \<Longrightarrow> ty D Q (EvaluateAndRequest fs wid asset w)"
  unfolding EvaluateAndRequest_def by (intro ty_rules typed_ops; assumption)

lemma ty_ManualRequest [typed_ops]: "wty D Q w \<Longrightarrow> ty D Q (ManualRequest fs wid asset amount reason w)"
  unfolding ManualRequest_def by (intro ty_rules typed_ops; assumption)

lemma ty_Mark [typed_ops]:
  "wty D Q w \<Longrightarrow> ty D Q (MarkApproved i b w)" "wty D Q w \<Longrightarrow> ty D Q (MarkSettled i w)" "wty D Q w \<Longrightarrow> ty D Q (MarkRejected i reason w)"
  unfolding MarkApproved_def MarkSettled_def MarkRejected_def
  by (intro ty_on_db typed_store; simp add: funding_state_def)+

section \<open>Balances\<close>

lemma amount_format: "declib_ok D \<Longrightarrow> dec_repr D x \<Longrightarrow> amount_typed D (formatDec D x)"
  by (simp add: amount_typed_def formatDec_def declib_ok_def)

lemma amount_empty [simp]: "amount_typed D []"
  by (simp add: amount_typed_def)

lemma typed_GetBalance:
  "wty D Q w \<Longrightarrow> GetBalance wid asset (db w) = Inr b \<Longrightarrow> amount_typed D (bConfirmed b) \<and> amount_typed D (bPending b) \<and> amount_typed D (bLocked b)"
  using rows_ok_get [of "balance_typed D" "balances (db w)" "balanceKey wid asset" b]
  by (auto simp: wty_def kept_def store_typed_def GetBalance_def balance_typed_def split: option.splits)

lemma ty_confirm_tx:
  assumes D: "declib_ok D" and w: "wty D Q w"
  shows "ty D Q (confirm_tx D cfg em ev w)"
proof -
  note amounts = amount_format [OF D] repr_intros [OF D]
  have locked: "amount_typed D (bLocked cur)"
    if "(case GetBalance wid a (db w) of Inl e \<Rightarrow> if errors_Is e ErrNoRows then Inr (empty_balance wid a) else Inl e
         | Inr b \<Rightarrow> Inr b) = Inr cur" for wid a cur
    using that typed_GetBalance [OF w, of wid a] by (auto simp: empty_balance_def split: sum.splits if_splits)
  show ?thesis
    unfolding confirm_tx_def Let_def
    by (intro ty_rules ty_on_db typed_store typed_ops; (assumption | rule w | (simp, erule locked) | simp add: amounts))
qed

lemma ty_ApplyConfirmationEvent [typed_ops]:
  assumes "declib_ok D" and "wty D Q w" and "\<And>hook wid a w. onDecrease = Some hook \<Longrightarrow> wty D Q w \<Longrightarrow> wty D Q (hook wid a w)"
  shows "ty D Q (ApplyConfirmationEvent D cfg em onDecrease ev w)"
  unfolding ApplyConfirmationEvent_def
  by (intro ty_rules ty_on_db typed_store typed_ops ty_confirm_tx assms(1); (assumption | rule assms(2) | (rule assms(3); assumption)))

lemma ty_reorg_tx:
  assumes D: "declib_ok D" and w: "wty D Q w"
  shows "ty D Q (reorg_tx D ev w)"
  unfolding reorg_tx_def Let_def
  using typed_GetBalance [OF w, of "reWalletID ev" "reAsset ev"]
  by (intro ty_rules ty_on_db typed_store; simp add: amount_format [OF D] repr_intros [OF D] w)

lemma ty_ApplyReorgEvent [typed_ops]:
  assumes "declib_ok D" and "wty D Q w" and "\<And>restore ops w. utxoRestore = Some restore \<Longrightarrow> wty D Q w \<Longrightarrow> ty D Q (restore ops w)"
  shows "ty D Q (ApplyReorgEvent D em utxoRestore ev w)"
  unfolding ApplyReorgEvent_def
  by (intro ty_rules typed_ops ty_reorg_tx assms(1); (assumption | rule assms(2) | (rule assms(3); assumption)))

lemma ty_set_locked:
  assumes D: "declib_ok D" and w: "wty D Q w" and f: "\<And>x. dec_repr D x \<Longrightarrow> dec_repr D (f x)"
  shows "ty D Q (set_locked D f wid asset w)"
  unfolding set_locked_def
  using typed_GetBalance [OF w, of wid asset]
  by (intro ty_rules ty_on_db typed_store; simp add: amount_format [OF D] repr_intros [OF D] f w)

lemma ty_locked [typed_ops]:
  assumes "declib_ok D" and "wty D Q w"
  shows "ty D Q (AddLocked D wid asset amount w)" and "ty D Q (ReleaseLocked D wid asset amount w)"
  unfolding AddLocked_def ReleaseLocked_def
  by (intro typed_ops ty_set_locked assms; simp add: repr_intros [OF assms(1)])+

section \<open>Nonces, coins and withdrawals\<close>

lemma ty_reserve_loop:
  "(\<And>w. wty D Q w \<Longrightarrow> wty D Q (others w)) \<Longrightarrow> wty D Q w \<Longrightarrow>
   ty D Q (reserve_loop k others wid ch w) \<and> (\<forall>v. fst (reserve_loop k others wid ch w) = Inr v \<longrightarrow> int64_range v)"
proof (induction k arbitrary: w)
  case (Suc k)
  obtain r w1 where a: "Acquire (nonce_lock wid ch) w = (r, w1)" by (cases "Acquire (nonce_lock wid ch) w")
  then have w1: "wty D Q w1" using ty_Acquire [OF Suc.prems(2), of "nonce_lock wid ch"] by (simp add: ty_def)
  have v: "int64_range (nPendingNonce (GetNonce wid ch (db w1)))"
    using typed_GetNonce [of D "db w1"] w1 by (simp add: wty_def kept_def nonce_typed_def)
  have "ty D Q (on_db (IncrementPendingNonce (now w1) wid ch) w1)"
    by (intro ty_on_db typed_store w1)
  then show ?case
    using Suc.IH [OF Suc.prems(1) Suc.prems(1), of w1] a w1 v ty_Release
    by (auto simp: ty_def on_db_def IncrementPendingNonce_def Let_def split: sum.split prod.split)
qed (simp add: ty_pair)

lemma ty_ReserveNonce [typed_ops]:
  "wty D Q w \<Longrightarrow> (\<And>w. wty D Q w \<Longrightarrow> wty D Q (others w)) \<Longrightarrow> ty D Q (ReserveNonce others wid ch w)"
  using ty_reserve_loop [of D Q others w 50] by (simp add: ReserveNonce_def)

lemma ReserveNonce_int64:
  "ReserveNonce others wid ch w = (Inr v, w') \<Longrightarrow> wty D Q w \<Longrightarrow> (\<And>w. wty D Q w \<Longrightarrow> wty D Q (others w)) \<Longrightarrow> int64_range v"
  using ty_reserve_loop [of D Q others w 50 wid ch] by (simp add: ReserveNonce_def)

lemma ty_CommitNonce [typed_ops]: "wty D Q w \<Longrightarrow> ty D Q (CommitNonce wid ch n w)"
  unfolding CommitNonce_def by (intro ty_on_db typed_store)

lemma ty_RollbackNonce [typed_ops]: "wty D Q w \<Longrightarrow> int64_range n \<Longrightarrow> ty D Q (RollbackNonce wid ch n w)"
  unfolding RollbackNonce_def by (intro ty_rules ty_on_db typed_store; assumption)

lemma typed_coins [typed_store]:
  "store_typed D s \<Longrightarrow> store_typed D (snd (Unlock t ops s))" "store_typed D s \<Longrightarrow> store_typed D (snd (MarkSpent t ops h s))"
  "store_typed D s \<Longrightarrow> store_typed D (snd (RestoreOnReorg t ops s))" "store_typed D s \<Longrightarrow> store_typed D (snd (PruneFinalized ops s))"
  "store_typed D s \<Longrightarrow> utxo_typed (uOutpoint u) u \<Longrightarrow> store_typed D (snd (TrackUTXO t u s))"
  unfolding Unlock_def MarkSpent_def RestoreOnReorg_def PruneFinalized_def TrackUTXO_def by (intro typed_store; assumption)+

lemma keys_coins [typed_store]:
  "keyMappings (snd (Unlock t ops s)) = keyMappings s" "keyMappings (snd (MarkSpent t ops h s)) = keyMappings s"
  "keyMappings (snd (RestoreOnReorg t ops s)) = keyMappings s" "keyMappings (snd (PruneFinalized ops s)) = keyMappings s"
  "keyMappings (snd (TrackUTXO t u s)) = keyMappings s"
  unfolding Unlock_def MarkSpent_def RestoreOnReorg_def PruneFinalized_def TrackUTXO_def by (rule keys_kept)+

lemma ty_SelectForAmount:
  assumes w: "wty D' Q w" and others: "\<And>s. kept D' Q s \<Longrightarrow> kept D' Q (others s)"
  shows "ty D' Q (on_db (SelectForAmount D others t wid amount) w)"
proof -
  obtain sel tot where sel: "select_loop D amount (sort_Slice (value_gt D) (ListFreeUTXOs wid (db w))) [] 0 = (sel, tot)"
    by (cases "select_loop D amount (sort_Slice (value_gt D) (ListFreeUTXOs wid (db w))) [] 0")
  have s: "kept D' Q (db w)" using w by (simp add: wty_def)
  have "kept D' Q (snd (LockUTXOs t sel (others (db w))))"
    using others [OF s] typed_LockUTXOs [of D' "others (db w)" t sel] by (simp add: kept_def keys_kept)
  then show ?thesis
    using s sel by (cases "LockUTXOs t sel (others (db w))") (auto simp: ty_def wty_def on_db_def SelectForAmount_def split: sum.split)
qed

text \<open>What the rest of the system does during a wait keeps the types too.\<close>

definition env_typed :: "declib \<Rightarrow> ((uuid, KeyMapping list) gomap \<Rightarrow> bool) \<Rightarrow> saga_env \<Rightarrow> bool" where
  "env_typed D Q E = ((\<forall>w. wty D Q w \<longrightarrow> wty D Q (sOthers E w)) \<and> (\<forall>s. kept D Q s \<longrightarrow> kept D Q (sOthersDB E s)))"

lemma typed_GetWithdrawal:
  "wty D Q w \<Longrightarrow> GetWithdrawal i (db w) = Inr wr \<Longrightarrow> withdrawal_typed i wr"
  using rows_ok_get [of withdrawal_typed "withdrawals (db w)" i wr]
  by (auto simp: wty_def kept_def store_typed_def GetWithdrawal_def split: option.splits)

lemma noncePtr_int64: "withdrawal_typed i wr \<Longrightarrow> int64_range (noncePtr wr)"
  by (auto simp: withdrawal_typed_def noncePtr_def int64_range_def split: option.splits)

lemma wty_rollback [typed_ops]: "wty D Q w \<Longrightarrow> int64_range n \<Longrightarrow> wty D Q (rollback wl n ops w)"
  unfolding rollback_def by (intro ty_rules ty_on_db typed_store typed_ops; assumption)

lemma int64_minus_one [simp]: "int64_range (- 1)"
  by (simp add: int64_range_def)

lemma ty_apply_verdict [typed_ops]: "wty D Q w \<Longrightarrow> ty D Q (apply_verdict dec err wr w)"
  unfolding apply_verdict_def
  by (intro ty_rules ty_on_db typed_store typed_ops; (assumption | simp add: withdrawal_state_def))

lemma ty_Withdrawal_Create [typed_ops]: "wty D Q w \<Longrightarrow> ty D Q (Withdrawal_Create E req w)"
  unfolding Withdrawal_Create_def
  by (intro ty_rules ty_on_db typed_store typed_ops;
      (assumption | simp add: withdrawal_state_def withdrawal_typed_def new_withdrawal_def))

lemma ty_reserve_resources:
  assumes E: "env_typed D Q E" and w: "wty D Q w"
  shows "ty D Q (reserve_resources E wr wl i w)
    \<and> (\<forall>n ops. fst (reserve_resources E wr wl i w) = Inr (n, ops) \<longrightarrow> int64_range n)"
proof (intro conjI)
  have others: "\<And>w. wty D Q w \<Longrightarrow> wty D Q (sOthers E w)" "\<And>s. kept D Q s \<Longrightarrow> kept D Q (sOthersDB E s)"
    using E by (simp_all add: env_typed_def)
  note int64 = ReserveNonce_int64 [OF _ w others(1)]
  show "ty D Q (reserve_resources E wr wl i w)"
    unfolding reserve_resources_def
    by (intro ty_rules ty_SelectForAmount ty_on_db typed_store typed_ops; (assumption | rule w | erule others | (simp, erule int64) | simp))
  show "\<forall>n ops. fst (reserve_resources E wr wl i w) = Inr (n, ops) \<longrightarrow> int64_range n"
    using int64 by (auto simp: reserve_resources_def split: prod.splits sum.splits option.splits if_splits)
qed

lemma ty_sign_reserved: "wty D Q w \<Longrightarrow> int64_range n \<Longrightarrow> ty D Q (sign_reserved E wr wl k i n ops w)"
  unfolding sign_reserved_def
  by (intro ty_rules ty_on_db typed_store typed_ops; (assumption | simp add: withdrawal_state_def))

lemma ty_ConstructAndSign [typed_ops]:
  assumes "wty D Q w" and "env_typed D Q E"
  shows "ty D Q (ConstructAndSign E i w)"
proof -
  note res = ty_reserve_resources [OF assms(2,1)]
  have "int64_range n" if "reserve_resources E wr wl i w = (Inr (n, ops), w')" for wr wl n ops w'
    using res [of wr wl i] that by simp
  then show ?thesis
    unfolding ConstructAndSign_def
    using res by (intro ty_rules ty_sign_reserved; (assumption | blast intro: assms(1)))
qed

lemma ty_record_broadcast [typed_ops]: "wty D Q w \<Longrightarrow> ty D Q (record_broadcast E wr wl i h w)"
  unfolding record_broadcast_def
  by (intro ty_rules ty_on_db typed_store typed_ops; (assumption | simp add: withdrawal_state_def))

lemma ty_Broadcast [typed_ops]:
  assumes w: "wty D Q w"
  shows "ty D Q (Broadcast E i w)"
  unfolding Broadcast_def
  by (intro ty_rules ty_on_db typed_store typed_ops;
      (assumption | rule w | erule noncePtr_int64 [OF typed_GetWithdrawal [OF w]] | simp add: withdrawal_state_def))

lemma ty_Confirm [typed_ops]: "wty D Q w \<Longrightarrow> ty D Q (Confirm E i h w)"
  unfolding Confirm_def
  by (intro ty_rules ty_on_db typed_store typed_ops; (assumption | simp add: withdrawal_state_def))

lemma ty_Fail [typed_ops]:
  assumes w: "wty D Q w"
  shows "ty D Q (Fail E i reason w)"
  unfolding Fail_def
  by (intro ty_rules ty_on_db typed_store typed_ops;
      (assumption | rule w | erule noncePtr_int64 [OF typed_GetWithdrawal [OF w]] | simp add: withdrawal_state_def))

lemma ty_OnReorg [typed_ops]: "wty D Q w \<Longrightarrow> ty D Q (OnReorg i ops w)"
  unfolding OnReorg_def
  by (intro ty_rules ty_on_db typed_store typed_ops; (assumption | simp add: withdrawal_state_def))

section \<open>The APIs\<close>

lemma ty_reader: "snd (h w) = w \<Longrightarrow> wty D Q w \<Longrightarrow> ty D Q (h w)"
  by (simp add: ty_def)

lemma ty_routes:
  assumes w: "wty D Q w" and others: "\<And>w. wty D Q w \<Longrightarrow> wty D Q (dOthers R w)" and h: "(m, pat, h) \<in> set (routes R)"
  shows "ty D Q (h r w)"
proof -
  have "ty D Q (createWallet R r w)" "ty D Q (createFundingRequest R r w)" "ty D Q (createWithdrawal R r w)"
    unfolding createWallet_def createFundingRequest_def createWithdrawal_def
    by (intro ty_rules typed_ops; (assumption | rule w))+
  moreover have "ty D Q (getAddresses R r w)" "ty D Q (deriveAddress R r w)" "ty D Q (allocateNonce R r w)"
    unfolding getAddresses_def deriveAddress_def allocateNonce_def
    by (intro ty_rules typed_ops; (assumption | rule w | erule others))+
  moreover have "ty D Q (healthz r w)" "ty D Q (readyz R r w)" "ty D Q (getWallet R r w)" "ty D Q (listWallets R r w)"
    "ty D Q (getBalances R r w)" "ty D Q (listFundingRequests R r w)" "ty D Q (getWithdrawal R r w)" "ty D Q (listWithdrawals R r w)"
    using w by (simp_all add: ty_def)
  ultimately show ?thesis using h by (auto simp: routes_def)
qed

lemma ty_NewRouter:
  assumes w: "wty D Q w" and others: "\<And>w. wty D Q w \<Longrightarrow> wty D Q (dOthers R w)"
  shows "ty D Q (NewRouter C R auth r w)"
proof -
  have d: "ty D Q (dispatch C R r w)"
    using ty_routes [OF w others] w by (auto simp: dispatch_def ty_pair dest!: find_SomeD split: option.split prod.split)
  show ?thesis
    unfolding NewRouter_def Middleware_def by (intro ty_rules d; rule w)
qed

definition wired :: "funding_service \<Rightarrow> grpc_deps \<Rightarrow> bool" where
  "wired fs G = (gOnConfirmedDecrease G = wired_OnConfirmedDecrease fs \<and> gUTXORestore G = wired_UTXORestore)"

lemma ty_grpc_serve:
  assumes D: "declib_ok (gDecimal G)" and G: "wired fs G" and w: "wty (gDecimal G) Q w"
  shows "ty (gDecimal G) Q (grpc_serve G auth md m data w)"
proof -
  let ?D = "gDecimal G"
  have hook: "wty ?D Q (hook wid a w)" if "gOnConfirmedDecrease G = Some hook" "wty ?D Q w" for hook wid a w
    using that G by (auto simp: wired_def wired_OnConfirmedDecrease_def intro: wty_snd typed_ops)
  have restore: "ty ?D Q (restore ops w)" if "gUTXORestore G = Some restore" "wty ?D Q w" for restore ops w
    using that G by (auto simp: wired_def wired_UTXORestore_def intro: ty_on_db typed_store)
  have "ty ?D Q (resolveKeyIDHandler G md data ic w)" for ic
    unfolding resolveKeyIDHandler_def by (intro ty_rules; rule w)
  moreover have "ty ?D Q (onConfirmationHandler G md data ic w)" for ic
    unfolding onConfirmationHandler_def
    by (intro ty_rules typed_ops D; (assumption | rule w | (rule hook; assumption)))
  moreover have reorg: "wty ?D Q w \<Longrightarrow> ty ?D Q (reorg_wallet G req w)" for req w
    unfolding reorg_wallet_def by (intro ty_rules typed_ops D; (assumption | (rule restore; assumption)))
  moreover have "ty ?D Q (onReorgHandler G md data ic w)" for ic
    unfolding onReorgHandler_def by (intro ty_rules typed_ops reorg; (assumption | rule w))
  ultimately show ?thesis
    using w by (auto simp: grpc_serve_def registerMethods_def ty_pair split: option.split if_splits)
qed

section \<open>The whole service\<close>

text \<open>
  One step of the deployed process: a request to either API, a pass of the drainer, or the passing of time. The packages also offer operations that
  nothing calls in the deployed process: the processing of withdrawals, keys, coins and funding.
\<close>

inductive api_step :: "chi \<Rightarrow> rest_deps \<Rightarrow> grpc_deps \<Rightarrow> string \<times> bool \<Rightarrow> world \<Rightarrow> world \<Rightarrow> bool" for C R G auth where
  api_rest: "api_step C R G auth w (snd (NewRouter C R auth r w))"
| api_grpc: "api_step C R G auth w (snd (grpc_serve G auth md m data w))"
| api_clock: "api_step C R G auth w (w\<lparr>now := t\<rparr>)"
| api_drain: "api_step C R G auth w (snd (Drain sink w))"

inductive service_step :: "chi \<Rightarrow> rest_deps \<Rightarrow> grpc_deps \<Rightarrow> string \<times> bool \<Rightarrow> world \<Rightarrow> world \<Rightarrow> bool" for C R G auth where
  step_api: "api_step C R G auth w w' \<Longrightarrow> service_step C R G auth w w'"
| step_expire: "service_step C R G auth w (snd (ExpireCoolingKeys w))"
| step_bind: "service_step C R G auth w (snd (Bind wid k w))"
| step_rotate: "service_step C R G auth w (snd (Rotate (gConfig G) (gEmitter G) wid k w))"
| step_state: "service_step C R G auth w (snd (SetState (dWallets R) wid st w))"
| step_sign: "service_step C R G auth w (snd (ConstructAndSign (dWithdrawal R) i w))"
| step_broadcast: "service_step C R G auth w (snd (Broadcast (dWithdrawal R) i w))"
| step_fail: "service_step C R G auth w (snd (Fail (dWithdrawal R) i reason w))"
| step_funded: "service_step C R G auth w (snd (MarkApproved i b w))"
| step_settled: "service_step C R G auth w (snd (MarkSettled i w))"
| step_rejected: "service_step C R G auth w (snd (MarkRejected i reason w))"
| step_lock: "service_step C R G auth w (snd (AddLocked (gDecimal G) wid asset amount w))"
| step_release: "service_step C R G auth w (snd (ReleaseLocked (gDecimal G) wid asset amount w))"
| step_track: "uLockState u = UTXOLockStateFree \<Longrightarrow> service_step C R G auth w (snd (on_db (TrackUTXO (now w) u) w))"
| step_prune: "service_step C R G auth w (snd (on_db (PruneFinalized ops) w))"

definition service_env :: "((uuid, KeyMapping list) gomap \<Rightarrow> bool) \<Rightarrow> funding_service \<Rightarrow> rest_deps \<Rightarrow> grpc_deps \<Rightarrow> bool" where
  "service_env Q fs R G =
     (declib_ok (gDecimal G) \<and> wired fs G \<and> env_typed (gDecimal G) Q (dWithdrawal R)
      \<and> (\<forall>w. wty (gDecimal G) Q w \<longrightarrow> wty (gDecimal G) Q (dOthers R w)))"

lemma api_step_typed:
  assumes env: "service_env Q fs R G" and w: "wty (gDecimal G) Q w" and step: "api_step C R G auth w w'"
  shows "wty (gDecimal G) Q w'"
proof -
  have D: "declib_ok (gDecimal G)" and wi: "wired fs G" and others: "\<And>w. wty (gDecimal G) Q w \<Longrightarrow> wty (gDecimal G) Q (dOthers R w)"
    using env by (simp_all add: service_env_def)
  show ?thesis using step
  proof cases
    case api_rest then show ?thesis using ty_NewRouter [OF w others] by (simp add: ty_def)
  next
    case api_grpc then show ?thesis using ty_grpc_serve [OF D wi w] by (simp add: ty_def)
  next
    case api_clock then show ?thesis using w by (simp add: wty_def)
  next
    case api_drain then show ?thesis using ty_Drain [OF w] by (simp add: ty_def)
  qed
qed

lemma service_step_typed:
  assumes env: "service_env (\<lambda>_. True) fs R G" and w: "wty (gDecimal G) (\<lambda>_. True) w" and step: "service_step C R G auth w w'"
  shows "wty (gDecimal G) (\<lambda>_. True) w'"
proof -
  have D: "declib_ok (gDecimal G)" and E: "env_typed (gDecimal G) (\<lambda>_. True) (dWithdrawal R)"
    using env by (simp_all add: service_env_def)
  show ?thesis using step
    by cases (simp_all add: api_step_typed [OF env w] wty_snd typed_ops w E D,
      (intro wty_snd ty_on_db typed_store w; simp add: utxo_typed_def)+)
qed

definition service_start :: "((uuid, KeyMapping list) gomap \<Rightarrow> bool) \<Rightarrow> funding_service \<Rightarrow> rest_deps \<Rightarrow> grpc_deps \<Rightarrow> world \<Rightarrow> bool" where
  "service_start Q fs R G w = (db w = New \<and> Q [] \<and> service_env Q fs R G)"

lemma start_typed: "db w = New \<Longrightarrow> Q [] \<Longrightarrow> wty D Q w"
  by (simp add: wty_def kept_def typed_New) (simp add: New_def)

interpretation service: inductive_inv "service_start (\<lambda>_. True) fs R G" "service_step C R G auth"
    "\<lambda>w. service_env (\<lambda>_. True) fs R G \<and> wty (gDecimal G) (\<lambda>_. True) w"
  by unfold_locales (auto simp: service_start_def intro: start_typed elim: service_step_typed)

interpretation api: inductive_inv "service_start Q fs R G" "api_step C R G auth"
    "\<lambda>w. service_env Q fs R G \<and> wty (gDecimal G) Q w"
  by unfold_locales (auto simp: service_start_def intro: start_typed elim: api_step_typed)


lemma sample_service_env: "service_env Q (sample_funding (Inr ())) sample_deps sample_grpc"
  by (simp add: service_env_def frac_lib_ok wired_def sample_grpc_def sample_deps_def env_typed_def sample_env_def)


end
