(* ===== verification/Clients.thy ===== *)
theory Clients
  imports Json Saga Funding Wallets
begin

text \<open>
  The clients of the services the wallet manager calls: the policy engine (\<^verbatim>\<open>internal/policy/policy.go\<close>), the treasury
  (\<^verbatim>\<open>internal/funding/funding.go\<close>), the Solana RPC endpoint (\<^verbatim>\<open>internal/withdrawal/solana_rpc.go\<close>), the MPC signer and the
  blockchain gateway (\<^verbatim>\<open>internal/clients/clients.go\<close>, \<^verbatim>\<open>internal/grpcclient/grpcclient.go\<close>). What the network answers is a parameter.
\<close>

section \<open>HTTP\<close>

record http_request =
  hqMethod :: string
  hqURL :: string
  hqHeader :: "(string \<times> string) list"
  hqBody :: string

text \<open>\<open>hNew\<close> is the error of \<^verbatim>\<open>http.NewRequest\<close> for a URL that does not parse, \<open>hDo\<close> the status and body of the answer.\<close>

record httplib =
  hNew :: "string \<Rightarrow> unit res"
  hDo :: "http_request \<Rightarrow> (int \<times> string) res"

definition http_do :: "httplib \<Rightarrow> http_request \<Rightarrow> (int \<times> string) res" where
  "http_do H r = (case hNew H (hqURL r) of Inl e \<Rightarrow> Inl e | Inr _ \<Rightarrow> hDo H r)"

definition json_post :: "string \<Rightarrow> (string \<times> string) list \<Rightarrow> string \<Rightarrow> http_request" where
  "json_post url header body =
     \<lparr>hqMethod = ''POST'', hqURL = url, hqHeader = (''Content-Type'', ''application/json'') # header, hqBody = body\<rparr>"

definition httpHealthPing :: "httplib \<Rightarrow> string \<Rightarrow> unit res" where
  "httpHealthPing H url =
     (case http_do H \<lparr>hqMethod = ''GET'', hqURL = url, hqHeader = [], hqBody = []\<rparr> of
        Inl e \<Rightarrow> Inl e
      | Inr (status, _) \<Rightarrow> if status \<ge> 500 then Inl (ErrText ''healthz status'') else Inr ())"

section \<open>The policy engine\<close>

definition Marshal_CheckRequest :: "CheckRequest \<Rightarrow> string" where
  "Marshal_CheckRequest q =
     json_object [(''wallet_id'', json_quote (ckWalletID q)), (''to_address'', json_quote (ckToAddress q)),
       (''asset'', json_quote (ckAsset q)), (''amount'', json_quote (ckAmount q))]"

definition CheckResponse_fields :: "CheckResponse fields" where
  "CheckResponse_fields =
     [(''approved'', into_bool (\<lambda>x r. r\<lparr>cdApproved := x\<rparr>)), (''decision_id'', into_string (\<lambda>x r. r\<lparr>cdDecisionID := x\<rparr>)),
      (''reason'', into_string (\<lambda>x r. r\<lparr>cdReason := x\<rparr>))]"

definition no_verdict :: CheckResponse where
  "no_verdict = \<lparr>cdApproved = False, cdDecisionID = [], cdReason = []\<rparr>"

definition decode_verdict :: "string \<Rightarrow> CheckResponse res" where
  "decode_verdict body = (case Decode_json body of Inl e \<Rightarrow> Inl e | Inr v \<Rightarrow> into_struct CheckResponse_fields no_verdict v)"

definition CheckWhitelist :: "httplib \<Rightarrow> string \<Rightarrow> CheckRequest \<Rightarrow> CheckResponse option \<times> goerr option" where
  "CheckWhitelist H url q =
     (case http_do H (json_post (url @ ''/v1/whitelist/check'') [] (Marshal_CheckRequest q)) of
        Inl e \<Rightarrow> (None, Some e)
      | Inr (status, body) \<Rightarrow>
          if status \<ge> 400 then (None, Some (ErrText ''policy engine rejected''))
          else (case decode_verdict body of
                  Inl e \<Rightarrow> (None, Some e)
                | Inr out \<Rightarrow> (Some out, None)))"

definition MockClient_CheckWhitelist ::
    "(CheckRequest \<Rightarrow> CheckResponse option \<times> goerr option) option \<Rightarrow> CheckRequest \<Rightarrow> CheckResponse option \<times> goerr option" where
  "MockClient_CheckWhitelist checkFn q =
     (case checkFn of Some f \<Rightarrow> f q | None \<Rightarrow> (Some \<lparr>cdApproved = True, cdDecisionID = ''mock-decision'', cdReason = []\<rparr>, None))"

definition policy_Ping :: "httplib \<Rightarrow> string \<Rightarrow> unit res" where
  "policy_Ping H url = httpHealthPing H (url @ ''/healthz'')"

section \<open>The treasury\<close>

definition Marshal_TreasuryRequest :: "TreasuryRequest \<Rightarrow> string" where
  "Marshal_TreasuryRequest q =
     json_object [(''funding_request_id'', json_quote (trFundingRequestID q)), (''wallet_id'', json_quote (trWalletID q)),
       (''asset'', json_quote (trAsset q)), (''amount'', json_quote (trAmount q)),
       (''idempotency_key'', json_quote (trIdempotencyKey q)), (''reason'', json_quote (trReason q))]"

definition RequestFunding :: "httplib \<Rightarrow> string \<Rightarrow> TreasuryRequest \<Rightarrow> unit res" where
  "RequestFunding H url q =
     (case http_do H (json_post (url @ ''/v1/funding-requests'') [(''Idempotency-Key'', trIdempotencyKey q)] (Marshal_TreasuryRequest q)) of
        Inl e \<Rightarrow> Inl e
      | Inr (status, body) \<Rightarrow> if status \<ge> 400 then Inl (ErrText ''treasury rejected funding request'') else Inr ())"

definition treasury_Ping :: "httplib \<Rightarrow> string \<Rightarrow> unit res" where
  "treasury_Ping H url = httpHealthPing H (url @ ''/healthz'')"

section \<open>The Solana RPC endpoint\<close>

abbreviation solanaBlockhashCacheTTL :: int where "solanaBlockhashCacheTTL \<equiv> 30 * 10 ^ 9"

record SolanaRPCBlockhashFetcher =
  bf_rpcURL :: string
  bf_cached :: bytes
  bf_cachedAt :: time

definition NewSolanaRPCBlockhashFetcher :: "string \<Rightarrow> SolanaRPCBlockhashFetcher" where
  "NewSolanaRPCBlockhashFetcher url = \<lparr>bf_rpcURL = url, bf_cached = replicate 32 0, bf_cachedAt = 0\<rparr>"

text \<open>The struct \<^verbatim>\<open>parsed\<close>: the nested blockhash, and the message behind the pointer \<^verbatim>\<open>Error\<close>.\<close>

record rpc_reply =
  rp_Blockhash :: string
  rp_Error :: "string option"

definition rpc_fields :: "rpc_reply fields" where
  "rpc_fields =
     [(''result'', \<lambda>v r. into_struct [(''value'', \<lambda>v r. into_struct [(''blockhash'', into_string (\<lambda>x r. r\<lparr>rp_Blockhash := x\<rparr>))] r v)] r v),
      (''error'', \<lambda>v r. if v = JNull then Inr (r\<lparr>rp_Error := None\<rparr>)
         else (case into_struct [(''message'', into_string (\<lambda>x _. x))] (case rp_Error r of None \<Rightarrow> [] | Some m \<Rightarrow> m) v of
                 Inl e \<Rightarrow> Inl e
               | Inr m \<Rightarrow> Inr (r\<lparr>rp_Error := Some m\<rparr>)))]"

definition getLatestBlockhash :: string where
  "getLatestBlockhash =
     json_object [(''id'', ''1''), (''jsonrpc'', json_quote ''2.0''), (''method'', json_quote ''getLatestBlockhash''), (''params'', ''[]'')]"

definition parse_blockhash :: "txlib \<Rightarrow> int \<times> string \<Rightarrow> bytes res" where
  "parse_blockhash X answer =
     (case answer of
        (status, body) \<Rightarrow>
          if status \<noteq> 200 then Inl (ErrText ''solana rpc: HTTP status'')
          else (case (case Decode_json body of Inl e \<Rightarrow> Inl e | Inr v \<Rightarrow> into_struct rpc_fields \<lparr>rp_Blockhash = [], rp_Error = None\<rparr> v) of
                  Inl e \<Rightarrow> Inl (ErrWrap ''decode getLatestBlockhash'' e)
                | Inr p \<Rightarrow>
                    if rp_Error p \<noteq> None then Inl (ErrText ''solana rpc error'')
                    else if rp_Blockhash p = [] then Inl (ErrText ''solana rpc: empty blockhash'')
                    else (let decoded = base58_Decode X (rp_Blockhash p)
                          in if length decoded \<noteq> 32 then Inl (ErrText ''solana rpc: blockhash length'')
                             else Inr decoded)))"

text \<open>The clock is read when the cache is consulted, \<open>t\<close>, and again when an answer is stored, \<open>t'\<close>.\<close>

definition FetchRecentBlockhash ::
    "txlib \<Rightarrow> httplib \<Rightarrow> time \<Rightarrow> time \<Rightarrow> SolanaRPCBlockhashFetcher \<Rightarrow> bytes res \<times> SolanaRPCBlockhashFetcher" where
  "FetchRecentBlockhash X H t t' f =
     (if bf_rpcURL f = [] then (Inl ErrNoSolanaRPC, f)
      else if \<not> IsZero (bf_cachedAt f) \<and> Since t (bf_cachedAt f) < solanaBlockhashCacheTTL \<and> bf_cached f \<noteq> replicate 32 0
      then (Inr (bf_cached f), f)
      else (case hNew H (bf_rpcURL f) of
              Inl e \<Rightarrow> (Inl (ErrWrap ''build rpc request'' e), f)
            | Inr _ \<Rightarrow>
                (case hDo H (json_post (bf_rpcURL f) [] getLatestBlockhash) of
                   Inl e \<Rightarrow> (Inl (ErrWrap ''solana rpc'' e), f)
                 | Inr answer \<Rightarrow>
                     (case parse_blockhash X answer of
                        Inl e \<Rightarrow> (Inl e, f)
                      | Inr out \<Rightarrow> (Inr out, f\<lparr>bf_cached := out, bf_cachedAt := t'\<rparr>)))))"

section \<open>The signer and the gateway\<close>

record pb_SignRequest =
  pbKeyId :: string
  pbSignTxBytes :: bytes
  pbSignWalletId :: string

record SignResponse =
  srSignature :: bytes
  srSignerID :: string

record pb_BroadcastTxRequest =
  pbChain :: string
  pbTxBytes :: bytes
  pbWalletId :: string

definition MPCSigningClient_Sign :: "(pb_SignRequest \<Rightarrow> (bytes \<times> string) res) \<Rightarrow> SignRequest \<Rightarrow> SignResponse res" where
  "MPCSigningClient_Sign raw req =
     (case raw \<lparr>pbKeyId = sgKeyID req, pbSignTxBytes = sgTxBytes req, pbSignWalletId = sgWalletID req\<rparr> of
        Inl e \<Rightarrow> Inl e
      | Inr (signature, signer) \<Rightarrow> Inr \<lparr>srSignature = signature, srSignerID = signer\<rparr>)"

definition GatewayClient_BroadcastTx :: "(pb_BroadcastTxRequest \<Rightarrow> string res) \<Rightarrow> BroadcastRequest \<Rightarrow> string res" where
  "GatewayClient_BroadcastTx raw req =
     raw \<lparr>pbChain = brChain req, pbTxBytes = brTxBytes req, pbWalletId = brWalletID req\<rparr>"

definition MockMPCSigner_Sign :: "(SignRequest \<Rightarrow> SignResponse res) option \<Rightarrow> SignRequest \<Rightarrow> SignResponse res" where
  "MockMPCSigner_Sign signFn req =
     (case signFn of Some f \<Rightarrow> f req | None \<Rightarrow> Inr \<lparr>srSignature = string_bytes ''mock-sig'', srSignerID = ''mock''\<rparr>)"

definition MockGatewayClient_BroadcastTx :: "(BroadcastRequest \<Rightarrow> string res) option \<Rightarrow> BroadcastRequest \<Rightarrow> string res" where
  "MockGatewayClient_BroadcastTx broadcastFn req = (case broadcastFn of Some f \<Rightarrow> f req | None \<Rightarrow> Inr ''0xmocktx'')"

text \<open>
  A connection is the sequence of its states until the context expires; a closed one is \<open>None\<close>. The connectivity states of gRPC
  other than \<^verbatim>\<open>Ready\<close> and \<^verbatim>\<open>Shutdown\<close> are not told apart.
\<close>

datatype connectivity = Ready | Shutdown | OtherState

fun grpcConnReady :: "connectivity list \<Rightarrow> unit res" where
  "grpcConnReady [] = Inl (ErrText ''grpc: not ready'')"
| "grpcConnReady (st # sts) =
     (case st of
        Ready \<Rightarrow> Inr ()
      | Shutdown \<Rightarrow> Inl (ErrText ''grpc: connection shut down'')
      | OtherState \<Rightarrow> grpcConnReady sts)"

definition client_Close :: "('c \<Rightarrow> unit res) \<Rightarrow> 'c option \<Rightarrow> unit res \<times> 'c option" where
  "client_Close close conn = (case conn of Some c \<Rightarrow> (close c, None) | None \<Rightarrow> (Inr (), None))"

definition client_Ping :: "connectivity list option \<Rightarrow> unit res" where
  "client_Ping conn = (case conn of None \<Rightarrow> Inl (ErrText ''connection closed'') | Some sts \<Rightarrow> grpcConnReady sts)"

section \<open>The whitelist check fails closed\<close>

text \<open>What an engine reads from the posted body.\<close>

definition CheckRequest_fields :: "CheckRequest fields" where
  "CheckRequest_fields =
     [(''wallet_id'', into_string (\<lambda>x q. q\<lparr>ckWalletID := x\<rparr>)), (''to_address'', into_string (\<lambda>x q. q\<lparr>ckToAddress := x\<rparr>)),
      (''asset'', into_string (\<lambda>x q. q\<lparr>ckAsset := x\<rparr>)), (''amount'', into_string (\<lambda>x q. q\<lparr>ckAmount := x\<rparr>))]"

definition check_ascii :: "CheckRequest \<Rightarrow> bool" where
  "check_ascii q = (ascii (ckWalletID q) \<and> ascii (ckToAddress q) \<and> ascii (ckAsset q) \<and> ascii (ckAmount q))"

definition read_check :: "string \<Rightarrow> CheckRequest res" where
  "read_check body =
     (case Decode_json body of
        Inl e \<Rightarrow> Inl e
      | Inr v \<Rightarrow> into_struct CheckRequest_fields \<lparr>ckWalletID = [], ckToAddress = [], ckAsset = [], ckAmount = []\<rparr> v)"

lemma check_roundtrip:
  assumes "check_ascii q"
  shows "read_check (Marshal_CheckRequest q) = Inr q"
proof -
  let ?ms = "[(''wallet_id'', json_quote (ckWalletID q), JStr (ckWalletID q)), (''to_address'', json_quote (ckToAddress q), JStr (ckToAddress q)),
     (''asset'', json_quote (ckAsset q), JStr (ckAsset q)), (''amount'', json_quote (ckAmount q), JStr (ckAmount q))]"
  have "Decode_json (json_object (map (\<lambda>(k, v, x). (k, v)) ?ms)) = Inr (JObj (map (\<lambda>(k, v, x). (k, x)) ?ms))"
    using assms by (intro Decode_object) (auto simp: check_ascii_def encodes_quote ascii_def code_def)
  then show ?thesis
    by (simp add: read_check_def Marshal_CheckRequest_def into_struct_def CheckRequest_fields_def find_field_def into_string_def)
qed

lemma CheckWhitelist_Some:
  assumes "CheckWhitelist H url q = (Some out, err)"
  shows "err = None \<and> (\<exists>status body. hDo H (json_post (url @ ''/v1/whitelist/check'') [] (Marshal_CheckRequest q)) = Inr (status, body)
    \<and> status < 400 \<and> decode_verdict body = Inr out)"
  using assms by (auto simp: CheckWhitelist_def http_do_def split: sum.splits prod.splits if_splits)

text \<open>
  C17: the whitelist check fails closed. A withdrawal created against the policy engine is whitelisted only if the engine answered the
  posted check with a status below 400 and a JSON body that approves it; and the body of that check reads back as the wallet,
  destination, asset and amount of the withdrawal. No answer, an error status, or a body that does not decode leave it failed.
\<close>

theorem whitelist_fails_closed:
  assumes "sPolicy E = CheckWhitelist H url" and "Withdrawal_Create E req w = (Inr wr, w')"
    and "check_ascii (check_request req)"
  shows "wrState wr = WithdrawalStateFailed
    \<or> wrState wr = WithdrawalStateWhitelisted
      \<and> (\<exists>body status answer out. hDo H (json_post (url @ ''/v1/whitelist/check'') [] body) = Inr (status, answer)
           \<and> read_check body = Inr (check_request req) \<and> status < 400 \<and> decode_verdict answer = Inr out \<and> cdApproved out)"
proof (cases "approves E req")
  case True
  then obtain out where out: "CheckWhitelist H url (check_request req) = (Some out, None)" "cdApproved out"
    using assms(1) by (auto simp: approves_def split: prod.splits option.splits)
  have "wrState wr = WithdrawalStateWhitelisted"
    using Create_wstate [OF assms(2)] True by auto
  then show ?thesis
    using CheckWhitelist_Some [OF out(1)] out(2) check_roundtrip [OF assms(3)] by blast
next
  case False
  then show ?thesis using Create_wstate [OF assms(2)] by auto
qed

definition approval :: string where
  "approval = json_object [(''approved'', ''true''), (''decision_id'', json_quote ''d''), (''reason'', json_quote [])]"

lemma approval_decodes: "decode_verdict approval = Inr \<lparr>cdApproved = True, cdDecisionID = ''d'', cdReason = []\<rparr>"
proof -
  let ?ms = "[(''approved'', ''true'', JBool True), (''decision_id'', json_quote ''d'', JStr ''d''), (''reason'', json_quote [], JStr [])]"
  have "Decode_json (json_object (map (\<lambda>(k, v, x). (k, v)) ?ms)) = Inr (JObj (map (\<lambda>(k, v, x). (k, x)) ?ms))"
    using encodes_bool [of _ True] by (intro Decode_object) (auto simp: encodes_quote ascii_def code_def)
  then show ?thesis
    by (simp add: decode_verdict_def approval_def into_struct_def CheckResponse_fields_def find_field_def into_string_def into_bool_def
        no_verdict_def)
qed

definition approving_engine :: httplib where
  "approving_engine = \<lparr>hNew = (\<lambda>_. Inr ()), hDo = (\<lambda>_. Inr (200, approval))\<rparr>"

theorem whitelist_fails_closed_witness:
  "\<exists>wr w'. Withdrawal_Create (sample_env\<lparr>sPolicy := CheckWhitelist approving_engine ''http://policy''\<rparr>) sample_payout payout_start = (Inr wr, w')
    \<and> wrState wr = WithdrawalStateWhitelisted
    \<and> (\<exists>body status answer out. hDo approving_engine (json_post (''http://policy'' @ ''/v1/whitelist/check'') [] body) = Inr (status, answer)
         \<and> read_check body = Inr (check_request sample_payout) \<and> status < 400 \<and> decode_verdict answer = Inr out \<and> cdApproved out)"
proof -
  let ?E = "sample_env\<lparr>sPolicy := CheckWhitelist approving_engine ''http://policy''\<rparr>"
  have check: "CheckWhitelist approving_engine ''http://policy'' q = (Some \<lparr>cdApproved = True, cdDecisionID = ''d'', cdReason = []\<rparr>, None)" for q
    by (simp add: CheckWhitelist_def http_do_def approving_engine_def approval_decodes json_post_def)
  then have "?E = sample_env" by (simp add: sample_env_def fun_eq_iff)
  then have run: "Withdrawal_Create ?E sample_payout payout_start = (Inr payout_row, payout_created)"
    using payout_created_eq(1) by simp
  have "check_ascii (check_request sample_payout)"
    by (simp add: check_ascii_def check_request_def sample_payout_def sample_to_def ascii_def code_def)
  then show ?thesis
    using whitelist_fails_closed [of ?E approving_engine "''http://policy''", OF _ run] run by auto
qed

section \<open>Blockhashes are recent\<close>

definition bh_hit :: "time \<Rightarrow> SolanaRPCBlockhashFetcher \<Rightarrow> bool" where
  "bh_hit t f = (\<not> IsZero (bf_cachedAt f) \<and> Since t (bf_cachedAt f) < solanaBlockhashCacheTTL \<and> bf_cached f \<noteq> replicate 32 0)"

text \<open>The blockhash the endpoint answers, with the instant at which it is stored.\<close>

definition bh_answer :: "txlib \<Rightarrow> httplib \<Rightarrow> string \<Rightarrow> time \<Rightarrow> (time \<times> bytes) set" where
  "bh_answer X H url t' =
     {(t', h) |h a. hDo H (json_post url [] getLatestBlockhash) = Inr a \<and> parse_blockhash X a = Inr h}"

text \<open>A fetcher in use, with the log of the answers it received.\<close>

inductive bh_step :: "txlib \<Rightarrow> SolanaRPCBlockhashFetcher \<times> (time \<times> bytes) set \<Rightarrow> SolanaRPCBlockhashFetcher \<times> (time \<times> bytes) set \<Rightarrow> bool"
  for X where
  bh_fetch: "FetchRecentBlockhash X H t t' f = (r, f') \<Longrightarrow>
    bh_step X (f, rcv) (f', if bh_hit t f then rcv else rcv \<union> bh_answer X H (bf_rpcURL f) t')"

definition bh_init :: "SolanaRPCBlockhashFetcher \<times> (time \<times> bytes) set \<Rightarrow> bool" where
  "bh_init c = (\<exists>url. c = (NewSolanaRPCBlockhashFetcher url, {}))"

definition bh_inv :: "SolanaRPCBlockhashFetcher \<times> (time \<times> bytes) set \<Rightarrow> bool" where
  "bh_inv c = (length (bf_cached (fst c)) = 32
     \<and> (IsZero (bf_cachedAt (fst c)) \<or> (bf_cachedAt (fst c), bf_cached (fst c)) \<in> snd c))"

lemma parse_blockhash_length: "parse_blockhash X a = Inr h \<Longrightarrow> length h = 32"
  by (auto simp: parse_blockhash_def Let_def split: prod.splits sum.splits if_splits)

lemma FetchRecentBlockhash_Inr:
  assumes "FetchRecentBlockhash X H t t' f = (Inr h, f')"
  shows "if bh_hit t f then h = bf_cached f \<and> f' = f
    else (t', h) \<in> bh_answer X H (bf_rpcURL f) t' \<and> length h = 32 \<and> f' = f\<lparr>bf_cached := h, bf_cachedAt := t'\<rparr>"
  using assms parse_blockhash_length
  by (auto simp: FetchRecentBlockhash_def bh_hit_def bh_answer_def split: sum.splits if_splits)

lemma FetchRecentBlockhash_Inl: "FetchRecentBlockhash X H t t' f = (Inl e, f') \<Longrightarrow> f' = f"
  by (auto simp: FetchRecentBlockhash_def split: sum.splits if_splits)

interpretation blockhash: inductive_inv bh_init "bh_step X" bh_inv
proof unfold_locales
  show "bh_init c \<Longrightarrow> bh_inv c" for c
    by (auto simp: bh_init_def bh_inv_def NewSolanaRPCBlockhashFetcher_def IsZero_def)
next
  fix c c'
  assume inv: "bh_inv c" and step: "bh_step X c c'"
  from step show "bh_inv c'"
  proof cases
    case (bh_fetch H t t' f r f' rcv)
    show ?thesis
    proof (cases r)
      case (Inl e)
      then show ?thesis using bh_fetch inv FetchRecentBlockhash_Inl [of X H t t' f e f'] by (auto simp: bh_inv_def)
    next
      case (Inr h)
      then show ?thesis using bh_fetch inv FetchRecentBlockhash_Inr [of X H t t' f h f'] by (auto simp: bh_inv_def split: if_splits)
    qed
  qed
qed

text \<open>
  C18: a Solana transaction is built on a recent blockhash. However often the fetcher was used before, a blockhash it returns has 32 bytes and
  is either the endpoint's answer to this very call or an answer it received less than 30 seconds before.
\<close>

theorem blockhash_recent:
  assumes "reaches bh_init (bh_step X) (f, rcv)" and "FetchRecentBlockhash X H t t' f = (Inr h, f')"
  shows "length h = 32 \<and> ((t', h) \<in> bh_answer X H (bf_rpcURL f) t' \<or> (\<exists>t0. (t0, h) \<in> rcv \<and> t - t0 < 30 * 10 ^ 9))"
proof (cases "bh_hit t f")
  case True
  then have "t - bf_cachedAt f < 30 * 10 ^ 9" by (auto simp: bh_hit_def Since_def)
  then show ?thesis
    using True FetchRecentBlockhash_Inr [OF assms(2)] blockhash.reaches_inv [OF assms(1)] by (auto simp: bh_inv_def bh_hit_def)
next
  case False
  then show ?thesis using FetchRecentBlockhash_Inr [OF assms(2)] by simp
qed

definition rpc_answer :: string where
  "rpc_answer = json_object [(''result'', json_object [(''value'', json_object [(''blockhash'', json_quote ''So1'')])])]"

definition rpc_endpoint :: httplib where
  "rpc_endpoint = \<lparr>hNew = (\<lambda>_. Inr ()), hDo = (\<lambda>_. Inr (200, rpc_answer))\<rparr>"

lemma rpc_answer_decodes: "Decode_json rpc_answer = Inr (JObj [(''result'', JObj [(''value'', JObj [(''blockhash'', JStr ''So1'')])])])"
proof -
  have a: "ascii ''result''" "ascii ''value''" "ascii ''blockhash''" "ascii ''So1''" by (simp_all add: ascii_def code_def)
  have "encodes 1 (json_object [(''blockhash'', json_quote ''So1'')]) (JObj [(''blockhash'', JStr ''So1'')])"
    using encodes_object [of "[(''blockhash'', json_quote ''So1'', JStr ''So1'')]" 0] encodes_quote [OF a(4)] a(3) by simp
  then have "encodes 2 (json_object [(''value'', json_object [(''blockhash'', json_quote ''So1'')])]) (JObj [(''value'', JObj [(''blockhash'', JStr ''So1'')])])"
    using encodes_object [of "[(''value'', json_object [(''blockhash'', json_quote ''So1'')], JObj [(''blockhash'', JStr ''So1'')])]" 1] a(2)
    by (simp add: numeral_2_eq_2)
  then have "encodes (max_depth - 1) (json_object [(''value'', json_object [(''blockhash'', json_quote ''So1'')])])
      (JObj [(''value'', JObj [(''blockhash'', JStr ''So1'')])])"
    by (rule encodes_mono) simp
  then show ?thesis
    using Decode_object [of "[(''result'', json_object [(''value'', json_object [(''blockhash'', json_quote ''So1'')])],
      JObj [(''value'', JObj [(''blockhash'', JStr ''So1'')])])]"] a(1)
    by (simp add: rpc_answer_def)
qed

lemma rpc_answer_parses: "parse_blockhash sample_txlib (200, rpc_answer) = Inr (replicate 32 7)"
  by (simp add: parse_blockhash_def rpc_answer_decodes into_struct_def rpc_fields_def find_field_def into_string_def sample_txlib_def)

definition rpc_used :: SolanaRPCBlockhashFetcher where
  "rpc_used = (NewSolanaRPCBlockhashFetcher ''u'')\<lparr>bf_cached := replicate 32 7, bf_cachedAt := 10 ^ 9\<rparr>"

theorem blockhash_recent_witness:
  "reaches bh_init (bh_step sample_txlib) (rpc_used, {(10 ^ 9, replicate 32 7)})
    \<and> FetchRecentBlockhash sample_txlib rpc_endpoint (2 * 10 ^ 9) (3 * 10 ^ 9) rpc_used = (Inr (replicate 32 7), rpc_used)
    \<and> length (replicate 32 (7 :: 8 word)) = 32 \<and> 2 * 10 ^ 9 - 10 ^ 9 < (30 * 10 ^ 9 :: int)"
proof -
  let ?f = "NewSolanaRPCBlockhashFetcher ''u''" and ?seen = "{(10 ^ 9, replicate 32 7)} :: (time \<times> bytes) set"
  have first: "FetchRecentBlockhash sample_txlib rpc_endpoint 0 (10 ^ 9) ?f = (Inr (replicate 32 7), rpc_used)"
    by (simp add: FetchRecentBlockhash_def NewSolanaRPCBlockhashFetcher_def rpc_used_def rpc_endpoint_def rpc_answer_parses IsZero_def)
  have "{} \<union> bh_answer sample_txlib rpc_endpoint (bf_rpcURL ?f) (10 ^ 9) = ?seen"
    by (auto simp: bh_answer_def rpc_endpoint_def rpc_answer_parses)
  with bh_fetch [OF first, of "{}"] have "bh_step sample_txlib (?f, {}) (rpc_used, ?seen)"
    by (simp add: bh_hit_def NewSolanaRPCBlockhashFetcher_def IsZero_def)
  then have run: "reaches bh_init (bh_step sample_txlib) (rpc_used, ?seen)"
    by (intro reaches.intros) (auto simp: bh_init_def intro: reaches.intros)
  have again: "FetchRecentBlockhash sample_txlib rpc_endpoint (2 * 10 ^ 9) (3 * 10 ^ 9) rpc_used = (Inr (replicate 32 7), rpc_used)"
    by (simp add: FetchRecentBlockhash_def rpc_used_def NewSolanaRPCBlockhashFetcher_def IsZero_def Since_def)
  show ?thesis using blockhash_recent [OF run again] run again by simp
qed

end
