(* ===== verification/AuditSink.thy ===== *)
theory AuditSink
  imports Outbox Json Deriver
begin

text \<open>
  The Kafka sink of the audit outbox, \<^verbatim>\<open>internal/audit/audit.go\<close>: the envelope of an event, with the JSON and the time format
  of the standard library, and its delivery. The Kafka client is a parameter, and so are the bytes a store returns for a payload.
\<close>

section \<open>Texts\<close>

text \<open>A list of strings is empty only where the source has a nil slice.\<close>

fun Marshal_pval :: "pval \<Rightarrow> string" where
  "Marshal_pval (PStr s) = json_quote s"
| "Marshal_pval (PInt i) = show_int i"
| "Marshal_pval (PStrs ss) = (if ss = [] then ''null'' else CHR ''['' # json_elems ss @ '']'')"
| "Marshal_pval (PBool b) = (if b then ''true'' else ''false'')"

text \<open>\<^verbatim>\<open>json.Marshal\<close> sorts the keys of a map.\<close>

definition sort_keys :: "(string \<times> 'v) list \<Rightarrow> (string \<times> 'v) list" where
  "sort_keys = sort_Slice (\<lambda>a b. string_less (fst a) (fst b))"

definition Marshal_payload :: "payload \<Rightarrow> string" where
  "Marshal_payload p = json_object (map (\<lambda>(k, v). (k, Marshal_pval v)) (sort_keys p))"

text \<open>
  What \<^verbatim>\<open>json.Marshal\<close> makes of a \<^verbatim>\<open>json.RawMessage\<close>: white space outside strings is dropped, and inside strings the
  characters that matter to HTML and the two line separators are escaped. The flag says that the scan is inside a string.
\<close>

fun compact :: "bool \<Rightarrow> string \<Rightarrow> string" where
  "compact q [] = []"
| "compact False (c # s) =
     (if is_ws c then compact False s
      else c # compact (c = quot) s)"
| "compact True (c # s) =
     (if c = bslash then (case s of [] \<Rightarrow> [c] | e # s' \<Rightarrow> c # e # compact True s')
      else if c = quot then c # compact False s
      else if c \<in> {CHR ''<'', CHR ''>'', CHR ''&''} then
        bslash # ''u00'' @ [Json.hex_digit (code c div 16), Json.hex_digit (code c mod 16)] @ compact True s
      else if take 3 (c # s) = [CHR 0xE2, CHR 0x80, CHR 0xA8] then bslash # ''u2028'' @ compact True (drop 2 s)
      else if take 3 (c # s) = [CHR 0xE2, CHR 0x80, CHR 0xA9] then bslash # ''u2029'' @ compact True (drop 2 s)
      else c # compact True s)"

definition Marshal_raw :: "string \<Rightarrow> string res" where
  "Marshal_raw s = (case Unmarshal_json s of Inl e \<Rightarrow> Inl e | Inr _ \<Rightarrow> Inr (compact False s))"

section \<open>Time\<close>

text \<open>Year, month and day of the day \<open>n\<close> after 1 January of year 1, counted in years that start in March.\<close>

definition civil :: "int \<Rightarrow> int \<times> int \<times> int" where
  "civil n =
     (let z = n + 306;
          era = z div 146097;
          doe = z mod 146097;
          yoe = (doe - doe div 1460 + doe div 36524 - doe div 146096) div 365;
          doy = doe - (365 * yoe + yoe div 4 - yoe div 100);
          mp = (5 * doy + 2) div 153;
          d = doy - (153 * mp + 2) div 5 + 1;
          m = (if mp < 10 then mp + 3 else mp - 9)
      in (yoe + era * 400 + (if m \<le> 2 then 1 else 0), m, d))"

definition appendInt :: "int \<Rightarrow> nat \<Rightarrow> string" where
  "appendInt x width =
     (let ds = show_nat (nat \<bar>x\<bar>)
      in (if x < 0 then ''-'' else []) @ replicate (width - length ds) CHR ''0'' @ ds)"

text \<open>\<^verbatim>\<open>time.RFC3339Nano\<close> of a time in UTC; \<open>fmtFrac\<close> prints the fraction of a second after a zero.\<close>

definition Format_RFC3339Nano :: "time \<Rightarrow> string" where
  "Format_RFC3339Nano t =
     (let day = 86400 * 10 ^ 9;
          (y, m, d) = civil (t div day);
          ns = t mod day;
          sec = ns div 10 ^ 9
      in appendInt y 4 @ ''-'' @ appendInt m 2 @ ''-'' @ appendInt d 2 @ ''T'' @ appendInt (sec div 3600) 2 @ '':'' @
         appendInt (sec div 60 mod 60) 2 @ '':'' @ appendInt (sec mod 60) 2 @ tl (fmtFrac (nat (ns mod 10 ^ 9)) 9) @ ''Z'')"

section \<open>The sink\<close>

abbreviation AuditTopic :: string where "AuditTopic \<equiv> ''audit.v1''"

text \<open>The writer is \<^verbatim>\<open>nil\<close> or connected to the brokers.\<close>

record KafkaSink =
  ks_writer :: bool
  ks_brokers :: "string list"

record kafka_message =
  kmKey :: string
  kmValue :: string

text \<open>The client: publishing to a topic, dialling a broker, closing the writer.\<close>

record kafkalib =
  kWriteMessages :: "string \<Rightarrow> kafka_message list \<Rightarrow> unit res"
  kDial :: "string \<Rightarrow> unit res"
  kClose :: "unit res"

definition NewKafkaSink :: "string list \<Rightarrow> KafkaSink" where
  "NewKafkaSink brokers =
     (if brokers = [] then \<lparr>ks_writer = False, ks_brokers = []\<rparr> else \<lparr>ks_writer = True, ks_brokers = brokers\<rparr>)"

definition KafkaSink_Close :: "kafkalib \<Rightarrow> KafkaSink \<Rightarrow> unit res" where
  "KafkaSink_Close K s = (if \<not> ks_writer s then Inr () else kClose K)"

definition KafkaSink_Ping :: "kafkalib \<Rightarrow> KafkaSink \<Rightarrow> unit res" where
  "KafkaSink_Ping K s =
     (if \<not> ks_writer s \<or> ks_brokers s = [] then Inl (ErrText ''audit kafka: not configured'') else kDial K (hd (ks_brokers s)))"

abbreviation uuid_Nil :: string where "uuid_Nil \<equiv> ''00000000-0000-0000-0000-000000000000''"

definition payload_hash :: "string \<Rightarrow> string" where
  "payload_hash raw = ''sha256:'' @ Deriver.EncodeToString (Sum256 (string_bytes raw))"

datatype member = MStr string | MRaw string | MNull

text \<open>
  \<open>raw\<close> is the payload as the store returned it, \<open>fresh\<close> the id drawn for an event without one. The error result is always \<^verbatim>\<open>nil\<close>.
\<close>

definition buildEnvelope :: "string \<Rightarrow> string \<Rightarrow> AuditOutboxEvent \<Rightarrow> (string \<times> member) list \<times> string" where
  "buildEnvelope fresh raw ev =
     (let payloadHash = payload_hash raw;
          targetID = (case eWalletID ev of None \<Rightarrow> [] | Some w \<Rightarrow> w);
          id = (if eEventID ev = [] \<or> eEventID ev = uuid_Nil then fresh else eEventID ev);
          body = (if length raw > 0 then MRaw raw else MNull)
      in ([(''schema_version'', MStr ''1''), (''id'', MStr id), (''ts'', MStr (Format_RFC3339Nano (eCreatedAt ev))),
           (''source_service'', MStr ''wallet-management''), (''actor_id'', MStr ''wallet-management''), (''action'', MStr (eEventType ev)),
           (''target_type'', MStr ''wallet''), (''target_id'', MStr targetID), (''payload_hash'', MStr payloadHash), (''payload'', body)], id))"

fun Marshal_member :: "member \<Rightarrow> string res" where
  "Marshal_member (MStr s) = Inr (json_quote s)"
| "Marshal_member (MRaw s) = Marshal_raw s"
| "Marshal_member MNull = Inr ''null''"

fun marshal_members :: "(string \<times> member) list \<Rightarrow> (string \<times> string) list res" where
  "marshal_members [] = Inr []"
| "marshal_members ((k, m) # ms) =
     (case Marshal_member m of
        Inl e \<Rightarrow> Inl e
      | Inr v \<Rightarrow> (case marshal_members ms of Inl e \<Rightarrow> Inl e | Inr vs \<Rightarrow> Inr ((k, v) # vs)))"

definition Marshal_envelope :: "(string \<times> member) list \<Rightarrow> string res" where
  "Marshal_envelope ms = map_sum (\<lambda>e. e) json_object (marshal_members (sort_keys ms))"

text \<open>The loop of \<^verbatim>\<open>Deliver\<close>.\<close>

fun messages :: "(AuditOutboxEvent \<Rightarrow> string) \<Rightarrow> (AuditOutboxEvent \<Rightarrow> string) \<Rightarrow> AuditOutboxEvent list \<Rightarrow> kafka_message list res" where
  "messages fresh raw [] = Inr []"
| "messages fresh raw (ev # evs) =
     (case buildEnvelope (fresh ev) (raw ev) ev of
        (envelope, key) \<Rightarrow>
          (case Marshal_envelope envelope of
             Inl e \<Rightarrow> Inl (ErrWrap ''audit kafka encode'' e)
           | Inr body \<Rightarrow>
               (case messages fresh raw evs of
                  Inl e \<Rightarrow> Inl e
                | Inr msgs \<Rightarrow> Inr (\<lparr>kmKey = key, kmValue = body\<rparr> # msgs))))"

definition Deliver ::
    "kafkalib \<Rightarrow> (AuditOutboxEvent \<Rightarrow> string) \<Rightarrow> (AuditOutboxEvent \<Rightarrow> string) \<Rightarrow> KafkaSink \<Rightarrow> AuditOutboxEvent list \<Rightarrow> unit res" where
  "Deliver K fresh raw s events =
     (if \<not> ks_writer s then Inl (ErrText ''audit kafka: not connected'')
      else (case messages fresh raw events of
              Inl e \<Rightarrow> Inl e
            | Inr msgs \<Rightarrow>
                (case kWriteMessages K AuditTopic msgs of
                   Inl e \<Rightarrow> Inl (ErrWrap ''audit kafka publish'' e)
                 | Inr _ \<Rightarrow> Inr ())))"

text \<open>The sink for tests: every event goes to the channel, in order.\<close>

definition ChannelSink_Deliver :: "AuditOutboxEvent list \<Rightarrow> AuditOutboxEvent list \<Rightarrow> unit res \<times> AuditOutboxEvent list" where
  "ChannelSink_Deliver events ch = (Inr (), ch @ events)"

section \<open>Compact texts\<close>

text \<open>Texts that compaction leaves alone, wherever they stand outside a string.\<close>

definition flat :: "string \<Rightarrow> bool" where
  "flat v = (\<forall>t. compact False (v @ t) = v @ compact False t)"

lemma flatD: "flat v \<Longrightarrow> compact False (v @ t) = v @ compact False t"
  by (simp add: flat_def)

lemma flat_append: "flat u \<Longrightarrow> flat v \<Longrightarrow> flat (u @ v)"
  by (simp add: flat_def)

lemma flat_Cons: "\<not> is_ws c \<Longrightarrow> c \<noteq> quot \<Longrightarrow> flat v \<Longrightarrow> flat (c # v)"
  by (simp add: flat_def)

lemma flat_plain: "\<forall>c \<in> set v. \<not> is_ws c \<and> c \<noteq> quot \<Longrightarrow> flat v"
  by (induction v) (simp_all add: flat_Cons, simp add: flat_def)

text \<open>Characters that a string holds unescaped, among them the hexadecimal digits.\<close>

definition plain :: "char \<Rightarrow> bool" where
  "plain c = (code c \<notin> {34, 38, 60, 62, 92, 226})"

lemma compact_plain:
  assumes "plain c"
  shows "compact True (c # s) = c # compact True s"
proof -
  have "c \<noteq> bslash" "c \<noteq> quot" "c \<noteq> CHR ''<''" "c \<noteq> CHR ''>''" "c \<noteq> CHR ''&''" "c \<noteq> CHR 0xE2"
    using assms by (auto simp: plain_def code_def)
  then show ?thesis by simp
qed

lemma compact_escape: "compact True (bslash # e # s) = bslash # e # compact True s"
  by simp

lemma plain_hex: "n < 16 \<Longrightarrow> plain (Json.hex_digit n)"
  by (simp add: plain_def Json.hex_digit_def code_def)

lemma compact_quote:
  assumes "code c < 0x80"
  shows "compact True (quote_ascii c @ t) = quote_ascii c @ compact True t"
proof (cases rule: quote_ascii_cases [of c])
  case 1
  then have "c \<notin> {CHR ''<'', CHR ''>'', CHR ''&''}" "c \<noteq> CHR 0xE2"
    using assms by (auto simp: quote_ascii_def code_def)
  then show ?thesis using 1 by simp
next
  case 3
  have "code c div 16 < 16" "code c mod 16 < 16" using assms by auto
  moreover have "plain (CHR ''0'')" by (simp add: plain_def code_def)
  ultimately show ?thesis using 3 by (simp add: compact_escape compact_plain plain_hex del: compact.simps)
qed simp

lemma flat_quote: "ascii s \<Longrightarrow> flat (json_quote s)"
proof -
  assume "ascii s"
  then have "compact True (quote_body s @ quot # t) = quote_body s @ quot # compact False t" for t
    by (induction s) (simp_all add: ascii_def compact_quote)
  then show ?thesis by (simp add: flat_def json_quote_def)
qed

lemma flat_elems: "\<forall>s \<in> set ss. ascii s \<Longrightarrow> flat (json_elems ss)"
  by (induction ss rule: json_elems.induct) (auto simp: flat_quote intro!: flat_append flat_Cons, simp add: flat_def)

lemma flat_members: "\<forall>(k, v) \<in> set ms. ascii k \<and> flat v \<Longrightarrow> flat (json_members ms)"
  by (induction ms rule: json_members.induct) (auto simp: flat_quote intro!: flat_append flat_Cons, simp add: flat_def)

fun pval_ascii :: "pval \<Rightarrow> bool" where
  "pval_ascii (PStr s) = ascii s"
| "pval_ascii (PStrs ss) = list_all ascii ss"
| "pval_ascii _ = True"

definition payload_ok :: "payload \<Rightarrow> bool" where
  "payload_ok p = (p \<noteq> [] \<and> (\<forall>(k, v) \<in> set p. ascii k \<and> pval_ascii v))"

lemma flat_pval: "pval_ascii v \<Longrightarrow> flat (Marshal_pval v)"
proof (cases v)
  case (PInt i)
  have "c = CHR ''-'' \<or> is_digit c" if "c \<in> set (show_int i)" for c
    using that show_nat_digits by (auto simp: show_int_def split: if_splits)
  then have "\<forall>c \<in> set (show_int i). \<not> is_ws c \<and> c \<noteq> quot"
    by (fastforce simp: is_ws_def is_digit_def code_def)
  then show ?thesis using PInt by (simp add: flat_plain)
next
  case (PStrs ss)
  have "flat ''null''" "flat '']''" by (rule flat_plain; simp add: is_ws_def code_def)+
  moreover assume "pval_ascii v"
  ultimately show ?thesis
    using PStrs flat_elems [of ss] by (simp add: list_all_iff flat_append flat_Cons is_ws_def code_def)
qed (auto simp: flat_quote is_ws_def code_def intro!: flat_plain)

lemma set_sort_keys [simp]: "set (sort_keys ms) = set ms"
  by (simp add: sort_keys_def)

lemma sort_keys_Nil [simp]: "sort_keys ms = [] \<longleftrightarrow> ms = []"
  by (simp add: sort_keys_def)

lemma compact_payload:
  assumes "payload_ok p"
  shows "compact False (Marshal_payload p) = Marshal_payload p"
proof -
  have "flat (json_members (map (\<lambda>(k, v). (k, Marshal_pval v)) (sort_keys p)))"
    using assms by (intro flat_members) (auto simp: payload_ok_def flat_pval)
  then have "flat (Marshal_payload p)"
    unfolding Marshal_payload_def json_object_def
    by (intro flat_Cons flat_append [OF _ flat_plain]) (simp_all add: is_ws_def code_def)
  from flatD [OF this, of "[]"] show ?thesis by simp
qed

text \<open>Compaction never starts with white space, so a space that follows a flat text is lost.\<close>

lemma compact_hd: "compact False s = [] \<or> \<not> is_ws (hd (compact False s))"
  by (induction s) auto

lemma compact_space: "flat u \<Longrightarrow> compact False (u @ CHR '' '' # t) \<noteq> u @ CHR '' '' # t"
proof
  assume "flat u" "compact False (u @ CHR '' '' # t) = u @ CHR '' '' # t"
  then have "compact False t = CHR '' '' # t" by (simp add: flatD is_ws_def code_def)
  then show False using compact_hd [of t] by (simp add: is_ws_def code_def)
qed

section \<open>What a consumer reads\<close>

fun pval_json :: "pval \<Rightarrow> json" where
  "pval_json (PStr s) = JStr s"
| "pval_json (PInt i) = JNum (show_int i)"
| "pval_json (PStrs ss) = (if ss = [] then JNull else JArr (map JStr ss))"
| "pval_json (PBool b) = JBool b"

definition payload_json :: "payload \<Rightarrow> json" where
  "payload_json p = JObj (map (\<lambda>(k, v). (k, pval_json v)) (sort_keys p))"

lemma encodes_pval: "pval_ascii v \<Longrightarrow> encodes 1 (Marshal_pval v) (pval_json v)"
  using encodes_strings [of _ 0] encodes_bool [of 1]
  by (cases v) (auto simp: encodes_quote encodes_int encodes_null list_all_iff)

lemma payload_members:
  assumes "payload_ok p" and "1 \<le> h"
  defines "ms \<equiv> map (\<lambda>(k, v). (k, Marshal_pval v, pval_json v)) (sort_keys p)"
  shows "ms \<noteq> []" "\<forall>(k, v, x) \<in> set ms. ascii k \<and> encodes h v x"
    "Marshal_payload p = json_object (map (\<lambda>(k, v, x). (k, v)) ms)" "payload_json p = JObj (map (\<lambda>(k, v, x). (k, x)) ms)"
  using assms(1) encodes_mono [OF encodes_pval assms(2)]
  by (auto simp: ms_def payload_ok_def Marshal_payload_def payload_json_def comp_def case_prod_unfold)

lemma encodes_payload: "payload_ok p \<Longrightarrow> encodes 2 (Marshal_payload p) (payload_json p)"
  using encodes_object [OF payload_members(1,2) [of p 1]] payload_members(3,4) [of p 1] by (simp add: numeral_2_eq_2)

lemma Marshal_raw_payload: "payload_ok p \<Longrightarrow> Marshal_raw (Marshal_payload p) = Inr (Marshal_payload p)"
proof -
  assume p: "payload_ok p"
  then have "Unmarshal_json (Marshal_payload p) = Inr (payload_json p)"
    using Unmarshal_object [OF payload_members(1,2) [of p "max_depth - 1"]] payload_members(3,4) [of p "max_depth - 1"] by simp
  then show ?thesis by (simp add: Marshal_raw_def compact_payload [OF p])
qed

text \<open>The texts of the envelope are printable.\<close>

lemma ascii_simps [simp]: "ascii []" "ascii (c # s) \<longleftrightarrow> code c < 0x80 \<and> ascii s" "ascii (u @ v) \<longleftrightarrow> ascii u \<and> ascii v"
  by (auto simp: ascii_def)

lemma ascii_show_nat: "ascii (show_nat n)"
  using show_nat_digits [of _ n] by (fastforce simp: ascii_def is_digit_def)

lemma ascii_appendInt: "ascii (appendInt i n)"
  by (simp add: appendInt_def Let_def ascii_show_nat ascii_def [of "replicate _ _"] code_def)

lemma ascii_fmtFrac: "ascii (tl (fmtFrac v n))"
proof -
  have sub: "ascii xs \<Longrightarrow> ascii (rev (dropWhile q (rev xs)))" for q and xs :: string
    unfolding ascii_def by (metis set_dropWhileD set_rev)
  have "ascii (replicate k CHR ''0'' @ show_nat f)" for k f
    by (simp add: ascii_show_nat ascii_def [of "replicate _ _"] code_def)
  then have "ascii (rev (dropWhile q (rev (replicate k CHR ''0'' @ show_nat f))))" for q k f
    by (rule sub)
  then have "ascii (fmtFrac v n)"
    by (simp add: fmtFrac_def Let_def ascii_show_nat code_def del: rev_append)
  then show ?thesis by (cases "fmtFrac v n") simp_all
qed

lemma ascii_time: "ascii (Format_RFC3339Nano t)"
  by (simp add: Format_RFC3339Nano_def Let_def ascii_appendInt ascii_fmtFrac code_def split: prod.split)

lemma ascii_hash: "ascii (payload_hash raw)"
proof -
  have "code (Deriver.hex_digit n) < 0x80" if "n < 16" for n using that by (simp add: code_def Deriver.hex_digit_def)
  moreover have "unat b div 16 < 16" for b :: "8 word" using unsigned_less [of b, where ?'a = nat] by simp
  ultimately have "ascii (Deriver.EncodeToString bs)" for bs
    by (induction bs) (simp_all add: Deriver.EncodeToString_def)
  then show ?thesis by (simp add: payload_hash_def code_def)
qed

section \<open>Delivery\<close>

definition event_ok :: "AuditOutboxEvent \<Rightarrow> bool" where
  "event_ok e = (payload_ok (ePayload e) \<and> eEventID e \<noteq> [] \<and> eEventID e \<noteq> uuid_Nil \<and> ascii (eEventID e) \<and> ascii (eEventType e)
     \<and> (case eWalletID e of None \<Rightarrow> True | Some w \<Rightarrow> ascii w))"

text \<open>The bytes \<open>Emit\<close> stored, which the in-memory store returns as they are.\<close>

definition stored :: "AuditOutboxEvent \<Rightarrow> string" where
  "stored e = Marshal_payload (ePayload e)"

definition envelope_members :: "AuditOutboxEvent \<Rightarrow> (string \<times> string \<times> json) list" where
  "envelope_members e =
     (let q = (\<lambda>k s. (k, json_quote s, JStr s))
      in [q ''action'' (eEventType e), q ''actor_id'' ''wallet-management'', q ''id'' (eEventID e),
          (''payload'', stored e, payload_json (ePayload e)), q ''payload_hash'' (payload_hash (stored e)), q ''schema_version'' ''1'',
          q ''source_service'' ''wallet-management'', q ''target_id'' (case eWalletID e of None \<Rightarrow> [] | Some w \<Rightarrow> w),
          q ''target_type'' ''wallet'', q ''ts'' (Format_RFC3339Nano (eCreatedAt e))])"

lemma envelope_sorted:
  "sort_keys (fst (buildEnvelope fresh raw ev)) =
     [(''action'', MStr (eEventType ev)), (''actor_id'', MStr ''wallet-management''), (''id'', MStr (snd (buildEnvelope fresh raw ev))),
      (''payload'', if raw = [] then MNull else MRaw raw), (''payload_hash'', MStr (payload_hash raw)), (''schema_version'', MStr ''1''),
      (''source_service'', MStr ''wallet-management''), (''target_id'', MStr (case eWalletID ev of None \<Rightarrow> [] | Some w \<Rightarrow> w)),
      (''target_type'', MStr ''wallet''), (''ts'', MStr (Format_RFC3339Nano (eCreatedAt ev)))]"
  by (simp add: buildEnvelope_def Let_def sort_keys_def code_def)

lemma stored_nonempty: "stored e \<noteq> []"
  by (simp add: stored_def Marshal_payload_def json_object_def)

lemma envelope_text:
  assumes "event_ok e"
  shows "buildEnvelope fresh (stored e) e = (fst (buildEnvelope fresh (stored e) e), eEventID e)"
    "Marshal_envelope (fst (buildEnvelope fresh (stored e) e)) = Inr (json_object (map (\<lambda>(k, v, x). (k, v)) (envelope_members e)))"
proof -
  show id: "buildEnvelope fresh (stored e) e = (fst (buildEnvelope fresh (stored e) e), eEventID e)"
    using assms by (simp add: buildEnvelope_def Let_def event_ok_def)
  have "Marshal_raw (stored e) = Inr (stored e)" using assms by (simp add: stored_def event_ok_def Marshal_raw_payload)
  then show "Marshal_envelope (fst (buildEnvelope fresh (stored e) e)) = Inr (json_object (map (\<lambda>(k, v, x). (k, v)) (envelope_members e)))"
    using arg_cong [OF id, of snd] by (simp add: Marshal_envelope_def envelope_sorted envelope_members_def Let_def stored_nonempty)
qed

text \<open>What a message tells about an event.\<close>

definition carries :: "AuditOutboxEvent \<Rightarrow> kafka_message \<Rightarrow> bool" where
  "carries e m = (kmKey m = eEventID e \<and> (\<exists>fs. Unmarshal_json (kmValue m) = Inr (JObj fs)
     \<and> map_of fs ''id'' = Some (JStr (eEventID e)) \<and> map_of fs ''action'' = Some (JStr (eEventType e))
     \<and> map_of fs ''payload'' = Some (payload_json (ePayload e)) \<and> map_of fs ''payload_hash'' = Some (JStr (payload_hash (stored e)))))"

lemma envelope_carries:
  assumes "event_ok e"
  shows "carries e \<lparr>kmKey = eEventID e, kmValue = json_object (map (\<lambda>(k, v, x). (k, v)) (envelope_members e))\<rparr>"
proof -
  have "encodes (max_depth - 1) (stored e) (payload_json (ePayload e))"
    using encodes_mono [OF encodes_payload] assms by (simp add: stored_def event_ok_def)
  then have "\<forall>(k, v, x) \<in> set (envelope_members e). ascii k \<and> encodes (max_depth - 1) v x"
    using assms by (auto simp: envelope_members_def Let_def event_ok_def encodes_quote ascii_time ascii_hash code_def split: option.splits)
  from Unmarshal_object [OF _ this] show ?thesis
    by (simp add: carries_def envelope_members_def Let_def)
qed

lemma messages_carry:
  assumes "\<forall>e \<in> set es. event_ok e"
  shows "\<exists>msgs. messages fresh stored es = Inr msgs \<and> list_all2 carries es msgs"
  using assms
proof (induction es)
  case (Cons e es)
  then obtain msgs where "messages fresh stored es = Inr msgs" "list_all2 carries es msgs" by auto
  moreover have "event_ok e" using Cons.prems by simp
  note envelope_text [OF this, of "fresh e"] envelope_carries [OF this]
  ultimately show ?case by (auto split: prod.split)
qed simp


definition sent_event :: Event where
  "sent_event = \<lparr>evType = ''wallet.created'', evWalletID = Some ''w'', evPayload = [(''label'', PStr ''hot''), (''index'', PInt 7)]\<rparr>"

definition sent_world :: world where
  "sent_world = emitted ''w'' sent_event start_world"

lemma sent_world_ok: "audit_ids_ok sent_world" "\<forall>e \<in> set (undelivered (db sent_world)). event_ok e" "set (batch (db sent_world)) = set (undelivered (db sent_world))" "undelivered (db sent_world) \<noteq> []"
proof -
  have ev: "evWalletID sent_event = Some ''w''" by (simp add: sent_event_def)
  show "audit_ids_ok sent_world"
    using Emit_ids_ok [OF start_audit_ok(1) ev] by (simp add: Emit_eq [OF start_audit_ok(1) ev] sent_world_def)
  have "undelivered (db sent_world) = [emitted_row ''w'' sent_event start_world]"
    by (simp add: sent_world_def undelivered_def New_def emitted_row_def)
  moreover have "show_nat 1 = ''1''" by code_simp
  moreover have "ids start_world = show_nat" "nid start_world = 0" by simp_all
  ultimately show "\<forall>e \<in> set (undelivered (db sent_world)). event_ok e"
    "set (batch (db sent_world)) = set (undelivered (db sent_world))" "undelivered (db sent_world) \<noteq> []"
    by (simp_all add: batch_take emitted_row_def sent_event_def event_ok_def payload_ok_def code_def)
qed

definition accepting :: kafkalib where
  "accepting = \<lparr>kWriteMessages = \<lambda>_ _. Inr (), kDial = \<lambda>_. Inr (), kClose = Inr ()\<rparr>"


lemma message_members:
  assumes "raw e \<noteq> []" and "Unmarshal_json (raw e) = Inr x"
  shows "\<exists>m ms. messages fresh raw [e] = Inr [m] \<and> kmValue m = json_object ms \<and> map_of ms ''payload'' = Some (compact False (raw e))
    \<and> map_of ms ''payload_hash'' = Some (json_quote (payload_hash (raw e)))"
proof -
  have raw: "Marshal_raw (raw e) = Inr (compact False (raw e))" using assms(2) by (simp add: Marshal_raw_def)
  obtain ms where ms: "marshal_members (sort_keys (fst (buildEnvelope (fresh e) (raw e) e))) = Inr ms"
    "map_of ms ''payload'' = Some (compact False (raw e))" "map_of ms ''payload_hash'' = Some (json_quote (payload_hash (raw e)))"
    unfolding envelope_sorted using assms(1) by (simp add: raw)
  then have "messages fresh raw [e] = Inr [\<lparr>kmKey = snd (buildEnvelope (fresh e) (raw e) e), kmValue = json_object ms\<rparr>]"
    by (simp add: Marshal_envelope_def case_prod_unfold)
  moreover have "kmValue \<lparr>kmKey = snd (buildEnvelope (fresh e) (raw e) e), kmValue = json_object ms\<rparr> = json_object ms" by simp
  ultimately show ?thesis using ms(2,3) by blast
qed

lemma messages_Inr: "messages fresh raw [e] = Inr [m] \<Longrightarrow> raw e \<noteq> [] \<Longrightarrow> \<exists>x. Unmarshal_json (raw e) = Inr x"
  by (auto simp: Marshal_envelope_def envelope_sorted case_prod_unfold Marshal_raw_def split: sum.splits)

text \<open>PostgreSQL prints a \<^verbatim>\<open>jsonb\<close> object with a space after each colon, whatever text was stored.\<close>

definition jsonb_text :: "string \<Rightarrow> bool" where
  "jsonb_text raw = (\<exists>k rest. ascii k \<and> raw = (CHR ''{'' # json_quote k @ '':'') @ CHR '' '' # rest)"

text \<open>
  On PostgreSQL, whose column for payloads is \<^verbatim>\<open>JSONB\<close>, the hash in the envelope is not that of the payload in the envelope: it is taken
  over the text with spaces that the database returns, and the payload is published in another, compact text.
\<close>

lemma jsonb_hash_mismatch:
  assumes "jsonb_text (raw e)" and "messages fresh raw [e] = Inr [m]"
  shows "\<exists>ms body. kmValue m = json_object ms \<and> map_of ms ''payload'' = Some body \<and> body \<noteq> raw e
    \<and> map_of ms ''payload_hash'' = Some (json_quote (payload_hash (raw e)))"
proof -
  obtain k rest where k: "ascii k" "raw e = (CHR ''{'' # json_quote k @ '':'') @ CHR '' '' # rest"
    using assms(1) by (auto simp: jsonb_text_def)
  have "flat (CHR ''{'' # json_quote k @ '':'')"
    using flat_quote [OF k(1)] by (intro flat_Cons flat_append [OF _ flat_plain]) (simp_all add: is_ws_def code_def)
  from compact_space [OF this, of rest] have body: "compact False (raw e) \<noteq> raw e" unfolding k(2) .
  have "raw e \<noteq> []" by (simp add: k(2))
  with messages_Inr [OF assms(2)] obtain x where "Unmarshal_json (raw e) = Inr x" by blast
  from message_members [of raw e, OF \<open>raw e \<noteq> []\<close> this, of fresh] show ?thesis using assms(2) body by auto
qed

end
