(* ===== verification/Redis.thy ===== *)
theory Redis
  imports Cache
begin

text \<open>
  The clients of Redis: the distributed lock, \<^verbatim>\<open>RedisLocker\<close> of \<^verbatim>\<open>internal/lock/lock.go\<close>, and the shared derivation cache,
  \<^verbatim>\<open>RedisCache\<close> of \<^verbatim>\<open>internal/cache/cache.go\<close>. The server is a parameter: its commands on a state of its own, of which only the map
  from keys to values is known.
\<close>

section \<open>The server\<close>

text \<open>A reply \<^verbatim>\<open>redis.Nil\<close> is \<open>None\<close>.\<close>

record 'r redis =
  rSetNX :: "string \<Rightarrow> string \<Rightarrow> int \<Rightarrow> 'r \<Rightarrow> bool res \<times> 'r"
  rGet :: "string \<Rightarrow> 'r \<Rightarrow> string option res \<times> 'r"
  rSet :: "string \<Rightarrow> string \<Rightarrow> int \<Rightarrow> 'r \<Rightarrow> unit res \<times> 'r"
  rDel :: "string list \<Rightarrow> 'r \<Rightarrow> unit res \<times> 'r"

text \<open>
  What the commands are documented to do to the map. A command that reports an error may have been carried out or not: the connection can
  break before or after.
\<close>

definition setnx_law :: "'r redis \<Rightarrow> ('r \<Rightarrow> string \<Rightarrow> string option) \<Rightarrow> bool" where
  "setnx_law R vw = (\<forall>k v ttl s. case rSetNX R k v ttl s of
       (Inr b, s') \<Rightarrow> b = (vw s k = None) \<and> vw s' = (if b then (vw s)(k \<mapsto> v) else vw s)
     | (Inl _, s') \<Rightarrow> vw s' = vw s \<or> vw s k = None \<and> vw s' = (vw s)(k \<mapsto> v))"

definition get_law :: "'r redis \<Rightarrow> ('r \<Rightarrow> string \<Rightarrow> string option) \<Rightarrow> bool" where
  "get_law R vw = (\<forall>k s. case rGet R k s of (Inr x, s') \<Rightarrow> x = vw s k \<and> vw s' = vw s | (Inl _, s') \<Rightarrow> vw s' = vw s)"

definition set_law :: "'r redis \<Rightarrow> ('r \<Rightarrow> string \<Rightarrow> string option) \<Rightarrow> bool" where
  "set_law R vw = (\<forall>k v ttl s. case rSet R k v ttl s of
       (Inr _, s') \<Rightarrow> vw s' = (vw s)(k \<mapsto> v)
     | (Inl _, s') \<Rightarrow> vw s' = vw s \<or> vw s' = (vw s)(k \<mapsto> v))"

definition del_law :: "'r redis \<Rightarrow> ('r \<Rightarrow> string \<Rightarrow> string option) \<Rightarrow> bool" where
  "del_law R vw = (\<forall>ks s. case rDel R ks s of
       (Inr _, s') \<Rightarrow> vw s' = vw s |` (- set ks)
     | (Inl _, s') \<Rightarrow> vw s' = vw s \<or> vw s' = vw s |` (- set ks))"

definition redis_ok :: "'r redis \<Rightarrow> ('r \<Rightarrow> string \<Rightarrow> string option) \<Rightarrow> bool" where
  "redis_ok R vw = (setnx_law R vw \<and> get_law R vw \<and> set_law R vw \<and> del_law R vw)"

lemma redis_laws:
  assumes "redis_ok R vw"
  shows "rSetNX R k v ttl s = (Inr b, s') \<Longrightarrow> b = (vw s k = None) \<and> vw s' = (if b then (vw s)(k \<mapsto> v) else vw s)"
    and "rSetNX R k v ttl s = (Inl e, s') \<Longrightarrow> vw s' = vw s \<or> vw s k = None \<and> vw s' = (vw s)(k \<mapsto> v)"
    and "rGet R k s = (Inr x, s') \<Longrightarrow> x = vw s k \<and> vw s' = vw s"
    and "rGet R k s = (Inl e, s') \<Longrightarrow> vw s' = vw s"
    and "rSet R k v ttl s = (r, s') \<Longrightarrow> vw s' = vw s \<or> vw s' = (vw s)(k \<mapsto> v)"
    and "rDel R ks s = (Inr u, s') \<Longrightarrow> vw s' = vw s |` (- set ks)"
    and "rDel R ks s = (Inl e, s') \<Longrightarrow> vw s' = vw s \<or> vw s' = vw s |` (- set ks)"
proof -
  have laws: "setnx_law R vw" "get_law R vw" "set_law R vw" "del_law R vw" using assms by (simp_all add: redis_ok_def)
  show "rSetNX R k v ttl s = (Inr b, s') \<Longrightarrow> b = (vw s k = None) \<and> vw s' = (if b then (vw s)(k \<mapsto> v) else vw s)"
    "rSetNX R k v ttl s = (Inl e, s') \<Longrightarrow> vw s' = vw s \<or> vw s k = None \<and> vw s' = (vw s)(k \<mapsto> v)"
    using laws(1) [unfolded setnx_law_def, THEN spec [of _ k], THEN spec [of _ v], THEN spec [of _ ttl], THEN spec [of _ s]] by simp_all
  show "rGet R k s = (Inr x, s') \<Longrightarrow> x = vw s k \<and> vw s' = vw s" "rGet R k s = (Inl e, s') \<Longrightarrow> vw s' = vw s"
    using laws(2) [unfolded get_law_def, THEN spec [of _ k], THEN spec [of _ s]] by simp_all
  show "rSet R k v ttl s = (r, s') \<Longrightarrow> vw s' = vw s \<or> vw s' = (vw s)(k \<mapsto> v)"
    using laws(3) [unfolded set_law_def, THEN spec [of _ k], THEN spec [of _ v], THEN spec [of _ ttl], THEN spec [of _ s]] by (cases r) simp_all
  show "rDel R ks s = (Inr u, s') \<Longrightarrow> vw s' = vw s |` (- set ks)" "rDel R ks s = (Inl e, s') \<Longrightarrow> vw s' = vw s \<or> vw s' = vw s |` (- set ks)"
    using laws(4) [unfolded del_law_def, THEN spec [of _ ks], THEN spec [of _ s]] by simp_all
qed

section \<open>The cache\<close>

definition redis_cache_Get :: "'r redis \<Rightarrow> string \<Rightarrow> 'r \<Rightarrow> (string \<times> bool) res \<times> 'r" where
  "redis_cache_Get R key s =
     (case rGet R key s of
        (Inr None, s) \<Rightarrow> (Inr ([], False), s)
      | (Inl e, s) \<Rightarrow> (Inl e, s)
      | (Inr (Some v), s) \<Rightarrow> (Inr (v, True), s))"

text \<open>\<open>dflt\<close> is the \<^verbatim>\<open>ttl\<close> of the cache.\<close>

definition redis_cache_Set :: "'r redis \<Rightarrow> int \<Rightarrow> string \<Rightarrow> string \<Rightarrow> int \<Rightarrow> 'r \<Rightarrow> unit res \<times> 'r" where
  "redis_cache_Set R dflt key v ttl s = rSet R key v (if ttl \<le> 0 then dflt else ttl) s"

definition redis_cache_Del :: "'r redis \<Rightarrow> string list \<Rightarrow> 'r \<Rightarrow> unit res \<times> 'r" where
  "redis_cache_Del R keys s = (if keys = [] then (Inr (), s) else rDel R keys s)"

definition redis_cache_ok :: "'r redis \<Rightarrow> ('r \<Rightarrow> string \<Rightarrow> string option) \<Rightarrow> (string \<Rightarrow> string \<Rightarrow> bool) \<Rightarrow> 'r \<Rightarrow> bool" where
  "redis_cache_ok R vw P s = (redis_ok R vw \<and> (\<forall>k v. vw s k = Some v \<longrightarrow> P k v))"

text \<open>The shared cache keeps the contract that memoisation needs, like the one in memory.\<close>

interpretation rediscache: memo_cache "redis_cache_ok R vw P" P "redis_cache_Get R" "\<lambda>k v s. snd (redis_cache_Set R dflt k v ttl s)"
  for R vw P dflt ttl
proof unfold_locales
  fix c k v c'
  assume "redis_cache_ok R vw P c" "redis_cache_Get R k c = (Inr (v, True), c')"
  then show "P k v"
    using redis_laws(3) [of R vw k c "Some v" c']
    by (auto simp: redis_cache_ok_def redis_cache_Get_def split: prod.splits sum.splits option.splits)
next
  fix c k
  assume ok: "redis_cache_ok R vw P c"
  obtain r c' where r: "rGet R k c = (r, c')" by fastforce
  have "vw c' = vw c" using ok r redis_laws(3,4) [of R vw k c _ c'] by (cases r) (auto simp: redis_cache_ok_def)
  then show "redis_cache_ok R vw P (snd (redis_cache_Get R k c))"
    using ok r by (auto simp: redis_cache_ok_def redis_cache_Get_def split: sum.splits option.splits)
next
  fix c k v
  assume ok: "redis_cache_ok R vw P c" and v: "P k v"
  obtain r c' where r: "redis_cache_Set R dflt k v ttl c = (r, c')" by fastforce
  have "vw c' = vw c \<or> vw c' = (vw c)(k \<mapsto> v)"
    using ok redis_laws(5) [of R vw k v _ c r c'] r by (simp add: redis_cache_ok_def redis_cache_Set_def)
  then show "redis_cache_ok R vw P (snd (redis_cache_Set R dflt k v ttl c))"
    using ok v r by (auto simp: redis_cache_ok_def split: if_splits)
qed

section \<open>The lock\<close>

definition lock_key :: "string \<Rightarrow> string" where
  "lock_key name = ''lock:'' @ name"

text \<open>The token is drawn before the server is asked.\<close>

definition redis_Acquire :: "'r redis \<Rightarrow> string \<Rightarrow> string \<Rightarrow> int \<Rightarrow> 'r \<Rightarrow> (string \<times> bool) res \<times> 'r" where
  "redis_Acquire R token name ttl s =
     (case rSetNX R (lock_key name) token ttl s of
        (Inl e, s) \<Rightarrow> (Inl e, s)
      | (Inr ok, s) \<Rightarrow> (Inr (token, ok), s))"

text \<open>\<^verbatim>\<open>Release\<close> is two commands: the comparison, which may already answer, and the deletion.\<close>

definition release_check :: "'r redis \<Rightarrow> string \<Rightarrow> string \<Rightarrow> 'r \<Rightarrow> unit res option \<times> 'r" where
  "release_check R name token s =
     (case rGet R (lock_key name) s of
        (Inr None, s) \<Rightarrow> (Some (Inr ()), s)
      | (Inl e, s) \<Rightarrow> (Some (Inl e), s)
      | (Inr (Some cur), s) \<Rightarrow> if cur \<noteq> token then (Some (Inl (ErrText ''lock token mismatch'')), s) else (None, s))"

definition redis_Release :: "'r redis \<Rightarrow> string \<Rightarrow> string \<Rightarrow> 'r \<Rightarrow> unit res \<times> 'r" where
  "redis_Release R name token s =
     (case release_check R name token s of
        (Some r, s) \<Rightarrow> (r, s)
      | (None, s) \<Rightarrow> rDel R [lock_key name] s)"

section \<open>Mutual exclusion\<close>

text \<open>
  Clients of the lock, each by the token it drew: \<open>lkHeld\<close> those that were told they hold a name and have not called \<^verbatim>\<open>Release\<close>, and
  \<open>lkReleasing\<close> those between its two commands. \<open>lkDrawn\<close> are the tokens drawn; the generator does not repeat them.
\<close>

record 'r lock_run =
  lkServer :: 'r
  lkHeld :: "(string \<times> string) set"
  lkReleasing :: "(string \<times> string) set"
  lkDrawn :: "string set"

text \<open>With \<open>expiry\<close>, keys may run out of their time to live between two commands.\<close>

inductive lock_step :: "'r redis \<Rightarrow> ('r \<Rightarrow> string \<Rightarrow> string option) \<Rightarrow> bool \<Rightarrow> 'r lock_run \<Rightarrow> 'r lock_run \<Rightarrow> bool" for R vw expiry where
  lk_acquire: "token \<notin> lkDrawn c \<Longrightarrow> redis_Acquire R token name ttl (lkServer c) = (Inr (token', True), s) \<Longrightarrow>
    lock_step R vw expiry c (c\<lparr>lkServer := s, lkHeld := insert (name, token') (lkHeld c), lkDrawn := insert token (lkDrawn c)\<rparr>)"
| lk_refused: "token \<notin> lkDrawn c \<Longrightarrow> redis_Acquire R token name ttl (lkServer c) = (r, s) \<Longrightarrow> \<nexists>t. r = Inr (t, True) \<Longrightarrow>
    lock_step R vw expiry c (c\<lparr>lkServer := s, lkDrawn := insert token (lkDrawn c)\<rparr>)"
| lk_compare: "(name, token) \<in> lkHeld c \<Longrightarrow> release_check R name token (lkServer c) = (r, s) \<Longrightarrow>
    lock_step R vw expiry c (c\<lparr>lkServer := s, lkHeld := lkHeld c - {(name, token)},
      lkReleasing := (if r = None then insert (name, token) (lkReleasing c) else lkReleasing c)\<rparr>)"
| lk_delete: "(name, token) \<in> lkReleasing c \<Longrightarrow> rDel R [lock_key name] (lkServer c) = (r, s) \<Longrightarrow>
    lock_step R vw expiry c (c\<lparr>lkServer := s, lkReleasing := lkReleasing c - {(name, token)}\<rparr>)"
| lk_expire: "expiry \<Longrightarrow> vw s = (vw (lkServer c)) |` (- {k}) \<Longrightarrow> lock_step R vw expiry c (c\<lparr>lkServer := s\<rparr>)"

definition lock_start :: "'r lock_run \<Rightarrow> bool" where
  "lock_start c = (lkHeld c = {} \<and> lkReleasing c = {})"

text \<open>Whoever holds a name, or has passed the comparison, has its token on the server.\<close>

definition lock_inv :: "('r \<Rightarrow> string \<Rightarrow> string option) \<Rightarrow> 'r lock_run \<Rightarrow> bool" where
  "lock_inv vw c = ((\<forall>(n, t) \<in> lkHeld c \<union> lkReleasing c. vw (lkServer c) (lock_key n) = Some t)
     \<and> lkHeld c \<inter> lkReleasing c = {})"

lemma lock_key_inj [simp]: "lock_key m = lock_key n \<longleftrightarrow> m = n"
  by (simp add: lock_key_def)

lemma lock_invD: "lock_inv vw c \<Longrightarrow> (n, t) \<in> lkHeld c \<union> lkReleasing c \<Longrightarrow> vw (lkServer c) (lock_key n) = Some t"
  by (auto simp: lock_inv_def)

lemma redis_Acquire_view:
  assumes "redis_ok R vw" and "redis_Acquire R token name ttl s = (r, s')"
  shows "if r = Inr (token, True) then vw s (lock_key name) = None \<and> vw s' = (vw s)(lock_key name \<mapsto> token)
    else (\<nexists>t. r = Inr (t, True)) \<and> (vw s' = vw s \<or> vw s (lock_key name) = None \<and> vw s' = (vw s)(lock_key name \<mapsto> token))"
  using assms(2) redis_laws(1,2) [OF assms(1), of "lock_key name" token ttl s]
  by (cases "rSetNX R (lock_key name) token ttl s") (auto simp: redis_Acquire_def split: sum.splits if_splits)

lemma release_check_view:
  assumes "redis_ok R vw" and "release_check R name token s = (r, s')"
  shows "vw s' = vw s"
  using assms(2) redis_laws(3,4) [OF assms(1), of "lock_key name" s]
  by (cases "rGet R (lock_key name) s") (auto simp: release_check_def split: sum.splits option.splits if_splits)

lemma redis_Del_view:
  assumes "redis_ok R vw" and "rDel R ks s = (r, s')"
  shows "vw s' = vw s \<or> vw s' = vw s |` (- set ks)"
  using assms(2) redis_laws(6,7) [OF assms(1), of ks s] by (cases r) auto

lemma lock_inv_step:
  assumes R: "redis_ok R vw" and inv: "lock_inv vw c" and step: "lock_step R vw False c c'"
  shows "lock_inv vw c'"
  using step
proof cases
  case (lk_acquire token name ttl token' s)
  note v = redis_Acquire_view [OF R lk_acquire(3)]
  have t: "token' = token" "vw (lkServer c) (lock_key name) = None" "vw s = (vw (lkServer c))(lock_key name \<mapsto> token)"
    using v by (auto split: if_splits)
  have free: "(name, t) \<notin> lkHeld c \<union> lkReleasing c" for t using lock_invD [OF inv, of name t] t(2) by auto
  have "vw s (lock_key n) = Some t" if "(n, t) \<in> insert (name, token) (lkHeld c) \<union> lkReleasing c" for n t
    using that lock_invD [OF inv, of n t] free [of t] t(3) by auto
  then show ?thesis using lk_acquire(1) inv t(1) free by (auto simp: lock_inv_def)
next
  case (lk_refused token name ttl r s)
  have v: "vw s = vw (lkServer c) \<or> vw (lkServer c) (lock_key name) = None \<and> vw s = (vw (lkServer c))(lock_key name \<mapsto> token)"
    using redis_Acquire_view [OF R lk_refused(3)] lk_refused(4) by (auto split: if_splits)
  have "vw s (lock_key n) = Some t" if "(n, t) \<in> lkHeld c \<union> lkReleasing c" for n t
    using v lock_invD [OF inv that] by auto
  then show ?thesis using lk_refused(1) inv by (auto simp: lock_inv_def)
next
  case (lk_compare name token r s)
  then show ?thesis using inv release_check_view [OF R lk_compare(3)] by (auto simp: lock_inv_def)
next
  case (lk_delete name token r s)
  have v: "vw s = vw (lkServer c) \<or> vw s = vw (lkServer c) |` (- {lock_key name})"
    using redis_Del_view [OF R lk_delete(3)] by simp
  have "vw s (lock_key n) = Some t" if "(n, t) \<in> lkHeld c \<union> (lkReleasing c - {(name, token)})" for n t
  proof -
    have nt: "vw (lkServer c) (lock_key n) = Some t" "(n, t) \<noteq> (name, token)"
      using lock_invD [OF inv, of n t] that lk_delete(2) inv by (auto simp: lock_inv_def)
    moreover have "vw (lkServer c) (lock_key name) = Some token" using lock_invD [OF inv] lk_delete(2) by blast
    ultimately have "n \<noteq> name" by auto
    then show ?thesis using v nt(1) by auto
  qed
  then show ?thesis using lk_delete(1) inv by (auto simp: lock_inv_def)
qed simp

interpretation redislock: inductive_inv lock_start "lock_step R vw False" "\<lambda>c. redis_ok R vw \<longrightarrow> lock_inv vw c" for R vw
  by unfold_locales (simp add: lock_start_def lock_inv_def, blast intro: lock_inv_step)

text \<open>
  C19: the distributed lock excludes. As long as no key expires, two clients never hold the same name at once, under any interleaving of the
  commands that acquiring and releasing consist of, with commands that fail before or after they were carried out.
\<close>

theorem redis_lock_excludes:
  assumes "redis_ok R vw" and "reaches lock_start (lock_step R vw False) c" and "(name, t) \<in> lkHeld c" and "(name, t') \<in> lkHeld c"
  shows "t = t'"
proof -
  have "lock_inv vw c" using redislock.reaches_inv [OF assms(2)] assms(1) by blast
  then show ?thesis using lock_invD [of vw c name t] lock_invD [of vw c name t'] assms(3,4) by simp
qed

text \<open>A server in memory.\<close>

definition map_redis :: "(string, string) gomap redis" where
  "map_redis = \<lparr>rSetNX = (\<lambda>k v ttl m. if map_of m k = None then (Inr True, AList.update k v m) else (Inr False, m)),
     rGet = (\<lambda>k m. (Inr (map_of m k), m)), rSet = (\<lambda>k v ttl m. (Inr (), AList.update k v m)),
     rDel = (\<lambda>ks m. (Inr (), fold AList.delete ks m))\<rparr>"

lemma map_redis_ok: "redis_ok map_redis map_of"
proof -
  have "map_of (fold AList.delete ks m) = map_of m |` (- set ks)" for ks and m :: "(string, string) gomap"
    by (induction ks arbitrary: m) (auto simp: delete_conv' restrict_map_def fun_eq_iff)
  then show ?thesis
    by (simp add: redis_ok_def setnx_law_def get_law_def set_law_def del_law_def map_redis_def update_conv')
qed

definition lock_idle :: "(string, string) gomap lock_run" where
  "lock_idle = \<lparr>lkServer = [], lkHeld = {}, lkReleasing = {}, lkDrawn = {}\<rparr>"

lemma lock_first:
  "lock_step map_redis map_of x lock_idle
     (lock_idle\<lparr>lkServer := [(''lock:n'', ''a'')], lkHeld := {(''n'', ''a'')}, lkDrawn := {''a''}\<rparr>)"
  using lock_step.lk_acquire [of "''a''" lock_idle map_redis "''n''" 1 "''a''" "[(''lock:n'', ''a'')]" map_of x]
  by (simp add: lock_idle_def redis_Acquire_def map_redis_def lock_key_def)

theorem redis_lock_excludes_witness:
  "\<exists>c. reaches lock_start (lock_step map_redis map_of False) c \<and> (''n'', ''a'') \<in> lkHeld c \<and> (\<forall>t. (''n'', t) \<in> lkHeld c \<longrightarrow> t = ''a'')"
proof -
  let ?c = "lock_idle\<lparr>lkServer := [(''lock:n'', ''a'')], lkHeld := {(''n'', ''a'')}, lkDrawn := {''a''}\<rparr>"
  have r: "reaches lock_start (lock_step map_redis map_of False) ?c"
    using lock_first by (rule reaches_step [rotated]) (simp add: reaches_init lock_start_def lock_idle_def)
  have "(''n'', ''a'') \<in> lkHeld ?c" by simp
  then show ?thesis using r redis_lock_excludes [OF map_redis_ok r, of "''n''" _ "''a''"] by blast
qed

section \<open>Expiry\<close>

text \<open>A server that answers every command, and whose keys can expire.\<close>

definition redis_up :: "'r redis \<Rightarrow> ('r \<Rightarrow> string \<Rightarrow> string option) \<Rightarrow> bool" where
  "redis_up R vw = ((\<forall>k v ttl s. is_ok (fst (rSetNX R k v ttl s))) \<and> (\<forall>k s. is_ok (fst (rGet R k s))) \<and> (\<forall>ks s. is_ok (fst (rDel R ks s)))
     \<and> (\<forall>s k. \<exists>s'. vw s' = vw s |` (- {k})))"

lemma acquire_free_name:
  assumes "redis_ok R vw" and "redis_up R vw" and "vw s (lock_key n) = None"
  shows "\<exists>s'. redis_Acquire R t n ttl s = (Inr (t, True), s') \<and> vw s' = (vw s)(lock_key n \<mapsto> t)"
proof -
  obtain b s' where s': "rSetNX R (lock_key n) t ttl s = (Inr b, s')"
    using assms(2) by (metis is_okE prod.collapse redis_up_def)
  show ?thesis using redis_laws(1) [OF assms(1) s'] assms(3) by (simp add: redis_Acquire_def s')
qed

lemma compare_holder:
  assumes "redis_ok R vw" and "redis_up R vw" and "vw s (lock_key n) = Some t"
  shows "\<exists>s'. release_check R n t s = (None, s') \<and> vw s' = vw s"
proof -
  obtain x s' where s': "rGet R (lock_key n) s = (Inr x, s')"
    using assms(2) by (metis is_okE prod.collapse redis_up_def)
  show ?thesis using redis_laws(3) [OF assms(1) s'] assms(3) by (simp add: release_check_def s')
qed

lemma delete_name:
  assumes "redis_ok R vw" and "redis_up R vw"
  shows "\<exists>r s'. rDel R [lock_key n] s = (r, s') \<and> vw s' (lock_key n) = None"
proof -
  obtain x s' where s': "rDel R [lock_key n] s = (Inr x, s')"
    using assms(2) by (metis is_okE prod.collapse redis_up_def)
  show ?thesis using redis_laws(6) [OF assms(1) s'] by (simp add: s')
qed

text \<open>
  C38: releasing the distributed lock can take it from somebody else. \<^verbatim>\<open>Release\<close> compares the token and deletes the key with two commands: if
  the key expires in between and another client acquires the name, the deletion removes that client's lock, and a third one acquires the name
  while the second still holds it.
\<close>

theorem stale_release_breaks_lock:
  assumes "redis_ok R vw" and "redis_up R vw" and "vw (lkServer c) (lock_key n) = None"
    and "distinct [t1, t2, t3]" and "{t1, t2, t3} \<inter> lkDrawn c = {}"
  shows "\<exists>c'. (lock_step R vw True)\<^sup>*\<^sup>* c c' \<and> (n, t2) \<in> lkHeld c' \<and> (n, t3) \<in> lkHeld c'"
proof -
  note R = assms(1,2)
  obtain s1 where s1: "redis_Acquire R t1 n 0 (lkServer c) = (Inr (t1, True), s1)" "vw s1 (lock_key n) = Some t1"
    using acquire_free_name [OF R assms(3)] by fastforce
  obtain s2 where s2: "release_check R n t1 s1 = (None, s2)" "vw s2 = vw s1" using compare_holder [OF R s1(2)] by blast
  obtain s3 where s3: "vw s3 = vw s2 |` (- {lock_key n})" using assms(2) unfolding redis_up_def by blast
  then have "vw s3 (lock_key n) = None" by simp
  then obtain s4 where s4: "redis_Acquire R t2 n 0 s3 = (Inr (t2, True), s4)" using acquire_free_name [OF R] by blast
  obtain r s5 where s5: "rDel R [lock_key n] s4 = (r, s5)" "vw s5 (lock_key n) = None" using delete_name [OF R] by blast
  obtain s6 where s6: "redis_Acquire R t3 n 0 s5 = (Inr (t3, True), s6)" using acquire_free_name [OF R s5(2)] by blast
  define c1 where "c1 = c\<lparr>lkServer := s1, lkHeld := insert (n, t1) (lkHeld c), lkDrawn := insert t1 (lkDrawn c)\<rparr>"
  define c2 where "c2 = c1\<lparr>lkServer := s2, lkHeld := lkHeld c1 - {(n, t1)}, lkReleasing := insert (n, t1) (lkReleasing c1)\<rparr>"
  define c3 where "c3 = c2\<lparr>lkServer := s3\<rparr>"
  define c4 where "c4 = c3\<lparr>lkServer := s4, lkHeld := insert (n, t2) (lkHeld c3), lkDrawn := insert t2 (lkDrawn c3)\<rparr>"
  define c5 where "c5 = c4\<lparr>lkServer := s5, lkReleasing := lkReleasing c4 - {(n, t1)}\<rparr>"
  define c6 where "c6 = c5\<lparr>lkServer := s6, lkHeld := insert (n, t3) (lkHeld c5), lkDrawn := insert t3 (lkDrawn c5)\<rparr>"
  have "lock_step R vw True c c1" unfolding c1_def using assms(5) s1(1) by (intro lk_acquire) auto
  moreover have "lock_step R vw True c1 c2"
    using lk_compare [of n t1 c1 R None s2 vw True] s2(1) by (simp add: c1_def c2_def)
  moreover have "lock_step R vw True c2 c3" unfolding c3_def using s3 by (intro lk_expire) (simp_all add: c2_def)
  moreover have "lock_step R vw True c3 c4"
    unfolding c4_def using assms(4,5) s4 by (intro lk_acquire) (auto simp: c3_def c2_def c1_def)
  moreover have "lock_step R vw True c4 c5"
    unfolding c5_def using s5(1) by (intro lk_delete) (auto simp: c4_def c3_def c2_def)
  moreover have "lock_step R vw True c5 c6"
    unfolding c6_def using assms(4,5) s6 by (intro lk_acquire) (auto simp: c5_def c4_def c3_def c2_def c1_def)
  ultimately have "(lock_step R vw True)\<^sup>*\<^sup>* c c6" by (meson converse_rtranclp_into_rtranclp rtranclp.rtrancl_refl)
  moreover have "(n, t2) \<in> lkHeld c6" "(n, t3) \<in> lkHeld c6" by (simp_all add: c6_def c5_def c4_def)
  ultimately show ?thesis by blast
qed

lemma map_redis_up: "redis_up map_redis map_of"
proof -
  have "map_of (AList.delete k m) = map_of m |` (- {k})" for k and m :: "(string, string) gomap"
    by (auto simp: delete_conv' restrict_map_def fun_eq_iff)
  then have "\<exists>m'. map_of m' = map_of m |` (- {k})" for k and m :: "(string, string) gomap" by blast
  then show ?thesis by (simp add: redis_up_def map_redis_def)
qed

theorem stale_release_breaks_lock_witness:
  "\<exists>c. (lock_step map_redis map_of True)\<^sup>*\<^sup>* lock_idle c \<and> (''n'', ''b'') \<in> lkHeld c \<and> (''n'', ''c'') \<in> lkHeld c"
  by (rule stale_release_breaks_lock [OF map_redis_ok map_redis_up, of _ _ "''a''"]) (simp_all add: lock_idle_def)

end
