(* ===== verification/Startup.thy ===== *)
theory Startup
  imports Env Clients AuditSink Redis Rest Grpc
begin

text \<open>
  Starting the service, \<^verbatim>\<open>cmd/wallet-manager/main.go\<close>: what is read from the environment, which clients are wired in production and with
  \<^verbatim>\<open>DEV_MODE=1\<close>, and how the process ends. A call of \<^verbatim>\<open>log.Fatal\<close> and an error returned by \<^verbatim>\<open>run\<close> are both \<open>Inl\<close>. Opening connections and
  reading files are parameters.
\<close>

type_synonym environment = "string \<Rightarrow> string"

section \<open>Transport credentials\<close>

text \<open>Reading a file, whether a text holds certificates in PEM form, and loading a certificate with its key.\<close>

record tlslib =
  ReadFile :: "string \<Rightarrow> string res"
  AppendCertsFromPEM :: "string \<Rightarrow> bool"
  LoadX509KeyPair :: "string \<Rightarrow> string \<Rightarrow> string res"

text \<open>Plain text, or TLS with a pool of authorities, a client certificate and the least version.\<close>

datatype transport = Insecure | TLS string string nat

type_synonym dialConfig = "transport list"

abbreviation VersionTLS12 :: nat where "VersionTLS12 \<equiv> 0x0303"

definition WithGRPCDialOptions :: "transport list \<Rightarrow> dialConfig \<Rightarrow> dialConfig" where
  "WithGRPCDialOptions opts cfg = opts"

definition defaultDialConfig :: "tlslib \<Rightarrow> environment \<Rightarrow> bool \<Rightarrow> dialConfig res" where
  "defaultDialConfig L env devMode =
     (if devMode then Inr [Insecure]
      else
        (let caPath = env ''TLS_CA_CERT_FILE''; certPath = env ''TLS_CLIENT_CERT_FILE''; keyPath = env ''TLS_CLIENT_KEY_FILE''
         in if caPath = [] \<or> certPath = [] \<or> keyPath = [] then Inl (ErrText ''TLS files required in production mode'')
            else (case ReadFile L caPath of
                    Inl e \<Rightarrow> Inl (ErrWrap ''read TLS_CA_CERT_FILE'' e)
                  | Inr caPEM \<Rightarrow>
                      if \<not> AppendCertsFromPEM L caPEM then Inl (ErrText ''TLS_CA_CERT_FILE: no PEM certificates parsed'')
                      else (case LoadX509KeyPair L certPath keyPath of
                              Inl e \<Rightarrow> Inl (ErrWrap ''load TLS client cert/key'' e)
                            | Inr clientCert \<Rightarrow> Inr [TLS caPEM clientCert VersionTLS12]))))"

text \<open>\<open>newClient\<close> is \<^verbatim>\<open>grpc.NewClient\<close>.\<close>

definition NewMPCSigningClient ::
    "tlslib \<Rightarrow> environment \<Rightarrow> (string \<Rightarrow> dialConfig \<Rightarrow> 'c res) \<Rightarrow> string \<Rightarrow> bool \<Rightarrow> (dialConfig \<Rightarrow> dialConfig) list \<Rightarrow> 'c res" where
  "NewMPCSigningClient L env newClient target devMode opts =
     (if target = [] then Inl (ErrText ''dial mpc-signing-service: empty target'')
      else (case defaultDialConfig L env devMode of
              Inl e \<Rightarrow> Inl e
            | Inr cfg \<Rightarrow>
                (case newClient target (fold (\<lambda>f c. f c) opts cfg) of
                   Inl e \<Rightarrow> Inl (ErrWrap ''dial mpc-signing-service'' e)
                 | Inr conn \<Rightarrow> Inr conn)))"

definition NewGatewayClient ::
    "tlslib \<Rightarrow> environment \<Rightarrow> (string \<Rightarrow> dialConfig \<Rightarrow> 'c res) \<Rightarrow> string \<Rightarrow> bool \<Rightarrow> (dialConfig \<Rightarrow> dialConfig) list \<Rightarrow> 'c res" where
  "NewGatewayClient L env newClient target devMode opts =
     (if target = [] then Inl (ErrText ''dial blockchain-gateway: empty target'')
      else (case defaultDialConfig L env devMode of
              Inl e \<Rightarrow> Inl e
            | Inr cfg \<Rightarrow>
                (case newClient target (fold (\<lambda>f c. f c) opts cfg) of
                   Inl e \<Rightarrow> Inl (ErrWrap ''dial blockchain-gateway'' e)
                 | Inr conn \<Rightarrow> Inr conn)))"

section \<open>Parts\<close>

text \<open>The Redis client, when the address parses and the server answers; otherwise cache and locks are local to the process.\<close>

definition initCacheAndLocker :: "(string \<Rightarrow> 'o res) \<Rightarrow> ('o \<Rightarrow> unit res) \<Rightarrow> Config \<Rightarrow> 'o option" where
  "initCacheAndLocker parseURL ping cfg =
     (case parseURL (cRedisURL cfg) of
        Inr rdb \<Rightarrow> (case ping rdb of Inr _ \<Rightarrow> Some rdb | Inl _ \<Rightarrow> None)
      | Inl _ \<Rightarrow> None)"

definition xpubEnv :: "environment \<Rightarrow> bool \<Rightarrow> string \<Rightarrow> string res" where
  "xpubEnv env devMode name =
     (let v = env name
      in if v = [] then (if devMode then Inr ''xpub-placeholder'' else Inl (ErrText ''xpub required in production mode'')) else Inr v)"

definition buildDeriverRegistry :: "keylib \<Rightarrow> environment \<Rightarrow> Config \<Rightarrow> bool \<Rightarrow> Registry res" where
  "buildDeriverRegistry K env cfg devMode =
     (case xpubEnv env devMode ''EVM_XPUB'' of Inl e \<Rightarrow> Inl e | Inr x \<Rightarrow>
     (case NewEVM x of Inl e \<Rightarrow> Inl e | Inr evm \<Rightarrow>
     (case xpubEnv env devMode ''SOL_XPUB'' of Inl e \<Rightarrow> Inl e | Inr x \<Rightarrow>
     (case NewSolana K x of Inl e \<Rightarrow> Inl e | Inr sol \<Rightarrow>
     (case xpubEnv env devMode ''BTC_XPUB'' of Inl e \<Rightarrow> Inl e | Inr x \<Rightarrow>
     (case NewBTC x of Inl e \<Rightarrow> Inl e | Inr btc \<Rightarrow>
        Inr \<lparr>evm_xpub = evm, btc_xpub = btc, sol_pubkeyBase58 = sol, reg_ttl = cDerivationCacheTTL cfg\<rparr>))))))"

definition splitCSV :: "string \<Rightarrow> string list" where
  "splitCSV s = filter (\<lambda>p. p \<noteq> []) (map TrimSpace (Split (CHR '','') s))"

definition initAuditSink :: "environment \<Rightarrow> bool \<Rightarrow> KafkaSink option res" where
  "initAuditSink env devMode =
     (if env ''KAFKA_BROKERS'' \<noteq> [] then Inr (Some (NewKafkaSink (splitCSV (env ''KAFKA_BROKERS''))))
      else if devMode then Inr None
      else Inl (ErrText ''KAFKA_BROKERS unset and DEV_MODE not set; cannot start audit producer''))"

text \<open>The mocks of \<^verbatim>\<open>internal/grpcclient\<close>, or connections to the signer and the gateway.\<close>

datatype 'c peers = Mocks | Connected 'c 'c

definition initSignerAndGateway ::
    "tlslib \<Rightarrow> environment \<Rightarrow> (string \<Rightarrow> dialConfig \<Rightarrow> 'c res) \<Rightarrow> Config \<Rightarrow> bool \<Rightarrow> 'c peers res" where
  "initSignerAndGateway L env newClient cfg devMode =
     (if devMode then Inr Mocks
      else if cMPCSigningURL cfg = [] then Inl (ErrText ''MPC_SIGNING_URL required in production mode'')
      else if cBlockchainGatewayURL cfg = [] then Inl (ErrText ''BLOCKCHAIN_GATEWAY_URL required in production mode'')
      else (case NewMPCSigningClient L env newClient (cMPCSigningURL cfg) devMode [] of
              Inl e \<Rightarrow> Inl (ErrWrap ''dial mpc-signing-service'' e)
            | Inr realSigner \<Rightarrow>
                (case NewGatewayClient L env newClient (cBlockchainGatewayURL cfg) devMode [] of
                   Inl e \<Rightarrow> Inl (ErrWrap ''dial blockchain-gateway'' e)
                 | Inr realGw \<Rightarrow> Inr (Connected realSigner realGw))))"

definition initSolanaBlockhashFetcher :: "environment \<Rightarrow> bool \<Rightarrow> SolanaRPCBlockhashFetcher option res" where
  "initSolanaBlockhashFetcher env devMode =
     (let url = env ''SOLANA_RPC_URL''
      in if url = [] then (if devMode then Inr None else Inl (ErrText ''SOLANA_RPC_URL required in production mode''))
         else Inr (Some (NewSolanaRPCBlockhashFetcher url)))"

text \<open>The outcome of each probe; \<open>None\<close> for a dependency that is not wired. The two HTTP clients come with their address.\<close>

definition probe_of :: "string \<Rightarrow> unit res option \<Rightarrow> ReadinessCheck list" where
  "probe_of name p = (case p of None \<Rightarrow> [] | Some r \<Rightarrow> [\<lparr>rcName = name, rcCheck = Some r\<rparr>])"

definition buildReadinessChecks ::
    "unit res option \<Rightarrow> unit res option \<Rightarrow> unit res option \<Rightarrow> (string \<times> unit res) option \<Rightarrow> (string \<times> unit res) option
     \<Rightarrow> unit res option \<Rightarrow> unit res option \<Rightarrow> ReadinessCheck list" where
  "buildReadinessChecks st rc auditKafka treasury policyClient signer gw =
     probe_of ''db'' st @ probe_of ''redis'' rc @ probe_of ''audit_kafka'' auditKafka
     @ probe_of ''treasury'' (case treasury of Some (url, r) \<Rightarrow> if url \<noteq> [] then Some r else None | None \<Rightarrow> None)
     @ probe_of ''policy_risk_engine'' (case policyClient of Some (url, r) \<Rightarrow> if url \<noteq> [] then Some r else None | None \<Rightarrow> None)
     @ probe_of ''mpc_signer'' signer @ probe_of ''blockchain_gateway'' gw"

section \<open>Wiring\<close>

text \<open>
  What starting depends on: tracing, opening the database, running its migrations (whose error is only logged), parsing the address of Redis and
  pinging it, files, dialling, floating-point numbers and the keys; \<open>xTesting\<close> holds in a test binary.
\<close>

record ('o, 'c) externals =
  xOtel :: "unit res"
  xOpen :: "string \<Rightarrow> unit res"
  xMigrate :: "unit res"
  xParseURL :: "string \<Rightarrow> 'o res"
  xPing :: "'o \<Rightarrow> unit res"
  xTLS :: tlslib
  xNewClient :: "string \<Rightarrow> dialConfig \<Rightarrow> 'c res"
  xFloat :: envlib
  xKeys :: keylib
  xTesting :: bool

record ('o, 'c) wiring =
  wiConfig :: Config
  wiRedis :: "'o option"
  wiRegistry :: Registry
  wiSink :: "KafkaSink option"
  wiPeers :: "'c peers"
  wiFetcher :: "SolanaRPCBlockhashFetcher option"
  wiAuth :: "string \<times> bool"

text \<open>\<^verbatim>\<open>run\<close> up to the start of the servers. Both servers read the token secret when they are built.\<close>

definition start :: "('o, 'c) externals \<Rightarrow> environment \<Rightarrow> ('o, 'c) wiring res" where
  "start X env =
     (case xOtel X of Inl e \<Rightarrow> Inl e | Inr _ \<Rightarrow>
     (let cfg = FromEnv (xFloat X) env; devMode = (env ''DEV_MODE'' = ''1'')
      in case xOpen X (cDBURL cfg) of Inl e \<Rightarrow> Inl e | Inr _ \<Rightarrow>
     (let redis = initCacheAndLocker (xParseURL X) (xPing X) cfg
      in case buildDeriverRegistry (xKeys X) env cfg devMode of Inl e \<Rightarrow> Inl e | Inr registry \<Rightarrow>
     (case initAuditSink env devMode of Inl e \<Rightarrow> Inl e | Inr auditSink \<Rightarrow>
     (case initSignerAndGateway (xTLS X) env (xNewClient X) cfg devMode of Inl e \<Rightarrow> Inl e | Inr peers \<Rightarrow>
     (case initSolanaBlockhashFetcher env devMode of Inl e \<Rightarrow> Inl e | Inr fetcher \<Rightarrow>
     (case SecretFromEnv env (xTesting X) of
        None \<Rightarrow> Inl (ErrText ''SERVICE_TOKEN_SECRET not set and DEV_MODE!=1; refusing to start in production mode'')
      | Some auth \<Rightarrow>
          Inr \<lparr>wiConfig = cfg, wiRedis = redis, wiRegistry = registry, wiSink = auditSink, wiPeers = peers, wiFetcher = fetcher,
               wiAuth = auth\<rparr>)))))))"

text \<open>How the process ends: a signal, or one of the servers returned.\<close>

datatype ending = Signal | Returned "goerr option"

abbreviation ErrServerClosed :: goerr where "ErrServerClosed \<equiv> ErrText ''http: Server closed''"

definition run :: "('o, 'c) externals \<Rightarrow> environment \<Rightarrow> ending \<Rightarrow> unit res" where
  "run X env ending =
     (case start X env of
        Inl e \<Rightarrow> Inl e
      | Inr _ \<Rightarrow>
          (case ending of
             Signal \<Rightarrow> Inr ()
           | Returned err \<Rightarrow>
               (case err of
                  Some e \<Rightarrow> if \<not> errors_Is e ErrServerClosed then Inl e else Inr ()
                | None \<Rightarrow> Inr ())))"

text \<open>The libraries of the services, the stubs of the two gRPC services, the answer of a blockhash fetcher, and what others do meanwhile.\<close>

record 'c libs =
  lDecimal :: declib
  lFloat :: floatlib
  lTx :: txlib
  lKeys :: keylib
  lHttp :: httplib
  lSign :: "'c \<Rightarrow> pb_SignRequest \<Rightarrow> (bytes \<times> string) res"
  lBroadcast :: "'c \<Rightarrow> pb_BroadcastTxRequest \<Rightarrow> string res"
  lBlockhash :: "SolanaRPCBlockhashFetcher \<Rightarrow> bytes res"
  lParse :: "string \<Rightarrow> uuid res"
  lOthers :: "world \<Rightarrow> world"
  lOthersDB :: "store \<Rightarrow> store"

definition wired_wallets :: "'c libs \<Rightarrow> ('o, 'c) wiring \<Rightarrow> Service" where
  "wired_wallets L S = \<lparr>sKeys = lKeys L, sDerivers = wiRegistry S, sAudit = EmitterService, sConfig = wiConfig S\<rparr>"

definition wired_funding :: "'c libs \<Rightarrow> ('o, 'c) wiring \<Rightarrow> funding_service" where
  "wired_funding L S = \<lparr>fsD = lDecimal L, fsF = lFloat L,
     fsTreasury = Some (RequestFunding (lHttp L) (cTreasuryOrchestrationURL (wiConfig S))), fsAudit = EmitterService, fsConfig = wiConfig S\<rparr>"

definition wired_signer :: "'c libs \<Rightarrow> 'c peers \<Rightarrow> SignRequest \<Rightarrow> bytes res" where
  "wired_signer L p q =
     map_sum (\<lambda>e. e) srSignature (case p of Mocks \<Rightarrow> MockMPCSigner_Sign None q | Connected c _ \<Rightarrow> MPCSigningClient_Sign (lSign L c) q)"

definition wired_gateway :: "'c libs \<Rightarrow> 'c peers \<Rightarrow> BroadcastRequest \<Rightarrow> string res" where
  "wired_gateway L p q = (case p of Mocks \<Rightarrow> MockGatewayClient_BroadcastTx None q | Connected _ c \<Rightarrow> GatewayClient_BroadcastTx (lBroadcast L c) q)"

definition wired_withdrawals :: "'c libs \<Rightarrow> ('o, 'c) wiring \<Rightarrow> saga_env" where
  "wired_withdrawals L S = \<lparr>sD = lDecimal L, sT = lTx L, sPolicy = CheckWhitelist (lHttp L) (cPolicyRiskEngineURL (wiConfig S)),
     sSigner = wired_signer L (wiPeers S), sGateway = wired_gateway L (wiPeers S), sKeyLookup = Some ResolveActiveKeyID,
     sBTCKeys = Some (BTCPubKeyHash (lKeys L) (Some (wiRegistry S))), sSolanaKeys = Some (SolanaFrom (lTx L)),
     sSolanaBlockhash = map_option (lBlockhash L) (wiFetcher S), sEmitter = EmitterService, sOthers = lOthers L, sOthersDB = lOthersDB L\<rparr>"

definition wired_rest :: "'c libs \<Rightarrow> ReadinessCheck list \<Rightarrow> ('o, 'c) wiring \<Rightarrow> rest_deps" where
  "wired_rest L checks S = \<lparr>dWallets = wired_wallets L S, dFunding = wired_funding L S, dWithdrawal = wired_withdrawals L S, dNonce = True,
     dReadiness = checks, dParse = lParse L, dOthers = lOthers L\<rparr>"

definition wired_grpc :: "'c libs \<Rightarrow> ('o, 'c) wiring \<Rightarrow> grpc_deps" where
  "wired_grpc L S = \<lparr>gDecimal = lDecimal L, gConfig = wiConfig S, gEmitter = EmitterService,
     gOnConfirmedDecrease = wired_OnConfirmedDecrease (wired_funding L S), gUTXORestore = wired_UTXORestore,
     gWithdrawals = wired_withdrawals L S, gParse = lParse L\<rparr>"

section \<open>Starting in production\<close>

lemma start_Inr:
  assumes "start X env = Inr S"
  defines "cfg \<equiv> FromEnv (xFloat X) env" and "dev \<equiv> env ''DEV_MODE'' = ''1''"
  shows "wiConfig S = cfg" "buildDeriverRegistry (xKeys X) env cfg dev = Inr (wiRegistry S)" "initAuditSink env dev = Inr (wiSink S)"
    "initSignerAndGateway (xTLS X) env (xNewClient X) cfg dev = Inr (wiPeers S)" "initSolanaBlockhashFetcher env dev = Inr (wiFetcher S)"
    "SecretFromEnv env (xTesting X) = Some (wiAuth S)" "wiRedis S = initCacheAndLocker (xParseURL X) (xPing X) cfg"
  using assms(1) by (auto simp: start_def cfg_def dev_def Let_def split: sum.splits option.splits)

definition mtls :: "tlslib \<Rightarrow> environment \<Rightarrow> dialConfig \<Rightarrow> bool" where
  "mtls L env opts =
     (\<exists>ca cert. opts = [TLS ca cert VersionTLS12] \<and> ReadFile L (env ''TLS_CA_CERT_FILE'') = Inr ca \<and> AppendCertsFromPEM L ca
        \<and> LoadX509KeyPair L (env ''TLS_CLIENT_CERT_FILE'') (env ''TLS_CLIENT_KEY_FILE'') = Inr cert)"

lemma production_peers:
  assumes "initSignerAndGateway L env newClient cfg False = Inr p"
  shows "\<exists>signer gw opts. p = Connected signer gw \<and> mtls L env opts
    \<and> newClient (cMPCSigningURL cfg) opts = Inr signer \<and> newClient (cBlockchainGatewayURL cfg) opts = Inr gw"
  using assms
  by (auto simp: initSignerAndGateway_def NewMPCSigningClient_def NewGatewayClient_def defaultDialConfig_def mtls_def Let_def
      split: if_splits sum.splits)

lemma production_registry:
  assumes "buildDeriverRegistry K env cfg False = Inr reg"
  shows "TrimSpace (env ''EVM_XPUB'') = evm_xpub reg \<and> evm_xpub reg \<noteq> [] \<and> TrimSpace (env ''BTC_XPUB'') = btc_xpub reg \<and> btc_xpub reg \<noteq> []
    \<and> TrimSpace (env ''SOL_XPUB'') \<noteq> []"
  using assms
  by (auto simp: buildDeriverRegistry_def xpubEnv_def NewEVM_def NewBTC_def NewSolana_def ParseXpub_def Let_def
      split: sum.splits if_splits)


definition sample_vars :: environment where
  "sample_vars k = (case map_of
     [(''SERVICE_TOKEN_SECRET'', ''s''), (''EVM_XPUB'', ''x''), (''SOL_XPUB'', ''x''), (''BTC_XPUB'', ''x''), (''KAFKA_BROKERS'', ''k''),
      (''SOLANA_RPC_URL'', ''u''), (''TLS_CA_CERT_FILE'', ''ca''), (''TLS_CLIENT_CERT_FILE'', ''c''), (''TLS_CLIENT_KEY_FILE'', ''p'')] k of
     Some v \<Rightarrow> v | None \<Rightarrow> [])"

definition sample_externals :: "(string, string) externals" where
  "sample_externals = \<lparr>xOtel = Inr (), xOpen = (\<lambda>_. Inr ()), xMigrate = Inr (), xParseURL = Inr, xPing = (\<lambda>_. Inl (ErrText ''refused'')),
     xTLS = \<lparr>ReadFile = Inr, AppendCertsFromPEM = (\<lambda>_. True), LoadX509KeyPair = (\<lambda>c k. Inr c)\<rparr>, xNewClient = (\<lambda>target _. Inr target),
     xFloat = \<lparr>ParseFloat = (\<lambda>_. Inl (ErrText ''syntax'')), scaled = (\<lambda>_ _ _. 0)\<rparr>, xKeys = sample_keylib, xTesting = False\<rparr>"

lemma sample_start: "\<exists>S. start sample_externals sample_vars = Inr S \<and> wiRedis S = None"
proof -
  have x: "TrimSpace ''x'' = ''x''" by (rule TrimSpace_graphic) (simp_all add: graphic_def)
  have vars: "sample_vars ''EVM_XPUB'' = ''x''" "sample_vars ''SOL_XPUB'' = ''x''" "sample_vars ''BTC_XPUB'' = ''x''"
    "sample_vars ''DEV_MODE'' = []" "sample_vars ''SERVICE_TOKEN_SECRET'' = ''s''" "sample_vars ''KAFKA_BROKERS'' = ''k''"
    "sample_vars ''SOLANA_RPC_URL'' = ''u''" "sample_vars ''TLS_CA_CERT_FILE'' = ''ca''" "sample_vars ''TLS_CLIENT_CERT_FILE'' = ''c''"
    "sample_vars ''TLS_CLIENT_KEY_FILE'' = ''p''"
    by (simp_all add: sample_vars_def)
  then have "buildDeriverRegistry sample_keylib sample_vars cfg False
      = Inr \<lparr>evm_xpub = ''x'', btc_xpub = ''x'', sol_pubkeyBase58 = ''x'', reg_ttl = cDerivationCacheTTL cfg\<rparr>" for cfg
    by (simp add: buildDeriverRegistry_def xpubEnv_def NewEVM_def NewBTC_def NewSolana_def ParseXpub_def x isHex32_def Let_def)
  then show ?thesis
    by (simp add: start_def sample_externals_def vars initAuditSink_def initSignerAndGateway_def FromEnv_URLs NewMPCSigningClient_def
        NewGatewayClient_def defaultDialConfig_def initSolanaBlockhashFetcher_def SecretFromEnv_def initCacheAndLocker_def Let_def)
qed


text \<open>
  A service can start in production without ever delivering an audit event. With a value of \<^verbatim>\<open>KAFKA_BROKERS\<close> that is not empty but names no
  broker, such as a comma, the sink has no writer: every pass of the drainer over a pending event fails and marks nothing.
\<close>

lemma blank_brokers_never_deliver:
  assumes "env ''KAFKA_BROKERS'' \<noteq> []" and "splitCSV (env ''KAFKA_BROKERS'') = []"
  shows "\<exists>s. initAuditSink env devMode = Inr (Some s)
    \<and> (undelivered (db w) \<noteq> [] \<longrightarrow> Drain (Some (Deliver K fresh raw s)) w = (Inl (ErrText ''audit kafka: not connected''), w))"
  using assms batch_Nil [of "db w"] by (simp add: initAuditSink_def NewKafkaSink_def Drain_def Deliver_def Let_def)

text \<open>Redis is optional in production too: locks and cache are then local to the process.\<close>

lemma production_without_redis:
  assumes "start X env = Inr S" and "\<forall>rdb. \<not> is_ok (xPing X rdb)"
  shows "wiRedis S = None"
  using start_Inr(7) [OF assms(1)] assms(2) by (auto simp: initCacheAndLocker_def split: sum.split) (metis is_ok_simps(2))

end
