(* ===== verification/Deployed.thy ===== *)
theory Deployed
  imports Startup ServiceTypes
begin

text \<open>
  The service as \<^verbatim>\<open>cmd/wallet-manager/main.go\<close> deploys it: the services wired by \<open>start\<close>, driven by requests to the two APIs, the drainer and the
  clock. What it is to have no key bound is the property \<open>Q\<close> of the rules of \<open>ServiceTypes\<close>.
\<close>

definition keyless :: "(uuid, KeyMapping list) gomap \<Rightarrow> bool" where
  "keyless m = (m = [])"

abbreviation deployed_start :: "'c libs \<Rightarrow> ReadinessCheck list \<Rightarrow> ('o, 'c) wiring \<Rightarrow> world \<Rightarrow> bool" where
  "deployed_start L checks S \<equiv> service_start keyless (wired_funding L S) (wired_rest L checks S) (wired_grpc L S)"

abbreviation deployed_step :: "chi \<Rightarrow> 'c libs \<Rightarrow> ReadinessCheck list \<Rightarrow> ('o, 'c) wiring \<Rightarrow> world \<Rightarrow> world \<Rightarrow> bool" where
  "deployed_step C L checks S \<equiv> api_step C (wired_rest L checks S) (wired_grpc L S) (wiAuth S)"

lemma wired_hooks: "wired (wired_funding L S) (wired_grpc L S)"
  by (simp add: wired_def wired_grpc_def)

lemma deployed_env:
  assumes "declib_ok (lDecimal L)"
    and "\<forall>w. wty (lDecimal L) keyless w \<longrightarrow> wty (lDecimal L) keyless (lOthers L w)"
    and "\<forall>s. kept (lDecimal L) keyless s \<longrightarrow> kept (lDecimal L) keyless (lOthersDB L s)"
  shows "service_env keyless (wired_funding L S) (wired_rest L checks S) (wired_grpc L S)"
  using assms wired_hooks [of L S]
  by (simp add: service_env_def env_typed_def wired_rest_def wired_withdrawals_def) (simp add: wired_grpc_def)

lemma keyless_resolve: "keyless (keyMappings (db w)) \<Longrightarrow> \<exists>e. ResolveActive wid w = Inl e"
  by (simp add: ResolveActive_def ResolveActiveKey_def keyless_def get_list_def Let_def)

lemma keyless_stuck:
  assumes "keyless (keyMappings (db w))" and "sKeyLookup E = Some ResolveActiveKeyID"
  shows "\<exists>e. ConstructAndSign E i w = (Inl e, w)"
proof -
  have "\<exists>e. ResolveActiveKeyID wid w = Inl e" for wid
    using keyless_resolve [OF assms(1), of wid] by (auto simp: ResolveActiveKeyID_def)
  then show ?thesis
    using assms(2) by (auto simp: ConstructAndSign_def split: sum.split) (metis Inl_Inr_False)
qed

text \<open>
  C0: the deployed service cannot pay out. The service asks the key mappings for the key of a wallet, and nothing it does ever binds one: after any
  requests to the two APIs, from an empty store, every row is typed, no wallet has a key, \<^verbatim>\<open>ResolveKeyID\<close> answers every call with an error, and
  constructing and signing any withdrawal fails without any effect.
\<close>

theorem deployed_keyless:
  assumes "reaches (deployed_start L checks S) (deployed_step C L checks S) w"
  shows "store_typed (lDecimal L) (db w) \<and> (\<exists>e. ResolveActiveKeyID wid w = Inl e)
    \<and> (\<exists>e. grpc_serve (wired_grpc L S) auth md ''/wallet.WalletService/ResolveKeyID'' data w = (Inl e, w))
    \<and> (\<exists>e. ConstructAndSign (wired_withdrawals L S) i w = (Inl e, w))"
proof -
  have k: "store_typed (lDecimal L) (db w)" "keyless (keyMappings (db w))"
    using api.reaches_inv [OF assms] by (simp_all add: wty_def kept_def wired_grpc_def)
  note r = keyless_resolve [OF k(2)]
  have "\<exists>e. ResolveActiveKeyID wid w = Inl e" using r [of wid] by (auto simp: ResolveActiveKeyID_def)
  moreover have "\<exists>e. resolveKeyIDHandler (wired_grpc L S) md data ic w = (Inl e, w)" for ic
    using r by (auto simp: resolveKeyIDHandler_def split: sum.split) (metis Inl_Inr_False)
  moreover have "\<exists>e. ConstructAndSign (wired_withdrawals L S) i w = (Inl e, w)"
    by (rule keyless_stuck [OF k(2)]) (simp add: wired_withdrawals_def)
  ultimately show ?thesis using k(1) by (auto simp: grpc_serve_def registerMethods_def)
qed

definition sample_libs :: "string libs" where
  "sample_libs = \<lparr>lDecimal = frac_lib, lFloat = fsF (sample_funding (Inr ())), lTx = sample_txlib, lKeys = sample_keylib, lHttp = approving_engine,
     lSign = (\<lambda>_ _. Inl (ErrText ''unavailable'')), lBroadcast = (\<lambda>_ _. Inl (ErrText ''unavailable'')),
     lBlockhash = (\<lambda>_. Inl (ErrText ''unavailable'')), lParse = Inr, lOthers = (\<lambda>w. w), lOthersDB = (\<lambda>s. s)\<rparr>"

theorem deployed_keyless_witness:
  "\<exists>S. start sample_externals sample_vars = Inr S
    \<and> (\<exists>e. ResolveActiveKeyID ''w'' (snd (grpc_serve (wired_grpc sample_libs S) (wiAuth S) None OnConfirmation
          (Marshal_confirmation (sample_report ''eth'' ''e'')) start_world)) = Inl e)"
proof -
  obtain S where S: "start sample_externals sample_vars = Inr S" using sample_start by blast
  have "deployed_start sample_libs [] S start_world"
    using deployed_env [of sample_libs] by (simp add: service_start_def keyless_def sample_libs_def frac_lib_ok)
  then have "reaches (deployed_start sample_libs [] S) (deployed_step sample_chi sample_libs [] S)
      (snd (grpc_serve (wired_grpc sample_libs S) (wiAuth S) None OnConfirmation (Marshal_confirmation (sample_report ''eth'' ''e'')) start_world))"
    by (rule reaches_step [OF reaches_init]) (rule api_grpc)
  from deployed_keyless [OF this] S show ?thesis by blast
qed

end
