(* ===== verification/Spec2Isabelle.thy ===== *)
theory Spec2Isabelle
  imports Utxo Nonce Balance Keys TxBuilder Wallets Withdrawal Saga Funding Rest Grpc PgStore ServiceTypes Clients Startup Deployed
begin

text \<open>
  The wallet manager: a verification development.

  \<^bold>\<open>The program.\<close> The wallet manager (\<^verbatim>\<open>src/\<close>, Go) keeps the custodial wallets of an on-ramp: it
  derives deposit addresses, keeps balances, unspent outputs and EVM nonces, asks an MPC service to
  sign payouts, has them broadcast by a blockchain gateway, asks the treasury to refill hot wallets,
  and records what it does in an audit outbox. The services work on one \<^verbatim>\<open>storage.Store\<close>; its
  in-memory implementation is the model of the store. Every service is a function of the store, the
  clock, the lock table and the stream of fresh identifiers.

  \<^bold>\<open>Conventions.\<close> A fallible operation returns \<^typ>\<open>'a res\<close>, that is \<^typ>\<open>goerr + 'a\<close>. A reader of
  the store has type \<open>store \<Rightarrow> 'a res\<close>, a writer \<open>store \<Rightarrow> 'a res \<times> store\<close>, and a service that also uses
  locks, clock and identifiers works on the record \<open>world\<close> of theory \<open>World\<close>. A Go map is an
  association list with distinct keys, \<^verbatim>\<open>int64\<close> arithmetic is \<^typ>\<open>int\<close> with \<open>wrap64\<close>, bytes are
  8-bit words. Each method of the store is one step; what other goroutines do between two steps of
  one operation is an argument (\<open>others\<close>) where the operation can be interleaved with effect:
  the UTXO selection and the retry loop of the nonce reservation. Money amounts are rational numbers; \<^verbatim>\<open>shopspring/decimal\<close> is the
  parameter \<open>declib\<close> with the laws of \<open>declib_ok\<close>.

  \<^bold>\<open>The theories.\<close>
  \<^item> \<open>Prelude\<close>: results, wrap-around, maps, stable sorting, \<open>reaches\<close> with the invariant and simulation
    locales \<open>inductive_inv\<close>, \<open>simulation\<close> and \<open>simulated_inv\<close>, and the row invariants \<open>rows_ok\<close> and \<open>rows_apart\<close>.
  \<^item> \<open>GoLib\<close>, \<open>Json\<close>, \<open>Bytes\<close>, \<open>Decimal\<close>: the parts of Go's standard library the program uses
    (\<^verbatim>\<open>strconv\<close>, \<^verbatim>\<open>strings\<close>, \<^verbatim>\<open>math/big\<close>, \<^verbatim>\<open>encoding/json\<close>, \<^verbatim>\<open>encoding/binary\<close>, \<^verbatim>\<open>crypto/sha256\<close>)
    and the interface of the decimal library.
  \<^item> \<open>Domain\<close>, \<open>Memstore\<close>: \<^verbatim>\<open>internal/domain/domain.go\<close>, the rows of \<^verbatim>\<open>internal/storage/store.go\<close>, and every
    method of \<^verbatim>\<open>internal/storage/memstore/memstore.go\<close>.
  \<^item> \<open>Cache\<close>, \<open>World\<close>, \<open>Config\<close>: the process-local cache (\<^verbatim>\<open>internal/cache\<close>), the process-local locker
    (\<^verbatim>\<open>internal/lock\<close>), transactions, and the configuration (\<^verbatim>\<open>internal/config\<close>).
  \<^item> \<open>Outbox\<close> (\<^verbatim>\<open>internal/audit\<close>): events of a wallet are numbered without gaps; a drain delivers at least
    once, in order, and draining often enough empties the outbox.
  \<^item> \<open>Utxo\<close> (\<^verbatim>\<open>internal/utxo\<close>): a selection covers the amount, fails only for insufficient funds or
    interference, and two selections never share an output.
  \<^item> \<open>Nonce\<close> (\<^verbatim>\<open>internal/nonce\<close>): a nonce is held by one payout at a time and a broadcast nonce is never handed out
    again; under contention a reservation gives up after its retries.
  \<^item> \<open>Balance\<close> (\<^verbatim>\<open>internal/balance\<close>): a deposit is credited once however often it is reported.
  \<^item> \<open>Keys\<close> (\<^verbatim>\<open>internal/keymapping\<close>): a wallet has at most one current key.
  \<^item> \<open>Rlp\<close>, \<open>TxBuilder\<close> (\<^verbatim>\<open>internal/withdrawal/txbuilder.go\<close>): decoding a broadcast transaction gives back
    the fields of the request it was built for, on EVM chains, Bitcoin and Solana.
  \<^item> \<open>Deriver\<close>, \<open>Wallets\<close> (\<^verbatim>\<open>internal/deriver\<close>, \<^verbatim>\<open>internal/wallet\<close>): the cache does not change a derived
    address, addresses of a wallet stay distinct and well-formed, rotation, and wallet states.
  \<^item> \<open>Withdrawal\<close>, \<open>Saga\<close> (\<^verbatim>\<open>internal/withdrawal\<close>): the saga refines an abstract state machine in which a
    payout is broadcast at most once; a signed payout from end to end; failures and reorgs.
  \<^item> \<open>Funding\<close> (\<^verbatim>\<open>internal/funding\<close>): at most one open request per wallet and asset; the comparison with
    the threshold is in \<^verbatim>\<open>float64\<close> with its rounding.

  \<^bold>\<open>Third-party code\<close> is a parameter: the curve, BIP-32, Keccak-256, base58 and btcd (\<open>txlib\<close> and the
  parameter of \<open>Deriver\<close>), \<^verbatim>\<open>shopspring/decimal\<close> (\<open>declib\<close>), the treasury, policy engine, MPC signer and gateway
  (fields of the environments). What a theorem needs of them is a hypothesis of that theorem.

  \<^bold>\<open>Bounds and fuel.\<close> The retry loop of the nonce reservation recurses on the number of retries left, as
  the code does. The JSON parser has the fuel \<open>Suc (2 * length)\<close>, which lemma \<open>fuel_enough\<close> of theory
  \<open>Json\<close> shows never to run out, and the nesting limit of the Go decoder.

  \<^bold>\<open>Not modelled.\<close> The PostgreSQL store, the migrations and the Redis variants of lock and cache are
  statements run by a service; the HTTP and gRPC clients, the tracing set-up and the process start-up are
  I/O; the protocol-buffer files are generated. The goroutine-reentrant mutex of the in-memory store
  is what makes one method one step, and is not modelled itself.
\<close>

end
